(* ===== verification/Prelude.thy ===== *)
theory Prelude
  imports Main "HOL-Library.Word" "HOL-Library.Monad_Syntax"
begin

unbundle bit_operations_syntax

text \<open>
  Shared vocabulary of the development: the machine types of the sources as fixed-width words,
  \<^verbatim>\<open>std::string\<close> as a list of \<open>char\<close> (an Isabelle \<open>char\<close> is one byte), the conversions between
  characters and bytes that \<^verbatim>\<open>memcpy\<close> performs, writes into a sized buffer, loads of a
  \<^verbatim>\<open>uint32_t\<close> in network byte order, decimal and hexadecimal printing, and the collections of
  rewrite rules that the component theories extend.

  Fallible steps are values of \<open>option\<close>: \<^term>\<open>None\<close> means that the C or C++ program does not
  continue normally (an exception that nothing catches, or an access outside a buffer).
\<close>

type_synonym byte = "8 word"
type_synonym u16 = "16 word"
type_synonym u32 = "32 word"
type_synonym u64 = "64 word"
type_synonym bytes = "byte list"

named_theorems wire_simps \<open>encoding and decoding of wire fields\<close>
named_theorems frame_simps \<open>fields of the world that an operation leaves alone\<close>
named_theorems inv_intros \<open>preservation of component invariants\<close>

subsection \<open>Characters and bytes\<close>

definition byte_of_char :: "char \<Rightarrow> byte" where
  "byte_of_char c = word_of_nat (of_char c)"

definition char_of_byte :: "byte \<Rightarrow> char" where
  "char_of_byte b = char_of (unat b)"

definition bytes_of_string :: "string \<Rightarrow> bytes" where
  "bytes_of_string s = map byte_of_char s"

definition string_of_bytes :: "bytes \<Rightarrow> string" where
  "string_of_bytes bs = map char_of_byte bs"

subsection \<open>Buffers\<close>

text \<open>A write of a block of bytes at an offset of a buffer whose size is fixed.\<close>

definition write_at :: "nat \<Rightarrow> 'a list \<Rightarrow> 'a list \<Rightarrow> 'a list option" where
  "write_at off src buf =
     (if off + length src \<le> length buf
      then Some (take off buf @ src @ drop (off + length src) buf) else None)"

text \<open>
  \<^verbatim>\<open>memcpy\<close> of four bytes into a \<^verbatim>\<open>uint32_t\<close> on a little-endian host, and \<^verbatim>\<open>ntohl\<close>/\<^verbatim>\<open>htonl\<close>,
  which reverse the bytes there. Fewer than four bytes cannot occur: the callers pass a slice of a
  buffer they have just filled.
\<close>

fun load_u32 :: "bytes \<Rightarrow> u32" where
  "load_u32 (b0 # b1 # b2 # b3 # _) =
     ucast b0 OR push_bit 8 (ucast b1) OR push_bit 16 (ucast b2) OR push_bit 24 (ucast b3)"
| "load_u32 _ = 0"

definition store_u32 :: "u32 \<Rightarrow> bytes" where
  "store_u32 v = [ucast v, ucast (drop_bit 8 v), ucast (drop_bit 16 v), ucast (drop_bit 24 v)]"

definition ntohl :: "u32 \<Rightarrow> u32" where
  "ntohl v = load_u32 (rev (store_u32 v))"

definition htonl :: "u32 \<Rightarrow> u32" where
  "htonl v = ntohl v"

subsection \<open>Steps that return\<close>

text \<open>A fallible step returns when it has a result; a sequence returns when each of its steps does.\<close>

definition returns :: "'a option \<Rightarrow> bool" where
  "returns x \<longleftrightarrow> x \<noteq> None"

subsection \<open>Printing numbers\<close>

definition digit_char :: "nat \<Rightarrow> char" where
  "digit_char d = (if d < 10 then char_of (48 + d) else char_of (87 + d))"

text \<open>Digits of a number in a base, most significant first.\<close>

function digits_in :: "nat \<Rightarrow> nat \<Rightarrow> string" where
  "digits_in b n =
     (if b < 2 \<or> n < b then [digit_char n] else digits_in b (n div b) @ [digit_char (n mod b)])"
  by pat_completeness auto
termination
  by (relation "measure snd") auto

declare digits_in.simps [simp del]

definition dec_of_nat :: "nat \<Rightarrow> string" where
  "dec_of_nat n = digits_in 10 n"

definition dec_of_int :: "int \<Rightarrow> string" where
  "dec_of_int i = (if i < 0 then ''-'' @ dec_of_nat (nat (- i)) else dec_of_nat (nat i))"

text \<open>\<^verbatim>\<open>std::hex << std::setfill('0') << std::setw(w)\<close>.\<close>

definition pad_left :: "nat \<Rightarrow> char \<Rightarrow> string \<Rightarrow> string" where
  "pad_left w c s = replicate (w - length s) c @ s"

definition hex_setw :: "nat \<Rightarrow> nat \<Rightarrow> string" where
  "hex_setw w n = pad_left w CHR ''0'' (digits_in 16 n)"

subsection \<open>Strings and the environment\<close>

text \<open>\<^verbatim>\<open>getenv\<close>, the character classes of the C locale, \<^verbatim>\<open>find\<close> and \<^verbatim>\<open>rfind\<close>.\<close>

type_synonym environment = "string \<Rightarrow> string option"

definition isspace :: "char \<Rightarrow> bool" where
  "isspace c \<longleftrightarrow> of_char c = (32 :: nat) \<or> (9 \<le> (of_char c :: nat) \<and> of_char c \<le> (13 :: nat))"

definition isdigit :: "char \<Rightarrow> bool" where
  "isdigit c \<longleftrightarrow> 48 \<le> (of_char c :: nat) \<and> of_char c \<le> (57 :: nat)"

text \<open>The optional sign: whether it is a minus, and what follows.\<close>

fun strip_sign :: "string \<Rightarrow> bool \<times> string" where
  "strip_sign [] = (False, [])"
| "strip_sign (c # cs) =
     (if c = CHR ''-'' then (True, cs) else if c = CHR ''+'' then (False, cs) else (False, c # cs))"

fun str_find :: "string \<Rightarrow> string \<Rightarrow> nat option" where
  "str_find p [] = (if p = [] then Some 0 else None)"
| "str_find p (c # cs) =
     (if take (length p) (c # cs) = p then Some 0 else map_option Suc (str_find p cs))"

fun str_rfind :: "char \<Rightarrow> string \<Rightarrow> nat option" where
  "str_rfind p [] = None"
| "str_rfind p (c # cs) =
     (case str_rfind p cs of Some i \<Rightarrow> Some (Suc i) | None \<Rightarrow> (if c = p then Some 0 else None))"

text \<open>A text between double quotes, and the dash of some messages in UTF-8.\<close>

definition quote :: "string \<Rightarrow> string" where
  "quote s = [CHR 0x22] @ s @ [CHR 0x22]"

definition EM_DASH :: string where "EM_DASH = [CHR 0xE2, CHR 0x80, CHR 0x94]"

subsection \<open>Lemmas on steps that return\<close>

lemma returns_Some [simp, intro]: "returns (Some x)"
  by (simp add: returns_def)

lemma returnsI: "x = Some y \<Longrightarrow> returns x"
  by (simp add: returns_def)

lemma returnsE: "returns x \<Longrightarrow> (\<And>y. x = Some y \<Longrightarrow> P) \<Longrightarrow> P"
  by (cases x) (auto simp: returns_def)

lemma returns_bind:
  "returns x \<Longrightarrow> (\<And>y. x = Some y \<Longrightarrow> returns (f y)) \<Longrightarrow> returns (x \<bind> f)"
  by (cases x) (auto simp: returns_def)

subsection \<open>Lemmas on characters and bytes\<close>

lemma char_of_byte_inverse [simp]: "char_of_byte (byte_of_char c) = c"
proof -
  have "of_char c < (256 :: nat)" by simp
  then have "unat (word_of_nat (of_char c) :: byte) = of_char c"
    by (simp add: unat_of_nat take_bit_nat_eq_self)
  then show ?thesis by (simp add: char_of_byte_def byte_of_char_def)
qed

lemma byte_of_char_inverse [simp]: "byte_of_char (char_of_byte b) = b"
proof -
  have "unat b < 256" using unsigned_less [of b] by simp
  then have "of_char (char_of (unat b)) = unat b"
    by (simp add: of_char_of)
  then show ?thesis by (simp add: char_of_byte_def byte_of_char_def)
qed

lemma string_of_bytes_inverse [simp]: "string_of_bytes (bytes_of_string s) = s"
  by (induction s) (simp_all add: string_of_bytes_def bytes_of_string_def)

lemma bytes_of_string_inverse [simp]: "bytes_of_string (string_of_bytes bs) = bs"
  by (induction bs) (simp_all add: string_of_bytes_def bytes_of_string_def)

lemma length_bytes_of_string [simp]: "length (bytes_of_string s) = length s"
  by (simp add: bytes_of_string_def)

lemma length_string_of_bytes [simp]: "length (string_of_bytes bs) = length bs"
  by (simp add: string_of_bytes_def)

lemma bytes_of_string_inject [simp]: "bytes_of_string s = bytes_of_string t \<longleftrightarrow> s = t"
  by (metis string_of_bytes_inverse)

subsection \<open>Lemmas on searching\<close>

lemma str_find_iff: "str_find p s \<noteq> None \<longleftrightarrow> (\<exists>u v. s = u @ p @ v)"
proof (induction s)
  case Nil
  show ?case by simp
next
  case (Cons c cs)
  show ?case
  proof (cases "take (length p) (c # cs) = p")
    case True
    then have "c # cs = [] @ p @ drop (length p) (c # cs)" by (metis append_Nil append_take_drop_id)
    then show ?thesis using True by (auto simp del: append_Nil)
  next
    case False
    have "(\<exists>u v. c # cs = u @ p @ v) \<longleftrightarrow> (\<exists>u v. cs = u @ p @ v)"
    proof
      assume "\<exists>u v. c # cs = u @ p @ v"
      then obtain u v where uv: "c # cs = u @ p @ v" by blast
      then have "u \<noteq> []" using False by (auto simp del: take_Cons)
      then show "\<exists>u v. cs = u @ p @ v" using uv by (cases u) auto
    qed (metis append_Cons)
    then show ?thesis using False Cons.IH by simp
  qed
qed

lemma str_find_take: "str_find p (take n s) \<noteq> None \<Longrightarrow> str_find p s \<noteq> None"
  unfolding str_find_iff by (metis append.assoc append_take_drop_id)

lemma str_rfind_Some: "str_rfind c s = Some i \<Longrightarrow> i < length s \<and> s ! i = c"
  by (induction s arbitrary: i) (auto split: option.splits if_splits)

subsection \<open>Lemmas on buffers and network byte order\<close>

lemma write_at_Some:
  "off + length src \<le> length buf \<Longrightarrow>
   write_at off src buf = Some (take off buf @ src @ drop (off + length src) buf)"
  by (simp add: write_at_def)

text \<open>Filling a fresh zeroed buffer from its start: the written prefix grows, the rest stays zero.\<close>

lemma write_at_prefix:
  "write_at (length pre) src (pre @ replicate n z) =
     (if length src \<le> n then Some (pre @ src @ replicate (n - length src) z) else None)"
  by (simp add: write_at_def drop_replicate)

lemma length_store_u32 [simp]: "length (store_u32 v) = 4"
  by (simp add: store_u32_def)

lemma load_store_u32 [simp]: "load_u32 (store_u32 v @ rest) = v"
proof (rule bit_word_eqI)
  fix n
  assume "n < LENGTH(32)"
  then consider "n < 8" | "8 \<le> n \<and> n < 16" | "16 \<le> n \<and> n < 24" | "24 \<le> n \<and> n < 32"
    by fastforce
  then show "bit (load_u32 (store_u32 v @ rest)) n = bit v n"
    by cases (auto simp: store_u32_def bit_simps)
qed

lemma load_u32_four: "load_u32 (a # b # c # d # rest) = load_u32 [a, b, c, d]"
  by simp

lemma store_load_u32: "store_u32 (load_u32 [a, b, c, d]) = [a, b, c, d]"
  unfolding store_u32_def
  by (simp, intro conjI; rule bit_word_eqI) (auto simp: bit_simps dest: bit_imp_le_length)

lemma ntohl_load:
  "ntohl (load_u32 [a, b, c, d]) = load_u32 [d, c, b, a]"
  by (simp add: ntohl_def store_load_u32 del: load_u32.simps)

lemma rev_store_u32:
  "rev (store_u32 v) = [ucast (drop_bit 24 v), ucast (drop_bit 16 v), ucast (drop_bit 8 v), ucast v]"
  by (simp add: store_u32_def)

lemma ntohl_ntohl [simp]: "ntohl (ntohl v) = v"
proof -
  obtain a b c d where s: "store_u32 v = [a, b, c, d]"
    by (simp add: store_u32_def)
  have "v = load_u32 (store_u32 v @ [])" by (simp only: load_store_u32)
  then have v: "v = load_u32 [a, b, c, d]" by (simp add: s)
  then show ?thesis by (simp add: ntohl_load del: load_u32.simps)
qed

subsection \<open>Lemmas on printed numbers\<close>

text \<open>Reading the digits back.\<close>

definition digit_val :: "char \<Rightarrow> nat" where
  "digit_val c = (if of_char c < (58 :: nat) then of_char c - 48 else of_char c - 87)"

definition undigits :: "nat \<Rightarrow> string \<Rightarrow> nat" where
  "undigits b s = foldl (\<lambda>a c. a * b + digit_val c) 0 s"

definition is_digit_in :: "nat \<Rightarrow> char \<Rightarrow> bool" where
  "is_digit_in b c \<longleftrightarrow> (\<exists>d < b. c = digit_char d)"

lemma digit_val_char [simp]: "d < 16 \<Longrightarrow> digit_val (digit_char d) = d"
  by (auto simp: digit_val_def digit_char_def of_char_of)

lemma digit_char_ascii: "d < 16 \<Longrightarrow> of_char (digit_char d) < (128 :: nat)"
  by (auto simp: digit_char_def of_char_of)

lemma undigits_snoc [simp]: "undigits b (s @ [c]) = undigits b s * b + digit_val c"
  by (simp add: undigits_def)

lemma undigits_digits: "2 \<le> b \<Longrightarrow> b \<le> 16 \<Longrightarrow> undigits b (digits_in b n) = n"
proof (induction b n rule: digits_in.induct)
  case (1 b n)
  show ?case
  proof (cases "n < b")
    case True
    then show ?thesis
      using "1.prems" by (simp add: digits_in.simps [of b n] undigits_def)
  next
    case False
    have "n mod b < 16" using "1.prems" mod_less_divisor [of b n] by linarith
    then show ?thesis
      using "1.IH" "1.prems" False by (simp add: digits_in.simps [of b n])
  qed
qed

lemma undigits_replicate: "foldl (\<lambda>a c. a * b + digit_val c) 0 (replicate k CHR ''0'') = 0"
  by (induction k) (simp_all add: digit_val_def)

lemma undigits_pad [simp]: "undigits b (pad_left w CHR ''0'' s) = undigits b s"
  by (simp add: undigits_def pad_left_def undigits_replicate)

lemma length_digits: "2 \<le> b \<Longrightarrow> 0 < k \<Longrightarrow> n < b ^ k \<Longrightarrow> length (digits_in b n) \<le> k"
proof (induction k arbitrary: n)
  case (Suc k)
  show ?case
  proof (cases "n < b")
    case True
    then show ?thesis by (simp add: digits_in.simps [of b n])
  next
    case False
    then have k: "0 < k" using Suc.prems by (cases k) auto
    have "n div b < b ^ k"
      using Suc.prems by (simp add: less_mult_imp_div_less mult.commute)
    then show ?thesis
      using Suc.IH [OF Suc.prems(1) k] False Suc.prems by (simp add: digits_in.simps [of b n])
  qed
qed simp

lemma set_digits: "2 \<le> b \<Longrightarrow> c \<in> set (digits_in b n) \<Longrightarrow> is_digit_in b c"
proof (induction b n rule: digits_in.induct)
  case (1 b n)
  show ?case
  proof (cases "n < b")
    case True
    then show ?thesis
      using "1.prems" by (auto simp: digits_in.simps [of b n] is_digit_in_def)
  next
    case False
    have "n mod b < b" using "1.prems" by simp
    then have "is_digit_in b (digit_char (n mod b))" unfolding is_digit_in_def by blast
    then show ?thesis
      using "1.IH" "1.prems" False by (auto simp: digits_in.simps [of b n])
  qed
qed

lemma length_hex_setw: "0 < w \<Longrightarrow> n < 16 ^ w \<Longrightarrow> length (hex_setw w n) = w"
  using length_digits [of 16 w n] by (simp add: hex_setw_def pad_left_def)

lemma hex_setw_inject: "hex_setw w m = hex_setw w n \<Longrightarrow> m = n"
proof -
  assume "hex_setw w m = hex_setw w n"
  then have "undigits 16 (hex_setw w m) = undigits 16 (hex_setw w n)" by simp
  then show "m = n" by (simp add: hex_setw_def undigits_digits)
qed

lemma zero_digit: "2 \<le> b \<Longrightarrow> is_digit_in b CHR ''0''"
proof -
  assume b: "2 \<le> b"
  have "CHR ''0'' = digit_char 0" by code_simp
  with b show ?thesis unfolding is_digit_in_def by (intro exI [of _ 0]) simp
qed

lemma set_hex_setw: "c \<in> set (hex_setw w n) \<Longrightarrow> is_digit_in 16 c"
  using set_digits [of 16] zero_digit [of 16] by (auto simp: hex_setw_def pad_left_def)

lemma is_digit_ascii: "b \<le> 16 \<Longrightarrow> is_digit_in b c \<Longrightarrow> of_char c < (128 :: nat)"
  by (auto simp: is_digit_in_def intro: digit_char_ascii)

end
