(* ===== verification/Host.thy ===== *)
theory Host
  imports Prelude
begin

text \<open>
  What the process reads from its surroundings: the clocks and the random number generator, as
  sequences of readings with the number of readings made so far, and the formatting of UTC times
  (\<^verbatim>\<open>system_clock::to_time_t\<close>, \<^verbatim>\<open>gmtime_r\<close>, \<^verbatim>\<open>strftime\<close>/\<^verbatim>\<open>put_time\<close> with the format
  \<^verbatim>\<open>%Y-%m-%dT%H:%M:%SZ\<close>) that three components of the server share.

  The record is the base of the records of the components above it: each component extends it with its own fields and its
  operations work on every extension.
\<close>

record host =
  h_system :: "nat \<Rightarrow> int"
  h_steady :: "nat \<Rightarrow> int"
  h_reads :: nat
  h_rng :: "nat \<Rightarrow> u64"
  h_draws :: nat

definition system_now :: "'a host_scheme \<Rightarrow> int \<times> 'a host_scheme" where
  "system_now w = (h_system w (h_reads w), w\<lparr>h_reads := Suc (h_reads w)\<rparr>)"

definition steady_now :: "'a host_scheme \<Rightarrow> int \<times> 'a host_scheme" where
  "steady_now w = (h_steady w (h_reads w), w\<lparr>h_reads := Suc (h_reads w)\<rparr>)"

definition random_u64 :: "'a host_scheme \<Rightarrow> u64 \<times> 'a host_scheme" where
  "random_u64 w = (h_rng w (h_draws w), w\<lparr>h_draws := Suc (h_draws w)\<rparr>)"

text \<open>\<^verbatim>\<open>duration_cast\<close> truncates towards zero.\<close>

definition trunc_div :: "int \<Rightarrow> int \<Rightarrow> int" where
  "trunc_div a b = (if 0 \<le> a then a div b else - ((- a) div b))"

definition duration_ms :: "int \<Rightarrow> int" where
  "duration_ms ns = trunc_div ns 1000000"

subsection \<open>UTC calendar\<close>

definition to_time_t :: "int \<Rightarrow> int" where
  "to_time_t ns = trunc_div ns 1000000000"

definition leap_year :: "int \<Rightarrow> bool" where
  "leap_year y \<longleftrightarrow> 4 dvd y \<and> (\<not> 100 dvd y \<or> 400 dvd y)"

definition year_days :: "int \<Rightarrow> int" where
  "year_days y = (if leap_year y then 366 else 365)"

definition month_lengths :: "int \<Rightarrow> int list" where
  "month_lengths y = [31, if leap_year y then 29 else 28, 31, 30, 31, 30, 31, 31, 30, 31, 30, 31]"

text \<open>The year a day falls in, and its index there, from an index relative to the start of year \<open>y\<close>.\<close>

function gm_year :: "int \<Rightarrow> int \<Rightarrow> int \<times> int" where
  "gm_year y d =
     (if d < 0 then gm_year (y - 1) (d + year_days (y - 1))
      else if d < year_days y then (y, d)
      else gm_year (y + 1) (d - year_days y))"
  by pat_completeness auto
termination
  by (relation "measure (\<lambda>(y, d). if d < 0 then nat (- d) + 400 else nat d)")
     (auto simp: year_days_def split: if_splits)

declare gm_year.simps [simp del]

fun gm_month :: "int list \<Rightarrow> int \<Rightarrow> int \<times> int" where
  "gm_month [] d = (0, d)"
| "gm_month (m # ms) d = (if d < m then (0, d) else (let (i, d') = gm_month ms (d - m) in (i + 1, d')))"

record tm =
  tm_year :: int
  tm_mon :: int
  tm_mday :: int
  tm_hour :: int
  tm_min :: int
  tm_sec :: int

definition gmtime :: "int \<Rightarrow> tm" where
  "gmtime t =
     (let (y, yd) = gm_year 1970 (t div 86400);
          (m, md) = gm_month (month_lengths y) yd;
          s = t mod 86400
      in \<lparr>tm_year = y, tm_mon = m + 1, tm_mday = md + 1,
          tm_hour = s div 3600, tm_min = s mod 3600 div 60, tm_sec = s mod 60\<rparr>)"

definition two_digits :: "int \<Rightarrow> string" where
  "two_digits i = pad_left 2 CHR ''0'' (dec_of_int i)"

definition format_utc :: "tm \<Rightarrow> string" where
  "format_utc t =
     dec_of_int (tm_year t) @ ''-'' @ two_digits (tm_mon t) @ ''-'' @ two_digits (tm_mday t) @ ''T''
       @ two_digits (tm_hour t) @ '':'' @ two_digits (tm_min t) @ '':'' @ two_digits (tm_sec t) @ ''Z''"

definition iso8601 :: "int \<Rightarrow> string" where
  "iso8601 ns = format_utc (gmtime (to_time_t ns))"

text \<open>The proleptic Gregorian day count, independently: the day number of a date.\<close>

definition leaps_before :: "int \<Rightarrow> int" where
  "leaps_before y = (y - 1) div 4 - (y - 1) div 100 + (y - 1) div 400"

definition year_start :: "int \<Rightarrow> int" where
  "year_start y = 365 * (y - 1970) + leaps_before y - leaps_before 1970"

definition month_start :: "int \<Rightarrow> int \<Rightarrow> int" where
  "month_start y m = sum_list (take (nat (m - 1)) (month_lengths y))"

definition day_number :: "tm \<Rightarrow> int" where
  "day_number t = year_start (tm_year t) + month_start (tm_year t) (tm_mon t) + (tm_mday t - 1)"

subsection \<open>Lemmas on the calendar\<close>

lemma div_pred:
  fixes y k :: int
  assumes "1 < k"
  shows "y div k = (y - 1) div k + (if k dvd y then 1 else 0)"
proof (cases "k dvd y")
  case True
  then obtain q where "y = q * k" by (metis dvd_def mult.commute)
  moreover have "(q * k - 1) div k = q - 1" using assms by (intro int_div_pos_eq [where r = "k - 1"]) (auto simp: algebra_simps)
  ultimately show ?thesis using assms by simp
next
  case False
  then have "0 < y mod k" using assms by (metis dvd_eq_mod_eq_0 le_less pos_mod_sign zero_less_one less_trans)
  moreover have "y mod k < k" using assms by simp
  moreover have "y - 1 = k * (y div k) + (y mod k - 1)" using mult_div_mod_eq [of k y] by linarith
  ultimately have "(y - 1) div k = y div k" by (intro int_div_pos_eq [where r = "y mod k - 1"]) auto
  then show ?thesis using False by simp
qed

lemma leap_count:
  fixes a b c a' b' c' :: int
  assumes "a' = a + (if p then 1 else 0)" "b' = b + (if q then 1 else 0)" "c' = c + (if r then 1 else 0)"
    "r \<Longrightarrow> q" "q \<Longrightarrow> p"
  shows "a' - b' + c' = a - b + c + (if p \<and> (\<not> q \<or> r) then 1 else 0)"
  using assms by (cases p; cases q; cases r) simp_all

lemma leaps_before_Suc: "leaps_before (y + 1) = leaps_before y + (if leap_year y then 1 else 0)"
  unfolding leaps_before_def leap_year_def add_diff_cancel_right'
proof (rule leap_count)
  show "y div 4 = (y - 1) div 4 + (if 4 dvd y then 1 else 0)" by (rule div_pred) simp
  show "y div 100 = (y - 1) div 100 + (if 100 dvd y then 1 else 0)" by (rule div_pred) simp
  show "y div 400 = (y - 1) div 400 + (if 400 dvd y then 1 else 0)" by (rule div_pred) simp
  show "400 dvd y \<Longrightarrow> 100 dvd y" by (rule dvd_trans [of 100 400]) simp_all
  show "100 dvd y \<Longrightarrow> 4 dvd y" by (rule dvd_trans [of 4 100]) simp_all
qed

lemma year_start_Suc: "year_start (y + 1) = year_start y + year_days y"
  by (simp add: year_start_def leaps_before_Suc year_days_def)

lemma gm_year_correct:
  "gm_year y d = (y', d') \<Longrightarrow> year_start y' + d' = year_start y + d \<and> 0 \<le> d' \<and> d' < year_days y'"
proof (induction y d arbitrary: y' d' rule: gm_year.induct)
  case (1 y d)
  have "year_start y = year_start (y - 1) + year_days (y - 1)" using year_start_Suc [of "y - 1"] by simp
  then show ?case
    using "1.IH" "1.prems" year_start_Suc [of y]
    by (subst (asm) gm_year.simps) (fastforce split: if_splits)
qed

lemma gm_month_correct:
  "gm_month ms d = (i, d') \<Longrightarrow> 0 \<le> d \<Longrightarrow> d < sum_list ms \<Longrightarrow>
   0 \<le> i \<and> nat i < length ms \<and> sum_list (take (nat i) ms) + d' = d \<and> 0 \<le> d' \<and> d' < ms ! nat i"
proof (induction ms arbitrary: d i d')
  case (Cons m ms)
  show ?case
  proof (cases "d < m")
    case True
    then show ?thesis using Cons.prems by auto
  next
    case False
    then obtain j where j: "gm_month ms (d - m) = (j, d')" "i = j + 1"
      using Cons.prems by (auto simp: Let_def split: prod.splits)
    have "0 \<le> j \<and> nat j < length ms \<and> sum_list (take (nat j) ms) + d' = d - m \<and> 0 \<le> d' \<and> d' < ms ! nat j"
      using Cons.IH [OF j(1)] Cons.prems False by simp
    moreover from this have "nat i = Suc (nat j)" using j by (simp add: nat_add_distrib)
    ultimately show ?thesis using j by auto
  qed
qed simp

lemma sum_month_lengths: "sum_list (month_lengths y) = year_days y"
  by (simp add: month_lengths_def year_days_def)

lemma gmtime_fields:
  fixes t :: int
  defines "x \<equiv> gmtime t"
  shows "day_number x = t div 86400" "1 \<le> tm_mon x \<and> tm_mon x \<le> 12" "1 \<le> tm_mday x \<and> tm_mday x \<le> 31"
    "3600 * tm_hour x + 60 * tm_min x + tm_sec x = t mod 86400"
    "0 \<le> tm_hour x \<and> tm_hour x < 24 \<and> 0 \<le> tm_min x \<and> tm_min x < 60 \<and> 0 \<le> tm_sec x \<and> tm_sec x < 60"
proof -
  obtain y yd where y: "gm_year 1970 (t div 86400) = (y, yd)" by fastforce
  obtain m md where m: "gm_month (month_lengths y) yd = (m, md)" by fastforce
  have yc: "year_start y + yd = t div 86400" "0 \<le> yd" "yd < year_days y"
    using gm_year_correct [OF y] by (auto simp: year_start_def)
  then have mc: "0 \<le> m" "nat m < 12" "sum_list (take (nat m) (month_lengths y)) + md = yd" "0 \<le> md"
      "md < month_lengths y ! nat m"
    using gm_month_correct [OF m] by (auto simp: sum_month_lengths) (auto simp: month_lengths_def)
  have x: "tm_year x = y" "tm_mon x = m + 1" "tm_mday x = md + 1"
      "tm_hour x = t mod 86400 div 3600" "tm_min x = t mod 86400 mod 3600 div 60" "tm_sec x = t mod 86400 mod 60"
    by (simp_all add: x_def gmtime_def y m Let_def)
  show "day_number x = t div 86400"
    using yc mc by (simp add: day_number_def month_start_def x)
  have "month_lengths y ! nat m \<in> set (month_lengths y)"
    using mc(2) by (intro nth_mem) (simp add: month_lengths_def)
  then have "month_lengths y ! nat m \<le> 31" by (auto simp: month_lengths_def split: if_splits)
  then show "1 \<le> tm_mday x \<and> tm_mday x \<le> 31" using mc by (simp add: x)
  show "1 \<le> tm_mon x \<and> tm_mon x \<le> 12" using mc by (simp add: x)
  define s where "s = t mod 86400"
  have s: "0 \<le> s" "s < 86400" by (simp_all add: s_def)
  have min: "s mod 60 = s mod 3600 mod 60" by (simp add: mod_mod_cancel)
  have "60 * (s mod 3600 div 60) + s mod 60 = s mod 3600" by (simp only: min mult_div_mod_eq)
  then have "3600 * (s div 3600) + 60 * (s mod 3600 div 60) + s mod 60 = s"
    using mult_div_mod_eq [of 3600 s] by linarith
  then show "3600 * tm_hour x + 60 * tm_min x + tm_sec x = t mod 86400" by (simp add: x s_def)
  have "0 \<le> s mod 3600" "s mod 3600 < 3600" by simp_all
  then have "0 \<le> s mod 3600 div 60" "s mod 3600 div 60 < 60" by linarith+
  moreover have "0 \<le> s div 3600" "s div 3600 < 24" using s by linarith+
  ultimately show "0 \<le> tm_hour x \<and> tm_hour x < 24 \<and> 0 \<le> tm_min x \<and> tm_min x < 60 \<and> 0 \<le> tm_sec x \<and> tm_sec x < 60"
    by (simp add: x s_def)
qed

lemma gmtime_denotes:
  "86400 * day_number (gmtime t) + (3600 * tm_hour (gmtime t) + 60 * tm_min (gmtime t) + tm_sec (gmtime t)) = t"
  unfolding gmtime_fields(1,4) [of t] by simp

text \<open>From the epoch to the end of the year 9999 a year has four digits.\<close>

lemma year_start_mono: "y \<le> z \<Longrightarrow> year_start y \<le> year_start z"
proof (induction z rule: int_ge_induct)
  case (step z)
  then show ?case using year_start_Suc [of z] by (simp add: year_days_def split: if_splits)
qed simp

lemma gmtime_year:
  assumes "0 \<le> t" "t < 253402300800"
  shows "1970 \<le> tm_year (gmtime t) \<and> tm_year (gmtime t) < 10000"
proof -
  obtain y yd where y: "gm_year 1970 (t div 86400) = (y, yd)" by fastforce
  have e: "tm_year (gmtime t) = y" by (simp add: gmtime_def y split_beta Let_def)
  have s: "year_start 1970 = 0" "year_start 10000 = 2932897" by (simp_all add: year_start_def leaps_before_def)
  have yc: "year_start y + yd = t div 86400" "0 \<le> yd" "yd < year_days y" using gm_year_correct [OF y] s by auto
  have d: "0 \<le> t div 86400" "t div 86400 < 2932897" using assms by linarith+
  have "1970 \<le> y"
  proof (rule ccontr)
    assume "\<not> 1970 \<le> y"
    then have "year_start (y + 1) \<le> 0" using year_start_mono [of "y + 1" 1970] s by simp
    then show False using year_start_Suc [of y] yc d by linarith
  qed
  moreover have "y < 10000" using year_start_mono [of 10000 y] s yc d by force
  ultimately show ?thesis by (simp add: e)
qed

subsection \<open>Reading timestamps\<close>

text \<open>
  What a timestamp means to its reader, independently of how it is printed: digits and separators at fixed positions, and
  the number of seconds since the epoch that the date and the time of day denote.
\<close>

definition read_number :: "string \<Rightarrow> int" where
  "read_number ds = foldl (\<lambda>v c. 10 * v + (int (of_char c) - 48)) 0 ds"

definition read_utc :: "string \<Rightarrow> int option" where
  "read_utc s =
     (let part = (\<lambda>i n. take n (drop i s));
          y = read_number (part 0 4); m = read_number (part 5 2); d = read_number (part 8 2);
          hh = read_number (part 11 2); mm = read_number (part 14 2); ss = read_number (part 17 2)
      in if length s = 20
           \<and> set (part 0 4 @ part 5 2 @ part 8 2 @ part 11 2 @ part 14 2 @ part 17 2) \<subseteq> set ''0123456789''
           \<and> part 4 1 = ''-'' \<and> part 7 1 = ''-'' \<and> part 10 1 = ''T'' \<and> part 13 1 = '':'' \<and> part 16 1 = '':'' \<and> part 19 1 = ''Z''
         then Some (86400 * (year_start y + month_start y m + (d - 1)) + 3600 * hh + 60 * mm + ss)
         else None)"

lemma read_utc_parts:
  assumes "length y = 4" "length m = 2" "length d = 2" "length hh = 2" "length mm = 2" "length ss = 2"
    and "set y \<union> set m \<union> set d \<union> set hh \<union> set mm \<union> set ss \<subseteq> set ''0123456789''"
  shows "read_utc (y @ ''-'' @ m @ ''-'' @ d @ ''T'' @ hh @ '':'' @ mm @ '':'' @ ss @ ''Z'') =
    Some (86400 * (year_start (read_number y) + month_start (read_number y) (read_number m) + (read_number d - 1))
      + 3600 * read_number hh + 60 * read_number mm + read_number ss)"
proof -
  let ?s = "y @ ''-'' @ m @ ''-'' @ d @ ''T'' @ hh @ '':'' @ mm @ '':'' @ ss @ ''Z''"
  have p: "take 4 (drop 0 ?s) = y" "take 1 (drop 4 ?s) = ''-''" "take 2 (drop 5 ?s) = m" "take 1 (drop 7 ?s) = ''-''"
    "take 2 (drop 8 ?s) = d" "take 1 (drop 10 ?s) = ''T''" "take 2 (drop 11 ?s) = hh" "take 1 (drop 13 ?s) = '':''"
    "take 2 (drop 14 ?s) = mm" "take 1 (drop 16 ?s) = '':''" "take 2 (drop 17 ?s) = ss" "take 1 (drop 19 ?s) = ''Z''"
    using assms(1-6) by simp_all
  have "length ?s = 20" using assms(1-6) by simp
  then show ?thesis unfolding read_utc_def Let_def p using assms(7) by simp
qed

lemma decimal_digit_set: "is_digit_in 10 c \<Longrightarrow> c \<in> set ''0123456789''"
proof -
  have "list_all (\<lambda>d. digit_char d \<in> set ''0123456789'') [0..<10]" by code_simp
  then show "is_digit_in 10 c \<Longrightarrow> c \<in> set ''0123456789''" unfolding is_digit_in_def list_all_iff by fastforce
qed

lemma read_number_undigits: "set ds \<subseteq> set ''0123456789'' \<Longrightarrow> read_number ds = int (undigits 10 ds)"
  by (induction ds rule: rev_induct) (auto simp: read_number_def undigits_def digit_val_def)

lemma read_dec:
  assumes "0 \<le> i"
  shows "set (dec_of_int i) \<subseteq> set ''0123456789''" "read_number (dec_of_int i) = i"
    "set (two_digits i) \<subseteq> set ''0123456789''" "read_number (two_digits i) = i"
proof -
  have e: "dec_of_int i = digits_in 10 (nat i)" using assms by (simp add: dec_of_int_def dec_of_nat_def)
  show s: "set (dec_of_int i) \<subseteq> set ''0123456789''" unfolding e using set_digits [of 10 _ "nat i"] decimal_digit_set by (auto simp del: list.set)
  then show s2: "set (two_digits i) \<subseteq> set ''0123456789''" by (auto simp: two_digits_def pad_left_def)
  show "read_number (dec_of_int i) = i" "read_number (two_digits i) = i"
    unfolding read_number_undigits [OF s] read_number_undigits [OF s2] using assms
    by (simp_all add: two_digits_def e undigits_digits)
qed

lemma length_two_digits: "0 \<le> i \<Longrightarrow> i < 100 \<Longrightarrow> length (two_digits i) = 2"
  using length_digits [of 10 2 "nat i"] by (simp add: two_digits_def pad_left_def dec_of_int_def dec_of_nat_def)

lemma length_year: "1000 \<le> i \<Longrightarrow> i < 10000 \<Longrightarrow> length (dec_of_int i) = 4"
proof -
  assume "1000 \<le> i" "i < 10000"
  then have n: "1000 \<le> nat i" "nat i < 10000" by auto
  then have "\<not> nat i < 10" "\<not> nat i div 10 < 10" "\<not> nat i div 10 div 10 < 10" "nat i div 10 div 10 div 10 < 10" by linarith+
  then have "length (digits_in 10 (nat i)) = 4"
    by (simp add: digits_in.simps [of 10 "nat i"] digits_in.simps [of 10 "nat i div 10"]
        digits_in.simps [of 10 "nat i div 10 div 10"] digits_in.simps [of 10 "nat i div 10 div 10 div 10"])
  then show ?thesis using \<open>1000 \<le> i\<close> by (simp add: dec_of_int_def dec_of_nat_def)
qed

lemma read_iso8601:
  assumes "0 \<le> t" "t < 253402300800 * 10 ^ 9"
  shows "read_utc (iso8601 t) = Some (t div 10 ^ 9)"
proof -
  define u where "u = t div 10 ^ 9"
  have u: "0 \<le> u" "u < 253402300800" "to_time_t t = u" using assms by (simp_all add: u_def to_time_t_def trunc_div_def)
  let ?x = "gmtime u"
  have y: "1970 \<le> tm_year ?x" "tm_year ?x < 10000" using gmtime_year [OF u(1,2)] by simp_all
  note f = gmtime_fields(2,3,5) [of u]
  have "read_utc (iso8601 t) = Some (86400 * (year_start (tm_year ?x) + month_start (tm_year ?x) (tm_mon ?x) + (tm_mday ?x - 1))
      + 3600 * tm_hour ?x + 60 * tm_min ?x + tm_sec ?x)"
    unfolding iso8601_def format_utc_def u(3)
    by (subst read_utc_parts) (use y f read_dec length_two_digits length_year in \<open>simp_all del: list.set\<close>)
  then show ?thesis using gmtime_denotes [of u] by (simp add: day_number_def u_def algebra_simps)
qed

end
