(* ===== verification/Json.thy ===== *)
theory Json
  imports Prelude "HOL-Library.AList"
begin

text \<open>
  The part of \<^verbatim>\<open>nlohmann::json\<close> that the sources use. The library itself is not part of the
  repository: its parser and its serialiser are fields of a \<open>json_lib\<close>, which every
  definition that calls them takes as an argument. \<open>parse\<close> returns \<^term>\<open>None\<close> where the
  library throws \<^verbatim>\<open>parse_error\<close>, \<open>dump\<close> returns \<^term>\<open>None\<close> where it throws \<^verbatim>\<open>type_error.316\<close>
  (a string of the value is not UTF-8); \<open>parse_what\<close> is the text \<^verbatim>\<open>what()\<close> of the exception for an input.

  The value type has the library's documented kinds of values, with the accessors \<^verbatim>\<open>contains\<close>,
  \<^verbatim>\<open>operator[]\<close>, \<^verbatim>\<open>is_string\<close>, \<^verbatim>\<open>is_number_unsigned\<close> and \<^verbatim>\<open>get\<close>. A JSON object is an association list with
  distinct keys; only \<open>dump\<close> looks at its order.
\<close>

datatype json =
    JNull
  | JBool bool
  | JInt int
  | JUInt u64
  | JFloat u64
  | JString string
  | JArray "json list"
  | JObject "(string \<times> json) list"

record json_lib =
  parse :: "string \<Rightarrow> json option"
  dump :: "json \<Rightarrow> string option"
  parse_what :: "string \<Rightarrow> string"

fun json_get :: "string \<Rightarrow> json \<Rightarrow> json option" where
  "json_get k (JObject fs) = map_of fs k"
| "json_get k _ = None"

definition contains :: "json \<Rightarrow> string \<Rightarrow> bool" where
  "contains j k \<longleftrightarrow> json_get k j \<noteq> None"

text \<open>\<^verbatim>\<open>j[k]\<close> read after a successful \<^verbatim>\<open>contains\<close>: the value of the field, \<open>null\<close> otherwise.\<close>

definition json_at :: "json \<Rightarrow> string \<Rightarrow> json" where
  "json_at j k = (case json_get k j of Some v \<Rightarrow> v | None \<Rightarrow> JNull)"

fun is_string :: "json \<Rightarrow> bool" where
  "is_string (JString _) = True"
| "is_string _ = False"

fun is_number_unsigned :: "json \<Rightarrow> bool" where
  "is_number_unsigned (JUInt _) = True"
| "is_number_unsigned _ = False"

text \<open>\<^verbatim>\<open>get<std::string>()\<close> and \<^verbatim>\<open>get<uint64_t>()\<close>, used after the kind of the value has been checked.\<close>

fun get_string :: "json \<Rightarrow> string" where
  "get_string (JString s) = s"
| "get_string _ = []"

fun get_uint64 :: "json \<Rightarrow> u64" where
  "get_uint64 (JUInt n) = n"
| "get_uint64 _ = 0"

text \<open>\<^verbatim>\<open>j[k] = v\<close> on a value that is null or an object, and \<^verbatim>\<open>push_back\<close> on an array.\<close>

fun json_put :: "string \<Rightarrow> json \<Rightarrow> json \<Rightarrow> json" where
  "json_put k v (JObject fs) = JObject (AList.update k v fs)"
| "json_put k v _ = JObject [(k, v)]"

fun json_push :: "json \<Rightarrow> json \<Rightarrow> json" where
  "json_push v (JArray vs) = JArray (vs @ [v])"
| "json_push v _ = JArray [v]"

text \<open>A sequence of field assignments to a value that starts as null.\<close>

definition json_fields :: "(string \<times> json) list \<Rightarrow> json" where
  "json_fields fs = fold (\<lambda>(k, v) j. json_put k v j) fs JNull"

subsection \<open>UTF-8\<close>

text \<open>
  Well-formed UTF-8 byte sequences (Unicode, table 3-7), on byte values: the continuation bytes
  that the first byte of a sequence asks for, as ranges.
\<close>

definition utf8_tail :: "nat \<Rightarrow> (nat \<times> nat) list option" where
  "utf8_tail b =
     (if b < 128 then Some []
      else if b < 194 then None
      else if b < 224 then Some [(128, 191)]
      else if b = 224 then Some [(160, 191), (128, 191)]
      else if b = 237 then Some [(128, 159), (128, 191)]
      else if b < 240 then Some [(128, 191), (128, 191)]
      else if b = 240 then Some [(144, 191), (128, 191), (128, 191)]
      else if b < 244 then Some [(128, 191), (128, 191), (128, 191)]
      else if b = 244 then Some [(128, 143), (128, 191), (128, 191)]
      else None)"

text \<open>The decoder: the ranges still expected, then the rest of the input.\<close>

fun utf8_run :: "(nat \<times> nat) list \<Rightarrow> nat list \<Rightarrow> bool" where
  "utf8_run rs [] = (rs = [])"
| "utf8_run [] (b # bs) = (case utf8_tail b of None \<Rightarrow> False | Some rs \<Rightarrow> utf8_run rs bs)"
| "utf8_run ((lo, hi) # rs) (b # bs) = (lo \<le> b \<and> b \<le> hi \<and> utf8_run rs bs)"

definition utf8 :: "string \<Rightarrow> bool" where
  "utf8 s = utf8_run [] (map of_char s)"

fun json_utf8 :: "json \<Rightarrow> bool" where
  "json_utf8 (JString s) = utf8 s"
| "json_utf8 (JArray vs) = (\<forall>v \<in> set vs. json_utf8 v)"
| "json_utf8 (JObject fs) = (\<forall>f \<in> set fs. utf8 (fst f) \<and> json_utf8 (snd f))"
| "json_utf8 _ = True"

text \<open>
  Documented behaviour of the library: the parser only produces UTF-8 strings, and the serialiser
  throws exactly on values with a string that is not UTF-8.
\<close>

definition parse_law :: "json_lib \<Rightarrow> bool" where
  "parse_law J \<longleftrightarrow> (\<forall>s j. parse J s = Some j \<longrightarrow> json_utf8 j)"

definition dump_law :: "json_lib \<Rightarrow> bool" where
  "dump_law J \<longleftrightarrow> (\<forall>j. (dump J j \<noteq> None) = json_utf8 j)"

text \<open>
  An upper bound for the text of a value: the compact form escapes a byte of a string by at most
  six bytes. Documented as well: a serialised value has no white space and numbers in their
  shortest form, and an unescaped string is not longer than the text it was parsed from.
\<close>

fun json_weight :: "json \<Rightarrow> nat" where
  "json_weight JNull = 4"
| "json_weight (JBool b) = 5"
| "json_weight (JInt i) = length (dec_of_int i)"
| "json_weight (JUInt n) = 20"
| "json_weight (JFloat x) = 32"
| "json_weight (JString s) = 6 * length s + 2"
| "json_weight (JArray vs) = 2 + sum_list (map (\<lambda>v. json_weight v + 1) vs)"
| "json_weight (JObject fs) = 2 + sum_list (map (\<lambda>f. 6 * length (fst f) + 4 + json_weight (snd f)) fs)"

definition size_law :: "json_lib \<Rightarrow> bool" where
  "size_law J \<longleftrightarrow> (\<forall>j s. dump J j = Some s \<longrightarrow> length s \<le> json_weight j)
     \<and> (\<forall>s j k v. parse J s = Some j \<longrightarrow> json_get k j = Some (JString v) \<longrightarrow> length v \<le> length s)"

definition json_laws :: "json_lib \<Rightarrow> bool" where
  "json_laws J \<longleftrightarrow> parse_law J \<and> dump_law J \<and> size_law J"

subsection \<open>Lemmas on fields\<close>

lemma json_get_put [simp]:
  "json_get k (json_put k' v (JObject fs)) = (if k = k' then Some v else map_of fs k)"
  by (simp add: update_conv')

lemma json_put_object: "\<exists>fs'. json_put k v j = JObject fs'"
  by (cases j) auto

lemma fold_put_object: "\<exists>fs'. fold (\<lambda>(k, v) j. json_put k v j) fs (JObject gs) = JObject fs'"
  by (induction fs arbitrary: gs) auto

lemma json_get_fold_put:
  "json_get k (fold (\<lambda>(k, v) j. json_put k v j) fs (JObject gs)) =
     (case map_of (rev fs) k of Some v \<Rightarrow> Some v | None \<Rightarrow> map_of gs k)"
proof (induction fs arbitrary: gs)
  case Nil
  show ?case by simp
next
  case (Cons f fs)
  obtain k' v where f: "f = (k', v)" by (cases f)
  show ?case
    by (simp add: f Cons.IH map_add_def update_conv' split: option.splits)
qed

lemma json_get_fields: "json_get k (json_fields fs) = map_of (rev fs) k"
proof (cases fs)
  case Nil
  then show ?thesis by (simp add: json_fields_def)
next
  case (Cons f gs)
  obtain k' v where f: "f = (k', v)" by (cases f)
  show ?thesis
    by (simp add: Cons f json_fields_def json_get_fold_put map_add_def split: option.splits)
qed

lemma json_fields_object: "fs \<noteq> [] \<Longrightarrow> \<exists>gs. json_fields fs = JObject gs"
  by (cases fs) (auto simp: json_fields_def fold_put_object)

subsection \<open>Lemmas on UTF-8\<close>

lemma utf8_Nil [simp]: "utf8 []"
  by (simp add: utf8_def)

lemma utf8_run_append:
  "utf8_run rs bs \<Longrightarrow> utf8_run [] cs \<Longrightarrow> utf8_run rs (bs @ cs)"
  by (induction rs bs rule: utf8_run.induct) (auto split: option.splits)

lemma utf8_append: "utf8 s \<Longrightarrow> utf8 t \<Longrightarrow> utf8 (s @ t)"
  by (simp add: utf8_def utf8_run_append)

lemma utf8_ascii: "(\<forall>c \<in> set s. of_char c < (128 :: nat)) \<Longrightarrow> utf8 s"
  unfolding utf8_def by (induction s) (auto simp: utf8_tail_def)

text \<open>Every string in a value built by field assignments is one of the strings assigned.\<close>

lemma json_utf8_put:
  "json_utf8 j \<Longrightarrow> utf8 k \<Longrightarrow> json_utf8 v \<Longrightarrow> json_utf8 (json_put k v j)"
proof (cases j)
  case (JObject fs)
  assume "json_utf8 j" "utf8 k" "json_utf8 v"
  moreover have "set (AList.update k v fs) \<subseteq> insert (k, v) (set fs)"
    by (induction fs) auto
  ultimately show ?thesis unfolding JObject by fastforce
qed auto

lemma json_utf8_get: "json_utf8 j \<Longrightarrow> json_get k j = Some v \<Longrightarrow> json_utf8 v"
  by (cases j) (auto dest!: map_of_SomeD)

lemma json_utf8_fold_put:
  "json_utf8 j \<Longrightarrow> (\<forall>f \<in> set fs. utf8 (fst f) \<and> json_utf8 (snd f)) \<Longrightarrow>
   json_utf8 (fold (\<lambda>(k, v) j. json_put k v j) fs j)"
  by (induction fs arbitrary: j) (auto simp: json_utf8_put)

lemma json_utf8_fields:
  "(\<forall>f \<in> set fs. utf8 (fst f) \<and> json_utf8 (snd f)) \<Longrightarrow> json_utf8 (json_fields fs)"
  unfolding json_fields_def by (rule json_utf8_fold_put) auto

lemma json_utf8_fields_iff:
  assumes "distinct (map fst fs)"
  shows "json_utf8 (json_fields fs) \<longleftrightarrow> (\<forall>f \<in> set fs. utf8 (fst f) \<and> json_utf8 (snd f))"
proof
  assume u: "json_utf8 (json_fields fs)"
  show "\<forall>f \<in> set fs. utf8 (fst f) \<and> json_utf8 (snd f)"
  proof
    fix f
    assume f: "f \<in> set fs"
    then obtain gs where gs: "json_fields fs = JObject gs"
      using json_fields_object [of fs] by fastforce
    have "distinct (map fst (rev fs))" using assms by (metis distinct_rev rev_map)
    then have "map_of (rev fs) (fst f) = Some (snd f)"
      using f by (metis map_of_is_SomeI prod.collapse set_rev)
    then have "map_of gs (fst f) = Some (snd f)"
      using json_get_fields [of "fst f" fs] by (simp add: gs)
    then have "f \<in> set gs" by (metis map_of_SomeD prod.collapse)
    then show "utf8 (fst f) \<and> json_utf8 (snd f)" using u by (simp add: gs)
  qed
qed (rule json_utf8_fields)

subsection \<open>Lemmas on sizes\<close>

definition field_weight :: "string \<times> json \<Rightarrow> nat" where
  "field_weight f = 6 * length (fst f) + 4 + json_weight (snd f)"

lemma update_weight:
  "sum_list (map field_weight (AList.update k v fs)) \<le> sum_list (map field_weight fs) + field_weight (k, v)"
  by (induction fs) auto

lemma fold_put_weight:
  "json_weight (fold (\<lambda>(k, v) j. json_put k v j) fs (JObject gs)) \<le>
     2 + sum_list (map field_weight gs) + sum_list (map field_weight fs)"
proof (induction fs arbitrary: gs)
  case Nil
  then show ?case by (simp add: field_weight_def)
next
  case (Cons f fs)
  obtain k v where f: "f = (k, v)" by (cases f)
  have "json_weight (fold (\<lambda>(k, v) j. json_put k v j) (f # fs) (JObject gs)) \<le>
      2 + sum_list (map field_weight (AList.update k v gs)) + sum_list (map field_weight fs)"
    using Cons.IH [of "AList.update k v gs"] by (simp add: f)
  then show ?case using update_weight [of k v gs] by (simp add: f)
qed

lemma json_fields_weight: "json_weight (json_fields fs) \<le> 4 + sum_list (map field_weight fs)"
proof (cases fs)
  case Nil
  then show ?thesis by (simp add: json_fields_def)
next
  case (Cons f gs)
  obtain k v where f: "f = (k, v)" by (cases f)
  show ?thesis using fold_put_weight [of gs "[(k, v)]"] by (simp add: Cons f json_fields_def)
qed

subsection \<open>An instance of the library\<close>

text \<open>
  A library that knows one document: \<open>pl\<close> parses to \<open>j\<close>, everything else is malformed, and a value
  with UTF-8 strings is written as an empty text. It satisfies the laws, so they are consistent.
\<close>

definition sample_lib :: "string \<Rightarrow> json \<Rightarrow> json_lib" where
  "sample_lib pl j =
     \<lparr>parse = (\<lambda>s. if s = pl then Some j else None),
      dump = (\<lambda>v. if json_utf8 v then Some [] else None), parse_what = (\<lambda>_. [])\<rparr>"

lemma sample_lib_simps [simp]:
  "parse (sample_lib pl j) pl = Some j" "s \<noteq> pl \<Longrightarrow> parse (sample_lib pl j) s = None"
  "dump (sample_lib pl j) v = (if json_utf8 v then Some [] else None)"
  by (simp_all add: sample_lib_def)

lemma sample_lib_laws:
  assumes "json_utf8 j" "\<And>k v. json_get k j = Some (JString v) \<Longrightarrow> length v \<le> length pl"
  shows "json_laws (sample_lib pl j)"
  using assms by (auto simp: json_laws_def parse_law_def dump_law_def size_law_def sample_lib_def split: if_splits)

end
