(* ===== verification/Posix.thy ===== *)
theory Posix
  imports Prelude
begin

text \<open>
  The socket calls of the sources, over a script of what the kernel answers. A connected socket
  has the events its \<^verbatim>\<open>recv\<close> calls will meet (chunks of bytes, end of stream, a failure with an
  \<^verbatim>\<open>errno\<close>) and those its \<^verbatim>\<open>send\<close> calls will meet (how many bytes are taken, or a failure). A read with
  no event left times out with \<^verbatim>\<open>EAGAIN\<close>, which is what \<^verbatim>\<open>SO_RCVTIMEO\<close> does when nothing
  arrives; a send with no event left takes everything. \<open>io_errno\<close> is the \<^verbatim>\<open>errno\<close> of the thread
  that works on the socket: a failing call sets it, a successful one leaves it alone.
\<close>

datatype errno =
    E_NONE | EINTR | EAGAIN | EWOULDBLOCK | ECONNRESET | EPIPE | EADDRINUSE | EINPROGRESS | E_OTHER nat

datatype rx_event = RxData bytes | RxEof | RxErr errno
datatype tx_event = TxAccept nat | TxErr errno

record io =
  io_rx :: "rx_event list"
  io_tx :: "tx_event list"
  io_sent :: bytes
  io_errno :: errno

text \<open>What a call returns: the bytes of a non-negative return value, or -1 and \<^verbatim>\<open>errno\<close>.\<close>

datatype recv_result = RecvBytes bytes | RecvErr errno
datatype send_result = SendCount nat | SendErr errno

fun recv_event :: "nat \<Rightarrow> rx_event list \<Rightarrow> recv_result \<times> rx_event list" where
  "recv_event n [] = (RecvErr EAGAIN, [])"
| "recv_event n (RxEof # es) = (RecvBytes [], RxEof # es)"
| "recv_event n (RxErr e # es) = (RecvErr e, es)"
| "recv_event n (RxData bs # es) =
     (if length bs \<le> n then (RecvBytes bs, es)
      else (RecvBytes (take n bs), RxData (drop n bs) # es))"

definition recv :: "nat \<Rightarrow> io \<Rightarrow> recv_result \<times> io" where
  "recv n s =
     (case recv_event n (io_rx s) of
        (RecvBytes bs, es) \<Rightarrow> (RecvBytes bs, s\<lparr>io_rx := es\<rparr>)
      | (RecvErr e, es) \<Rightarrow> (RecvErr e, s\<lparr>io_rx := es, io_errno := e\<rparr>))"

fun send_event :: "nat \<Rightarrow> tx_event list \<Rightarrow> send_result \<times> tx_event list" where
  "send_event n [] = (SendCount n, [])"
| "send_event n (TxAccept k # ts) = (SendCount (min k n), ts)"
| "send_event n (TxErr e # ts) = (SendErr e, ts)"

definition send :: "bytes \<Rightarrow> io \<Rightarrow> send_result \<times> io" where
  "send bs s =
     (case send_event (length bs) (io_tx s) of
        (SendCount k, ts) \<Rightarrow> (SendCount k, s\<lparr>io_tx := ts, io_sent := io_sent s @ take k bs\<rparr>)
      | (SendErr e, ts) \<Rightarrow> (SendErr e, s\<lparr>io_tx := ts, io_errno := e\<rparr>))"

text \<open>How much is left of a script of reads: what a loop of \<^verbatim>\<open>recv\<close> calls uses up.\<close>

fun rx_size :: "rx_event list \<Rightarrow> nat" where
  "rx_size [] = 0"
| "rx_size (RxData bs # es) = Suc (length bs) + rx_size es"
| "rx_size (_ # es) = Suc (rx_size es)"

subsection \<open>The byte stream behind a script\<close>

text \<open>
  The bytes that arrive before the stream breaks off, whatever the chunks and however often a
  signal interrupts, and the event at which it breaks off.
\<close>

fun rx_bytes :: "rx_event list \<Rightarrow> bytes" where
  "rx_bytes (RxData bs # es) = (if bs = [] then [] else bs @ rx_bytes es)"
| "rx_bytes (RxErr EINTR # es) = rx_bytes es"
| "rx_bytes _ = []"

fun rx_end :: "rx_event list \<Rightarrow> rx_event" where
  "rx_end [] = RxErr EAGAIN"
| "rx_end (RxData bs # es) = (if bs = [] then RxEof else rx_end es)"
| "rx_end (RxErr EINTR # es) = rx_end es"
| "rx_end (e # es) = e"

lemma recv_event_size:
  assumes "recv_event n es = (RecvBytes bs, es')" "bs \<noteq> []" "0 < n"
  shows "rx_size es' < rx_size es"
  using assms by (cases "(n, es)" rule: recv_event.cases) (auto split: if_splits)

lemma recv_event_err_size:
  assumes "recv_event n es = (RecvErr e, es')" "e \<noteq> EAGAIN"
  shows "rx_size es' < rx_size es"
  using assms by (cases "(n, es)" rule: recv_event.cases) (auto split: if_splits)

lemma recv_event_bytes:
  assumes "recv_event n es = (RecvBytes bs, es')" "bs \<noteq> []" "0 < n"
  shows "rx_bytes es = bs @ rx_bytes es'" and "rx_end es' = rx_end es" and "length bs \<le> n"
  using assms by (cases "(n, es)" rule: recv_event.cases; auto split: if_splits)+

lemma recv_event_zero:
  assumes "recv_event n es = (RecvBytes [], es')" "0 < n"
  shows "rx_bytes es = []" and "rx_end es = RxEof"
  using assms by (cases "(n, es)" rule: recv_event.cases; auto split: if_splits)+

lemma recv_event_intr:
  assumes "recv_event n es = (RecvErr EINTR, es')"
  shows "rx_bytes es' = rx_bytes es" and "rx_end es' = rx_end es"
  using assms by (cases "(n, es)" rule: recv_event.cases; auto split: if_splits)+

lemma recv_event_err:
  assumes "recv_event n es = (RecvErr e, es')" "e \<noteq> EINTR"
  shows "rx_bytes es = []" and "rx_end es = RxErr e"
proof -
  have "rx_bytes es = [] \<and> rx_end es = RxErr e"
    using assms by (cases "(n, es)" rule: recv_event.cases; cases e) (auto split: if_splits)
  then show "rx_bytes es = []" and "rx_end es = RxErr e" by simp_all
qed

lemma send_event_size:
  assumes "send_event n ts = (r, ts')"
  shows "length ts' < length ts \<or> ts' = [] \<and> ts = [] \<and> r = SendCount n"
  using assms by (cases "(n, ts)" rule: send_event.cases) auto

lemma rx_end_not_data: "rx_end es \<noteq> RxData bs" and rx_end_not_intr: "rx_end es \<noteq> RxErr EINTR"
  by (induction es rule: rx_end.induct) auto

end
