(* ===== verification/OtelScope.thy ===== *)
theory OtelScope
  imports Host Json Posix
begin

text \<open>
  \<^verbatim>\<open>src/otelScope.cpp\<close>: trace and span identifiers, the RAII span with the stack of open
  scopes of the thread, the endpoint taken from the environment, the batch exporter with its
  OTLP/HTTP JSON payload, and the HTTP POST.

  The scope stack of the code holds pointers to live scopes and only their two identifiers are
  read through it; these never change while a scope is open, so the stack holds the pairs. The
  pending spans are shared by all threads under a mutex. \<open>ot_wakeups\<close> counts \<^verbatim>\<open>notify_one\<close>.
\<close>

definition DEFAULT_OTEL_ENDPOINT :: string where "DEFAULT_OTEL_ENDPOINT = ''localhost''"
definition DEFAULT_OTEL_PORT :: int where "DEFAULT_OTEL_PORT = 4318"
definition TRACES_PATH :: string where "TRACES_PATH = ''/v1/traces''"
definition SERVICE_NAME :: string where "SERVICE_NAME = ''eop-server''"
definition MAX_BATCH_SIZE :: nat where "MAX_BATCH_SIZE = 512"

datatype AttributeValue = StringValue string | IntValue int

record FinishedSpan =
  fs_traceId :: string
  fs_spanId :: string
  fs_parentSpanId :: string
  fs_name :: string
  fs_startTimeNano :: string
  fs_endTimeNano :: string
  fs_statusCode :: int
  fs_statusMessage :: string
  fs_attributes :: "(string \<times> AttributeValue) list"

record otel = host +
  ot_stack :: "(string \<times> string) list"
  ot_pending :: "FinishedSpan list"
  ot_wakeups :: nat

subsection \<open>Identifiers and time\<close>

fun generateHexId_loop :: "nat \<Rightarrow> nat \<Rightarrow> u64 \<Rightarrow> 'a host_scheme \<Rightarrow> string \<times> 'a host_scheme" where
  "generateHexId_loop 0 i val w = ([], w)"
| "generateHexId_loop (Suc n) i val w =
     (let (val, w) = (if i = 8 then random_u64 w else (val, w));
          b = (ucast (drop_bit ((i mod 8) * 8) val AND 0xFF) :: byte);
          (rest, w) = generateHexId_loop n (Suc i) val w
      in (hex_setw 2 (unat b) @ rest, w))"

definition generateHexId :: "nat \<Rightarrow> 'a host_scheme \<Rightarrow> string \<times> 'a host_scheme" where
  "generateHexId byteCount w = (let (val, w) = random_u64 w in generateHexId_loop byteCount 0 val w)"

definition generateTraceId :: "'a host_scheme \<Rightarrow> string \<times> 'a host_scheme" where
  "generateTraceId w = generateHexId 16 w"

definition generateSpanId :: "'a host_scheme \<Rightarrow> string \<times> 'a host_scheme" where
  "generateSpanId w = generateHexId 8 w"

definition nowNanos :: "'a host_scheme \<Rightarrow> string \<times> 'a host_scheme" where
  "nowNanos w = (let (t, w) = system_now w in (dec_of_int t, w))"

subsection \<open>Endpoint\<close>

record OtlpEndpoint =
  oe_host :: string
  oe_port :: int

text \<open>\<^verbatim>\<open>atoi\<close>; its behaviour is undefined (\<^term>\<open>None\<close>) when the value is not an \<^verbatim>\<open>int\<close>.\<close>

definition atoi :: "string \<Rightarrow> int option" where
  "atoi str =
     (let (neg, rest) = strip_sign (dropWhile isspace str);
          magnitude = int (undigits 10 (takeWhile isdigit rest));
          v = (if neg then - magnitude else magnitude)
      in if - (2 ^ 31) \<le> v \<and> v < 2 ^ 31 then Some v else None)"

definition endpoint_url :: "environment \<Rightarrow> string" where
  "endpoint_url env =
     (case env ''OTEL_EXPORTER_OTLP_TRACES_ENDPOINT'' of
        Some (c # cs) \<Rightarrow> c # cs
      | _ \<Rightarrow> (case env ''OTEL_EXPORTER_OTLP_ENDPOINT'' of Some (c # cs) \<Rightarrow> c # cs | _ \<Rightarrow> []))"

definition resolveEndpoint :: "environment \<Rightarrow> OtlpEndpoint option" where
  "resolveEndpoint env =
     (let url = endpoint_url env in
      if url = [] then Some \<lparr>oe_host = DEFAULT_OTEL_ENDPOINT, oe_port = DEFAULT_OTEL_PORT\<rparr>
      else
        let url = (case str_find ''://'' url of Some schemeEnd \<Rightarrow> drop (schemeEnd + 3) url | None \<Rightarrow> url);
            url = (case str_find ''/'' url of Some pathStart \<Rightarrow> take pathStart url | None \<Rightarrow> url)
        in case str_rfind CHR '':'' url of
             None \<Rightarrow> Some \<lparr>oe_host = url, oe_port = DEFAULT_OTEL_PORT\<rparr>
           | Some colon \<Rightarrow>
               do {
                 port \<leftarrow> atoi (drop (colon + 1) url);
                 Some \<lparr>oe_host = take colon url,
                       oe_port = (if port \<le> 0 then DEFAULT_OTEL_PORT else port)\<rparr>
               })"

subsection \<open>HTTP POST\<close>

text \<open>What the resolver, \<^verbatim>\<open>socket\<close> and \<^verbatim>\<open>connect\<close> answer; the I/O then runs over the connected socket.\<close>

datatype connect_outcome = NoAddress | NoSocket | ConnectRefused | Connected

definition CRLF :: string where "CRLF = [CHR 13, CHR 10]"

definition http_request :: "OtlpEndpoint \<Rightarrow> string \<Rightarrow> string" where
  "http_request ep body =
     ''POST '' @ TRACES_PATH @ '' HTTP/1.1'' @ CRLF
       @ ''Host: '' @ oe_host ep @ '':'' @ dec_of_int (oe_port ep) @ CRLF
       @ ''Content-Type: application/json'' @ CRLF
       @ ''Content-Length: '' @ dec_of_nat (length body) @ CRLF
       @ ''Connection: close'' @ CRLF
       @ CRLF
       @ body"

text \<open>
  This \<^verbatim>\<open>send\<close> has no \<^verbatim>\<open>MSG_NOSIGNAL\<close>, and the server never ignores SIGPIPE: where it would fail with EPIPE,
  the process ends, \<^term>\<open>None\<close>.
\<close>

function http_send_loop :: "bytes \<Rightarrow> io \<Rightarrow> (bool \<times> io) option" where
  "http_send_loop raw s =
     (if raw \<noteq> [] then
        (case send raw s of
           (SendErr e, s') \<Rightarrow> (if e = EPIPE then None else Some (False, s'))
         | (SendCount k, s') \<Rightarrow> (if k = 0 then Some (False, s') else http_send_loop (drop k raw) s'))
      else Some (True, s))"
  by pat_completeness auto
termination
  by (relation "measure (\<lambda>(raw, s). length raw)") auto

declare http_send_loop.simps [simp del]

definition http_accepted :: "bytes \<Rightarrow> bool" where
  "http_accepted buf =
     (let text = string_of_bytes (takeWhile (\<lambda>b. b \<noteq> 0) buf)
      in str_find ''200'' text \<noteq> None \<or> str_find ''202'' text \<noteq> None)"

definition httpPost :: "connect_outcome \<Rightarrow> OtlpEndpoint \<Rightarrow> string \<Rightarrow> io \<Rightarrow> (bool \<times> io) option" where
  "httpPost conn ep body s =
     (case conn of
        Connected \<Rightarrow>
          do {
            (sent, s) \<leftarrow> http_send_loop (bytes_of_string (http_request ep body)) s;
            if \<not> sent then Some (False, s)
            else (case recv 63 s of
                    (RecvBytes buf, s) \<Rightarrow> Some (http_accepted buf, s)
                  | (RecvErr e, s) \<Rightarrow> Some (http_accepted [], s))
          }
      | _ \<Rightarrow> Some (False, s))"

subsection \<open>Batch exporter\<close>

definition exporter_enqueue :: "FinishedSpan \<Rightarrow> 'a otel_scheme \<Rightarrow> 'a otel_scheme" where
  "exporter_enqueue span w =
     (let w = w\<lparr>ot_pending := ot_pending w @ [span]\<rparr> in
      if length (ot_pending w) \<ge> MAX_BATCH_SIZE then w\<lparr>ot_wakeups := Suc (ot_wakeups w)\<rparr> else w)"

fun attribute_json :: "string \<times> AttributeValue \<Rightarrow> json" where
  "attribute_json (key, StringValue s) =
     json_fields [(''key'', JString key), (''value'', json_fields [(''stringValue'', JString s)])]"
| "attribute_json (key, IntValue i) =
     json_fields [(''key'', JString key), (''value'', json_fields [(''intValue'', JString (dec_of_int i))])]"

definition span_json :: "FinishedSpan \<Rightarrow> json" where
  "span_json s = json_fields (
     [(''traceId'', JString (fs_traceId s)), (''spanId'', JString (fs_spanId s))]
     @ (if fs_parentSpanId s \<noteq> [] then [(''parentSpanId'', JString (fs_parentSpanId s))] else [])
     @ [(''name'', JString (fs_name s)), (''kind'', JInt 2),
        (''startTimeUnixNano'', JString (fs_startTimeNano s)),
        (''endTimeUnixNano'', JString (fs_endTimeNano s)),
        (''attributes'', JArray (map attribute_json (fs_attributes s))),
        (''status'', json_fields (
           [(''code'', JInt (fs_statusCode s))]
           @ (if fs_statusMessage s \<noteq> [] then [(''message'', JString (fs_statusMessage s))] else [])))])"

definition batch_json :: "FinishedSpan list \<Rightarrow> json" where
  "batch_json batch =
     json_fields [(''resourceSpans'', JArray [json_fields [
       (''resource'', json_fields [(''attributes'', JArray [json_fields [
          (''key'', JString ''service.name''),
          (''value'', json_fields [(''stringValue'', JString SERVICE_NAME)])]])]),
       (''scopeSpans'', JArray [json_fields [
          (''scope'', json_fields [(''name'', JString SERVICE_NAME)]),
          (''spans'', JArray (map span_json batch))]])]])]"

text \<open>
  \<^verbatim>\<open>flush\<close> in the flusher thread: \<^verbatim>\<open>batch.swap(m_pending)\<close> under the mutex, serialisation and the
  POST without it. \<open>None\<close>: \<^verbatim>\<open>dump\<close> throws in the flusher thread, or SIGPIPE ends the process.
\<close>

definition flush ::
  "json_lib \<Rightarrow> connect_outcome \<Rightarrow> OtlpEndpoint \<Rightarrow> 'a otel_scheme \<Rightarrow> io \<Rightarrow> ('a otel_scheme \<times> io) option" where
  "flush J conn ep w s =
     (if ot_pending w = [] then Some (w, s)
      else do {
        let batch = ot_pending w;
        let w = w\<lparr>ot_pending := []\<rparr>;
        body \<leftarrow> dump J (batch_json batch);
        (_, s) \<leftarrow> httpPost conn ep body s;
        Some (w, s)
      })"

subsection \<open>Scopes\<close>

record OtelScope =
  os_traceId :: string
  os_spanId :: string
  os_parentSpanId :: string
  os_name :: string
  os_startTimeNano :: string
  os_statusCode :: int
  os_statusMessage :: string
  os_attributes :: "(string \<times> AttributeValue) list"

definition currentTraceId :: "'a otel_scheme \<Rightarrow> string" where
  "currentTraceId w = (if ot_stack w = [] then [] else fst (last (ot_stack w)))"

definition currentSpanId :: "'a otel_scheme \<Rightarrow> string" where
  "currentSpanId w = (if ot_stack w = [] then [] else snd (last (ot_stack w)))"

definition parentTraceIdOrNew :: "'a otel_scheme \<Rightarrow> string \<times> 'a otel_scheme" where
  "parentTraceIdOrNew w = (if ot_stack w \<noteq> [] then (fst (last (ot_stack w)), w) else generateTraceId w)"

definition parentSpanId :: "'a otel_scheme \<Rightarrow> string" where
  "parentSpanId w = (if ot_stack w \<noteq> [] then snd (last (ot_stack w)) else [])"

text \<open>The two constructors of \<^verbatim>\<open>Impl\<close> differ in the name and the initial attributes.\<close>

definition scope_open ::
  "string \<Rightarrow> (string \<times> AttributeValue) list \<Rightarrow> 'a otel_scheme \<Rightarrow> OtelScope \<times> 'a otel_scheme" where
  "scope_open name attrs w =
     (let (tid, w) = parentTraceIdOrNew w;
          (sid, w) = generateSpanId w;
          parent = parentSpanId w;
          (start, w) = nowNanos w
      in (\<lparr>os_traceId = tid, os_spanId = sid, os_parentSpanId = parent, os_name = name,
           os_startTimeNano = start, os_statusCode = 0, os_statusMessage = [], os_attributes = attrs\<rparr>,
          w\<lparr>ot_stack := ot_stack w @ [(tid, sid)]\<rparr>))"

definition OtelScope_connection :: "string \<Rightarrow> string \<Rightarrow> 'a otel_scheme \<Rightarrow> OtelScope \<times> 'a otel_scheme" where
  "OtelScope_connection sessionId clientIp w =
     scope_open ''client_connection''
       [(''session.id'', StringValue sessionId), (''net.peer.ip'', StringValue clientIp)] w"

definition OtelScope_operation :: "string \<Rightarrow> 'a otel_scheme \<Rightarrow> OtelScope \<times> 'a otel_scheme" where
  "OtelScope_operation operationName w = scope_open operationName [] w"

definition recordError :: "string \<Rightarrow> OtelScope \<Rightarrow> OtelScope" where
  "recordError description sc = sc\<lparr>os_statusCode := 2, os_statusMessage := description\<rparr>"

definition setAttribute :: "string \<Rightarrow> AttributeValue \<Rightarrow> OtelScope \<Rightarrow> OtelScope" where
  "setAttribute key val sc = sc\<lparr>os_attributes := os_attributes sc @ [(key, val)]\<rparr>"

definition finish_span :: "OtelScope \<Rightarrow> string \<Rightarrow> FinishedSpan" where
  "finish_span sc endTime =
     \<lparr>fs_traceId = os_traceId sc, fs_spanId = os_spanId sc, fs_parentSpanId = os_parentSpanId sc,
      fs_name = os_name sc, fs_startTimeNano = os_startTimeNano sc, fs_endTimeNano = endTime,
      fs_statusCode = os_statusCode sc, fs_statusMessage = os_statusMessage sc,
      fs_attributes = os_attributes sc\<rparr>"

definition OtelScope_close :: "OtelScope \<Rightarrow> 'a otel_scheme \<Rightarrow> 'a otel_scheme" where
  "OtelScope_close sc w =
     (let w = (if ot_stack w \<noteq> [] then w\<lparr>ot_stack := butlast (ot_stack w)\<rparr> else w);
          (endTime, w) = nowNanos w
      in exporter_enqueue (finish_span sc endTime) w)"

subsection \<open>Lemmas on identifiers\<close>

lemma generateHexId_loop_shape:
  "generateHexId_loop n i val w = (s, w') \<Longrightarrow>
   length s = 2 * n \<and> (\<forall>c \<in> set s. is_digit_in 16 c) \<and> (\<exists>d. w' = w\<lparr>h_draws := d\<rparr>)"
proof (induction n arbitrary: i val w s w')
  case 0
  have "w = w\<lparr>h_draws := h_draws w\<rparr>" by simp
  then show ?case using 0 by (auto intro: exI [of _ "h_draws w"])
next
  case (Suc n)
  define p where "p = (if i = 8 then random_u64 w else (val, w))"
  obtain v u where vu: "p = (v, u)" by (cases p)
  obtain r w2 where r: "generateHexId_loop n (Suc i) v u = (r, w2)" by fastforce
  define b where "b = (ucast (drop_bit ((i mod 8) * 8) v AND 0xFF) :: byte)"
  have s: "s = hex_setw 2 (unat b) @ r" "w' = w2"
    using Suc.prems by (auto simp: p_def [symmetric] vu r b_def simp del: One_nat_def)
  have u: "\<exists>d. u = w\<lparr>h_draws := d\<rparr>"
  proof (cases "i = 8")
    case True
    then show ?thesis using vu by (auto simp: p_def random_u64_def)
  next
    case False
    then have "u = w\<lparr>h_draws := h_draws w\<rparr>" using vu by (simp add: p_def)
    then show ?thesis by blast
  qed
  have "unat b < 16 ^ 2" using unsigned_less [of b, where 'a = nat] by simp
  then have "length (hex_setw 2 (unat b)) = 2" by (intro length_hex_setw) auto
  then show ?case
    using Suc.IH [OF r] u s by (auto dest: set_hex_setw)
qed

lemma generateHexId_shape:
  "generateHexId n w = (s, w') \<Longrightarrow>
   length s = 2 * n \<and> (\<forall>c \<in> set s. is_digit_in 16 c) \<and> (\<exists>d. w' = w\<lparr>h_draws := d\<rparr>)"
  by (fastforce simp: generateHexId_def random_u64_def dest: generateHexId_loop_shape)

subsection \<open>Lemmas on scopes\<close>

text \<open>The shape of an identifier: \<open>n\<close> lower-case hexadecimal digits.\<close>

definition hex_id :: "nat \<Rightarrow> string \<Rightarrow> bool" where
  "hex_id n s \<longleftrightarrow> length s = n \<and> (\<forall>c \<in> set s. is_digit_in 16 c)"

lemma hex_id_utf8: "hex_id n s \<Longrightarrow> utf8 s"
  by (auto simp: hex_id_def intro!: utf8_ascii is_digit_ascii [of 16])

lemma generateTraceId_cases:
  obtains s d where "generateTraceId w = (s, w\<lparr>h_draws := d\<rparr>)" "hex_id 32 s"
  using generateHexId_shape [of 16 w] by (cases "generateTraceId w") (auto simp: generateTraceId_def hex_id_def)

lemma generateSpanId_cases:
  obtains s d where "generateSpanId w = (s, w\<lparr>h_draws := d\<rparr>)" "hex_id 16 s"
  using generateHexId_shape [of 8 w] by (cases "generateSpanId w") (auto simp: generateSpanId_def hex_id_def)

lemma parentTraceIdOrNew_cases:
  obtains s d where "parentTraceIdOrNew w = (s, w\<lparr>h_draws := d\<rparr>)"
    "if ot_stack w = [] then hex_id 32 s else s = fst (last (ot_stack w))"
proof (cases "ot_stack w = []")
  case True
  obtain s d where "generateTraceId w = (s, w\<lparr>h_draws := d\<rparr>)" "hex_id 32 s"
    by (rule generateTraceId_cases)
  then show thesis using True that by (simp add: parentTraceIdOrNew_def)
next
  case False
  have "w = w\<lparr>h_draws := h_draws w\<rparr>" by simp
  then show thesis using False that [of "fst (last (ot_stack w))" "h_draws w"]
    by (simp add: parentTraceIdOrNew_def)
qed

text \<open>Everything an open scope is and does to the state.\<close>

definition opened :: "string \<Rightarrow> (string \<times> AttributeValue) list \<Rightarrow> 'a otel_scheme \<Rightarrow> OtelScope \<Rightarrow> bool" where
  "opened name attrs w sc \<longleftrightarrow>
     (if ot_stack w = [] then hex_id 32 (os_traceId sc) else os_traceId sc = fst (last (ot_stack w)))
     \<and> hex_id 16 (os_spanId sc) \<and> os_parentSpanId sc = parentSpanId w \<and> os_name sc = name
     \<and> os_startTimeNano sc = dec_of_int (h_system w (h_reads w))
     \<and> os_statusCode sc = 0 \<and> os_statusMessage sc = [] \<and> os_attributes sc = attrs"

lemma scope_open_cases:
  obtains sc d where
    "scope_open name attrs w =
       (sc, w\<lparr>h_draws := d, h_reads := Suc (h_reads w),
              ot_stack := ot_stack w @ [(os_traceId sc, os_spanId sc)]\<rparr>)"
    "opened name attrs w sc"
proof -
  obtain t d where t: "parentTraceIdOrNew w = (t, w\<lparr>h_draws := d\<rparr>)"
    "if ot_stack w = [] then hex_id 32 t else t = fst (last (ot_stack w))"
    by (rule parentTraceIdOrNew_cases)
  obtain s d' where s: "generateSpanId (w\<lparr>h_draws := d\<rparr>) = (s, w\<lparr>h_draws := d, h_draws := d'\<rparr>)" "hex_id 16 s"
    by (rule generateSpanId_cases)
  define sc where "sc =
    \<lparr>os_traceId = t, os_spanId = s, os_parentSpanId = parentSpanId w, os_name = name,
     os_startTimeNano = dec_of_int (h_system w (h_reads w)), os_statusCode = 0,
     os_statusMessage = [], os_attributes = attrs\<rparr>"
  have "scope_open name attrs w =
      (sc, w\<lparr>h_draws := d', h_reads := Suc (h_reads w), ot_stack := ot_stack w @ [(os_traceId sc, os_spanId sc)]\<rparr>)"
    using t s by (simp add: scope_open_def sc_def nowNanos_def system_now_def parentSpanId_def)
  moreover have "opened name attrs w sc" using t s by (simp add: opened_def sc_def)
  ultimately show thesis by (rule that)
qed

lemma OtelScope_close_eq:
  "OtelScope_close sc w =
     w\<lparr>h_reads := Suc (h_reads w), ot_stack := butlast (ot_stack w),
       ot_pending := ot_pending w @ [finish_span sc (dec_of_int (h_system w (h_reads w)))],
       ot_wakeups := (if MAX_BATCH_SIZE \<le> Suc (length (ot_pending w)) then Suc (ot_wakeups w) else ot_wakeups w)\<rparr>"
  by (simp add: OtelScope_close_def exporter_enqueue_def nowNanos_def system_now_def Let_def)

subsection \<open>Lemmas on exported text\<close>

fun attribute_utf8 :: "string \<times> AttributeValue \<Rightarrow> bool" where
  "attribute_utf8 (k, StringValue s) = (utf8 k \<and> utf8 s)"
| "attribute_utf8 (k, IntValue i) = utf8 k"

definition span_utf8 :: "FinishedSpan \<Rightarrow> bool" where
  "span_utf8 s \<longleftrightarrow> utf8 (fs_traceId s) \<and> utf8 (fs_spanId s) \<and> utf8 (fs_parentSpanId s) \<and> utf8 (fs_name s)
     \<and> utf8 (fs_startTimeNano s) \<and> utf8 (fs_endTimeNano s) \<and> utf8 (fs_statusMessage s)
     \<and> (\<forall>a \<in> set (fs_attributes s). attribute_utf8 a)"

lemma utf8_dec_of_int [simp]: "utf8 (dec_of_int i)"
proof -
  have "utf8 (dec_of_nat n)" for n
    using set_digits [of 10] by (auto simp: dec_of_nat_def intro!: utf8_ascii is_digit_ascii [of 10])
  moreover have "utf8 ''-''" by (rule utf8_ascii) simp
  ultimately show ?thesis by (auto simp: dec_of_int_def simp del: append.simps intro: utf8_append)
qed

lemma utf8_literal: "list_all (\<lambda>c. of_char c < (128 :: nat)) s \<Longrightarrow> utf8 s"
  by (rule utf8_ascii) (simp add: list_all_iff)

lemma attribute_json_utf8: "attribute_utf8 a \<Longrightarrow> json_utf8 (attribute_json a)"
  by (cases a rule: attribute_utf8.cases) (auto intro!: json_utf8_fields simp: utf8_literal)

lemma span_json_utf8: "span_utf8 s \<Longrightarrow> json_utf8 (span_json s)"
  unfolding span_json_def span_utf8_def
  by (intro json_utf8_fields) (auto simp: utf8_literal attribute_json_utf8 intro!: json_utf8_fields)

lemma batch_json_utf8: "(\<forall>s \<in> set batch. span_utf8 s) \<Longrightarrow> json_utf8 (batch_json batch)"
  unfolding batch_json_def
  by (intro json_utf8_fields) (auto simp: utf8_literal SERVICE_NAME_def span_json_utf8 intro!: json_utf8_fields)

section \<open>Properties\<close>

definition sample_otel :: otel where
  "sample_otel = \<lparr>h_system = (\<lambda>_. 0), h_steady = (\<lambda>_. 0), h_reads = 0, h_rng = (\<lambda>_. 0), h_draws = 0,
     ot_stack = [], ot_pending = [], ot_wakeups = 0\<rparr>"

text \<open>
  Spans nest. A scope opened inside another belongs to the same trace and has the other as
  its parent; identifiers have 16 hexadecimal digits, those of a new trace 32. When both are
  closed the stack is as before, and the inner span is exported before the outer one.
\<close>

theorem scopes_nest:
  assumes "scope_open a as w = (p, w1)" "scope_open b bs w1 = (c, w2)"
  shows "os_traceId c = os_traceId p \<and> os_parentSpanId c = os_spanId p \<and> hex_id 16 (os_spanId c)
    \<and> (ot_stack w \<noteq> [] \<or> hex_id 32 (os_traceId p))
    \<and> ot_stack (OtelScope_close p (OtelScope_close c w2)) = ot_stack w
    \<and> map fs_spanId (ot_pending (OtelScope_close p (OtelScope_close c w2))) = map fs_spanId (ot_pending w) @ [os_spanId c, os_spanId p]"
proof -
  obtain d where w1: "w1 = w\<lparr>h_draws := d, h_reads := Suc (h_reads w), ot_stack := ot_stack w @ [(os_traceId p, os_spanId p)]\<rparr>"
    and p: "opened a as w p"
    using scope_open_cases [of a as w] assms(1) by (metis prod.inject)
  obtain d' where w2: "w2 = w1\<lparr>h_draws := d', h_reads := Suc (h_reads w1), ot_stack := ot_stack w1 @ [(os_traceId c, os_spanId c)]\<rparr>"
    and c: "opened b bs w1 c"
    using scope_open_cases [of b bs w1] assms(2) by (metis prod.inject)
  show ?thesis
    using p c by (auto simp: opened_def w1 w2 OtelScope_close_eq finish_span_def parentSpanId_def butlast_append split: if_splits)
qed

lemma scopes_nest_witness:
  "\<exists>p w1 c w2. scope_open ''a'' [] sample_otel = (p, w1) \<and> scope_open ''b'' [] w1 = (c, w2)
    \<and> os_parentSpanId c = os_spanId p \<and> ot_stack (OtelScope_close p (OtelScope_close c w2)) = []"
proof -
  obtain p w1 where p: "scope_open ''a'' [] sample_otel = (p, w1)" by fastforce
  obtain c w2 where c: "scope_open ''b'' [] w1 = (c, w2)" by fastforce
  show ?thesis using p c scopes_nest [OF p c] by (auto simp: sample_otel_def)
qed

lemma http_send_loop_returns: "TxErr EPIPE \<notin> set (io_tx s) \<Longrightarrow> http_send_loop raw s \<noteq> None"
proof (induction raw s rule: http_send_loop.induct)
  case (1 raw s)
  obtain r s1 where r: "send raw s = (r, s1)" by fastforce
  then have "set (io_tx s1) \<subseteq> set (io_tx s)" "r \<noteq> SendErr EPIPE"
    using "1.prems" by (cases "(length raw, io_tx s)" rule: send_event.cases; auto simp: send_def)+
  then show ?case
    using "1.prems" "1.IH" [OF _ r [symmetric]] r by (subst http_send_loop.simps) (auto split: send_result.splits)
qed

text \<open>A collector that has closed the connection ends the server: the first \<^verbatim>\<open>send\<close> raises SIGPIPE.\<close>

lemma http_send_loop_sigpipe: "raw \<noteq> [] \<Longrightarrow> io_tx s = TxErr EPIPE # es \<Longrightarrow> http_send_loop raw s = None"
  by (subst http_send_loop.simps) (simp add: send_def)

text \<open>
  Exporting a batch of spans with UTF-8 texts returns, SIGPIPE apart, and empties the buffer, also when the
  collector cannot be reached; then the spans are lost. Nothing but the buffer changes.
\<close>

theorem flush_empties_buffer:
  assumes "dump_law J" "\<forall>s \<in> set (ot_pending w). span_utf8 s" "TxErr EPIPE \<notin> set (io_tx s)"
  shows "\<exists>s'. flush J conn ep w s = Some (w\<lparr>ot_pending := []\<rparr>, s') \<and> (conn = Connected \<or> s' = s)"
proof (cases "ot_pending w = []")
  case True
  then have "w\<lparr>ot_pending := []\<rparr> = w" by simp
  then show ?thesis using True by (simp add: flush_def)
next
  case False
  obtain body where "dump J (batch_json (ot_pending w)) = Some body"
    using assms batch_json_utf8 unfolding dump_law_def by blast
  then show ?thesis
    using False http_send_loop_returns [OF assms(3), of "bytes_of_string (http_request ep body)"]
    by (cases conn) (auto simp: flush_def httpPost_def split: prod.splits recv_result.splits)
qed

lemma flush_empties_buffer_witness:
  "\<exists>s'. flush (sample_lib [] JNull) NoAddress \<lparr>oe_host = ''h'', oe_port = 1\<rparr> sample_otel
     \<lparr>io_rx = [], io_tx = [], io_sent = [], io_errno = E_NONE\<rparr> = Some (sample_otel, s')"
proof -
  have "dump_law (sample_lib [] JNull)" by (auto simp: dump_law_def)
  then show ?thesis using flush_empties_buffer [of "sample_lib [] JNull" sample_otel "\<lparr>io_rx = [], io_tx = [], io_sent = [], io_errno = E_NONE\<rparr>"]
    by (auto simp: sample_otel_def)
qed

end
