(* ===== verification/Logger.thy ===== *)
theory Logger
  imports OtelScope
begin

text \<open>
  \<^verbatim>\<open>src/logger.cpp\<close>: sanitising of log fields, severity filtering, and one definition per log
  event. Standard output is a list of lines; a line is written under the mutex of the logger, so
  lines do not interleave. A log call is \<^term>\<open>None\<close> when \<^verbatim>\<open>dump\<close> throws: no caller catches it.
\<close>

datatype Level = INFO | WARN | ERROR | NONE

fun level_rank :: "Level \<Rightarrow> nat" where
  "level_rank INFO = 0"
| "level_rank WARN = 1"
| "level_rank ERROR = 2"
| "level_rank NONE = 3"

instantiation Level :: linorder
begin

definition less_eq_Level :: "Level \<Rightarrow> Level \<Rightarrow> bool" where
  "less_eq_Level a b \<longleftrightarrow> level_rank a \<le> level_rank b"

definition less_Level :: "Level \<Rightarrow> Level \<Rightarrow> bool" where
  "less_Level a b \<longleftrightarrow> level_rank a < level_rank b"

instance
proof
  fix a b c :: Level
  show "a < b \<longleftrightarrow> a \<le> b \<and> \<not> b \<le> a" by (auto simp: less_Level_def less_eq_Level_def)
  show "a \<le> a" by (simp add: less_eq_Level_def)
  show "a \<le> b \<Longrightarrow> b \<le> c \<Longrightarrow> a \<le> c" by (simp add: less_eq_Level_def)
  show "a \<le> b \<Longrightarrow> b \<le> a \<Longrightarrow> a = b" by (cases a; cases b) (simp_all add: less_eq_Level_def)
  show "a \<le> b \<or> b \<le> a" by (auto simp: less_eq_Level_def)
qed

end

record logger = otel +
  lg_minLevel :: Level
  lg_stdout :: "string list"

definition MAX_LOG_FIELD_LENGTH :: nat where "MAX_LOG_FIELD_LENGTH = 512"

subsection \<open>Sanitising\<close>

text \<open>\<^verbatim>\<open>std::tolower\<close> in the C locale.\<close>

definition tolower :: "char \<Rightarrow> char" where
  "tolower c = (if 65 \<le> (of_char c :: nat) \<and> of_char c \<le> (90 :: nat) then char_of (of_char c + (32 :: nat)) else c)"

definition toLowerCopy :: "string \<Rightarrow> string" where
  "toLowerCopy s = map tolower s"

definition BLOCKED :: "string list" where
  "BLOCKED = [''password'', ''passwd'', ''token'', ''secret'', ''authorization'', ''bearer'', ''payload'']"

definition containsSensitiveMarker :: "string \<Rightarrow> bool" where
  "containsSensitiveMarker s =
     (let lower = toLowerCopy s in list_ex (\<lambda>marker. str_find marker lower \<noteq> None) BLOCKED)"

definition sanitizeText :: "string \<Rightarrow> string" where
  "sanitizeText s =
     (if s = [] then s
      else if containsSensitiveMarker s then ''[REDACTED]''
      else if length s > MAX_LOG_FIELD_LENGTH then take MAX_LOG_FIELD_LENGTH s
      else s)"

subsection \<open>Writing a line\<close>

definition nowIso8601Utc :: "'a host_scheme \<Rightarrow> string \<times> 'a host_scheme" where
  "nowIso8601Utc w = (let (now, w) = system_now w in (iso8601 now, w))"

fun levelToString :: "Level \<Rightarrow> string" where
  "levelToString INFO = ''INFO''"
| "levelToString WARN = ''WARN''"
| "levelToString ERROR = ''ERROR''"
| "levelToString NONE = ''NONE''"

definition writeToStdout :: "string \<Rightarrow> 'a logger_scheme \<Rightarrow> 'a logger_scheme" where
  "writeToStdout line w = w\<lparr>lg_stdout := lg_stdout w @ [line]\<rparr>"

record BaseFields =
  bf_traceId :: string
  bf_spanId :: string

text \<open>The fields of each event.\<close>

record ConnectedFields =
  cf_clientIp :: string
  cf_sessionId :: string
  cf_activeConnections :: u32

record DisconnectedFields =
  df_nodeId :: string
  df_sessionId :: string
  df_connectionDurationMs :: int
  df_reason :: string

record NodeRegisterErrorFields =
  rf_nodeId :: string
  rf_sessionId :: string
  rf_reason :: string

record NodeQueriedFields =
  qf_nodeId :: string
  qf_sessionId :: string
  qf_result :: string

record NodesListedFields =
  lf_sessionId :: string
  lf_nodeCount :: u64

record NodeRegisteredFields =
  nf_nodeId :: string
  nf_sessionId :: string

record HeartbeatReceivedFields =
  hf_nodeId :: string
  hf_sessionId :: string

record HeartbeatUnknownNodeFields =
  uf_nodeId :: string
  uf_sessionId :: string

record NodeOfflineFields =
  of_nodeId :: string

text \<open>The fields that every event sets, and the end every log function has.\<close>

definition common_fields :: "Level \<Rightarrow> BaseFields \<Rightarrow> (string \<times> json) list" where
  "common_fields level base =
     [(''level'', JString (levelToString level)),
      (''service'', JString SERVICE_NAME),
      (''trace_id'', JString (sanitizeText (bf_traceId base))),
      (''span_id'', JString (sanitizeText (bf_spanId base)))]"

definition emit :: "json_lib \<Rightarrow> (string \<times> json) list \<Rightarrow> 'a logger_scheme \<Rightarrow> 'a logger_scheme option" where
  "emit J fs w = do {
     let (ts, w) = nowIso8601Utc w;
     line \<leftarrow> dump J (json_fields ((''timestamp'', JString ts) # fs));
     Some (writeToStdout line w)
   }"

subsection \<open>Events\<close>

definition text_field :: "string \<Rightarrow> string \<Rightarrow> string \<times> json" where
  "text_field k v = (k, JString (sanitizeText v))"

definition logConnected ::
  "json_lib \<Rightarrow> BaseFields \<Rightarrow> ConnectedFields \<Rightarrow> 'a logger_scheme \<Rightarrow> 'a logger_scheme option" where
  "logConnected J base flds w =
     (if lg_minLevel w > INFO then Some w
      else emit J (common_fields INFO base @
        [(''event'', JString ''clientConnected''),
         text_field ''client_ip'' (cf_clientIp flds),
         text_field ''session_id'' (cf_sessionId flds),
         (''active_connections'', JUInt (ucast (cf_activeConnections flds))),
         (''message'', JString ''New client connection established'')]) w)"

definition logDisconnected ::
  "json_lib \<Rightarrow> BaseFields \<Rightarrow> DisconnectedFields \<Rightarrow> 'a logger_scheme \<Rightarrow> 'a logger_scheme option" where
  "logDisconnected J base flds w =
     (if lg_minLevel w > INFO then Some w
      else emit J (common_fields INFO base @
        [(''event'', JString ''clientDisconnected''),
         text_field ''node_id'' (df_nodeId flds),
         text_field ''session_id'' (df_sessionId flds),
         (''connection_duration_ms'', JInt (df_connectionDurationMs flds)),
         text_field ''reason'' (df_reason flds),
         (''message'', JString ''Client connection closed'')]) w)"

definition logNodeRegistered ::
  "json_lib \<Rightarrow> BaseFields \<Rightarrow> NodeRegisteredFields \<Rightarrow> 'a logger_scheme \<Rightarrow> 'a logger_scheme option" where
  "logNodeRegistered J base flds w =
     (if lg_minLevel w > INFO then Some w
      else emit J (common_fields INFO base @
        [(''event'', JString ''node_registered''),
         text_field ''node_id'' (nf_nodeId flds),
         text_field ''session_id'' (nf_sessionId flds),
         (''message'', JString ''Node registered successfully'')]) w)"

definition logHeartbeatReceived ::
  "json_lib \<Rightarrow> BaseFields \<Rightarrow> HeartbeatReceivedFields \<Rightarrow> 'a logger_scheme \<Rightarrow> 'a logger_scheme option" where
  "logHeartbeatReceived J base flds w =
     (if lg_minLevel w > INFO then Some w
      else emit J (common_fields INFO base @
        [(''event'', JString ''heartbeat_received''),
         text_field ''node_id'' (hf_nodeId flds),
         text_field ''session_id'' (hf_sessionId flds),
         (''message'', JString ''Heartbeat received'')]) w)"

definition logHeartbeatUnknownNode ::
  "json_lib \<Rightarrow> BaseFields \<Rightarrow> HeartbeatUnknownNodeFields \<Rightarrow> 'a logger_scheme \<Rightarrow> 'a logger_scheme option" where
  "logHeartbeatUnknownNode J base flds w =
     (if lg_minLevel w > WARN then Some w
      else emit J (common_fields WARN base @
        [(''event'', JString ''heartbeat_unknown_node''),
         text_field ''node_id'' (uf_nodeId flds),
         text_field ''session_id'' (uf_sessionId flds),
         (''message'', JString ''Heartbeat received for unknown node'')]) w)"

definition logNodeOffline ::
  "json_lib \<Rightarrow> BaseFields \<Rightarrow> NodeOfflineFields \<Rightarrow> 'a logger_scheme \<Rightarrow> 'a logger_scheme option" where
  "logNodeOffline J base flds w =
     (if lg_minLevel w > WARN then Some w
      else emit J (common_fields WARN base @
        [(''event'', JString ''node_offline''),
         text_field ''node_id'' (of_nodeId flds),
         (''message'', JString (''Node marked OFFLINE '' @ [CHR 0xE2, CHR 0x80, CHR 0x94] @ '' heartbeat timeout''))]) w)"

text \<open>Unlike the others, this event is not filtered by the minimum level.\<close>

definition logNodeRegisterError ::
  "json_lib \<Rightarrow> BaseFields \<Rightarrow> NodeRegisterErrorFields \<Rightarrow> 'a logger_scheme \<Rightarrow> 'a logger_scheme option" where
  "logNodeRegisterError J base flds w =
     emit J (common_fields WARN base @
        [(''event'', JString ''node_register_error''),
         text_field ''node_id'' (rf_nodeId flds),
         text_field ''session_id'' (rf_sessionId flds),
         text_field ''reason'' (rf_reason flds),
         (''message'', JString ''Node registration failed'')]) w"

definition logNodeQueried ::
  "json_lib \<Rightarrow> BaseFields \<Rightarrow> NodeQueriedFields \<Rightarrow> 'a logger_scheme \<Rightarrow> 'a logger_scheme option" where
  "logNodeQueried J base flds w =
     (let eventLevel = (if qf_result flds = ''OK'' then INFO else WARN) in
      if lg_minLevel w > eventLevel then Some w
      else emit J (common_fields eventLevel base @
        [(''event'', JString ''node_queried''),
         text_field ''node_id'' (qf_nodeId flds),
         text_field ''session_id'' (qf_sessionId flds),
         text_field ''result'' (qf_result flds),
         (''message'', JString (if qf_result flds = ''OK'' then ''Node query succeeded'' else ''Node not found''))]) w)"

definition logNodesListed ::
  "json_lib \<Rightarrow> BaseFields \<Rightarrow> NodesListedFields \<Rightarrow> 'a logger_scheme \<Rightarrow> 'a logger_scheme option" where
  "logNodesListed J base flds w =
     (if lg_minLevel w > INFO then Some w
      else emit J (common_fields INFO base @
        [(''event'', JString ''nodes_listed''),
         text_field ''session_id'' (lf_sessionId flds),
         (''node_count'', JUInt (lf_nodeCount flds)),
         (''message'', JString ''Node list returned'')]) w)"

definition log_plain :: "json_lib \<Rightarrow> Level \<Rightarrow> string \<Rightarrow> 'a logger_scheme \<Rightarrow> 'a logger_scheme option" where
  "log_plain J level message w =
     (if lg_minLevel w > level then Some w
      else emit J (common_fields level \<lparr>bf_traceId = currentTraceId w, bf_spanId = currentSpanId w\<rparr> @
        [text_field ''message'' message]) w)"

subsection \<open>Lemmas on sanitising\<close>

lemma marker_take: "containsSensitiveMarker (take n s) \<Longrightarrow> containsSensitiveMarker s"
proof -
  assume "containsSensitiveMarker (take n s)"
  then obtain m where "m \<in> set BLOCKED" "str_find m (take n (toLowerCopy s)) \<noteq> None"
    unfolding containsSensitiveMarker_def toLowerCopy_def Let_def list_ex_iff take_map by blast
  then show ?thesis
    using str_find_take unfolding containsSensitiveMarker_def Let_def list_ex_iff by blast
qed

lemma sanitizeText_clean: "\<not> containsSensitiveMarker (sanitizeText s)"
proof -
  have "\<not> containsSensitiveMarker ''[REDACTED]''" by code_simp
  moreover have "\<not> containsSensitiveMarker []" by code_simp
  moreover have "\<not> containsSensitiveMarker (take MAX_LOG_FIELD_LENGTH s)" if "\<not> containsSensitiveMarker s"
    using that marker_take by blast
  ultimately show ?thesis by (simp add: sanitizeText_def)
qed

lemma sanitizeText_length: "length (sanitizeText s) \<le> 512"
  by (simp add: sanitizeText_def MAX_LOG_FIELD_LENGTH_def)

lemma sanitizeText_utf8: "utf8 s \<Longrightarrow> length s \<le> 512 \<Longrightarrow> utf8 (sanitizeText s)"
  by (simp add: sanitizeText_def MAX_LOG_FIELD_LENGTH_def utf8_literal)

lemma sanitizeText_ascii: "(\<forall>c \<in> set s. of_char c < (128 :: nat)) \<Longrightarrow> utf8 (sanitizeText s)"
  by (auto simp: sanitizeText_def utf8_literal intro!: utf8_ascii dest: in_set_takeD)

subsection \<open>Lemmas on log calls\<close>

text \<open>A log call only reads the clock and appends to standard output.\<close>

definition logged :: "'a logger_scheme \<Rightarrow> 'a logger_scheme \<Rightarrow> bool" where
  "logged w w' \<longleftrightarrow> (\<exists>r ls. w' = w\<lparr>h_reads := r, lg_stdout := lg_stdout w @ ls\<rparr>)"

lemma logged_refl [simp]: "logged w w"
  unfolding logged_def by (rule exI [of _ "h_reads w"], rule exI [of _ "[]"]) simp

definition fields_utf8 :: "(string \<times> json) list \<Rightarrow> bool" where
  "fields_utf8 fs \<longleftrightarrow> (\<forall>f \<in> set fs. utf8 (fst f) \<and> json_utf8 (snd f))"

lemma utf8_iso8601 [simp]: "utf8 (iso8601 t)"
proof -
  have "utf8 (replicate n CHR ''0'')" for n by (rule utf8_ascii) simp
  then have "utf8 (two_digits i)" for i
    unfolding two_digits_def pad_left_def by (intro utf8_append utf8_dec_of_int)
  then show ?thesis
    by (auto simp: iso8601_def format_utc_def utf8_literal simp del: append.simps intro!: utf8_append)
qed

lemma emit_logged: "emit J fs w = Some w' \<Longrightarrow> logged w w'"
  by (auto simp: emit_def nowIso8601Utc_def system_now_def writeToStdout_def logged_def
      split: bind_splits)

lemma emit_total:
  assumes "dump_law J" "fields_utf8 fs"
  shows "returns (emit J fs w)"
proof -
  have "json_utf8 (json_fields ((''timestamp'', JString (iso8601 t)) # fs))" for t
    using assms(2) by (intro json_utf8_fields) (auto simp: fields_utf8_def utf8_literal)
  then obtain line where "dump J (json_fields ((''timestamp'', JString (iso8601 (h_system w (h_reads w)))) # fs)) = Some line"
    using assms(1) by (fastforce simp: dump_law_def)
  then show ?thesis by (simp add: emit_def nowIso8601Utc_def system_now_def)
qed

lemma emit_crash:
  assumes "dump_law J" "distinct (''timestamp'' # map fst fs)" "(k, JString s) \<in> set fs" "\<not> utf8 s"
  shows "emit J fs w = None"
proof -
  have "\<not> json_utf8 (json_fields ((''timestamp'', JString t) # fs))" for t
    using assms(2-4) by (subst json_utf8_fields_iff) force+
  then have "dump J (json_fields ((''timestamp'', JString t) # fs)) = None" for t
    using assms(1) unfolding dump_law_def by blast
  then show ?thesis by (simp add: emit_def nowIso8601Utc_def system_now_def)
qed

lemmas log_defs = logConnected_def logDisconnected_def logNodeRegistered_def logHeartbeatReceived_def
  logHeartbeatUnknownNode_def logNodeOffline_def logNodeRegisterError_def logNodeQueried_def
  logNodesListed_def log_plain_def

text \<open>
  A text is \<open>safe\<close> for a log line when what is left of it after sanitising is UTF-8. Every log
  call whose texts are safe succeeds; short UTF-8 texts and ASCII texts are safe.
\<close>

definition safe_text :: "string \<Rightarrow> bool" where
  "safe_text s \<longleftrightarrow> utf8 (sanitizeText s)"

definition safe_base :: "BaseFields \<Rightarrow> bool" where
  "safe_base b \<longleftrightarrow> safe_text (bf_traceId b) \<and> safe_text (bf_spanId b)"

lemma safe_text_field: "safe_text v \<Longrightarrow> utf8 k \<Longrightarrow> utf8 (fst (text_field k v)) \<and> json_utf8 (snd (text_field k v))"
  by (simp add: text_field_def safe_text_def)

lemma safe_hex_id: "hex_id n s \<Longrightarrow> safe_text s"
  unfolding safe_text_def by (rule sanitizeText_ascii) (auto simp: hex_id_def intro: is_digit_ascii [of 16])

lemma safe_literal: "list_all (\<lambda>c. of_char c < (128 :: nat)) s \<Longrightarrow> safe_text s"
  unfolding safe_text_def by (rule sanitizeText_ascii) (simp add: list_all_iff)

lemma utf8_levelToString [simp]: "utf8 (levelToString l)"
  by (cases l) (simp_all add: utf8_literal)

lemma fields_utf8_common:
  "safe_base b \<Longrightarrow> fields_utf8 (common_fields l b @ fs) = fields_utf8 fs"
  by (auto simp: fields_utf8_def common_fields_def safe_base_def safe_text_def utf8_literal SERVICE_NAME_def)

lemma fields_utf8_Nil [simp]: "fields_utf8 []"
  by (simp add: fields_utf8_def)

lemma fields_utf8_text: "utf8 k \<Longrightarrow> fields_utf8 (text_field k v # fs) \<longleftrightarrow> safe_text v \<and> fields_utf8 fs"
  by (auto simp: fields_utf8_def text_field_def safe_text_def)

lemma fields_utf8_json: "fields_utf8 ((k, j) # fs) \<longleftrightarrow> utf8 k \<and> json_utf8 j \<and> fields_utf8 fs"
  by (auto simp: fields_utf8_def)

lemma utf8_dash: "utf8 [CHR 0xE2, CHR 0x80, CHR 0x94]"
  by code_simp

lemmas log_utf8_simps = fields_utf8_common fields_utf8_text fields_utf8_json utf8_literal

lemma log_logged:
  "logConnected J b f1 w = Some w' \<Longrightarrow> logged w w'"
  "logDisconnected J b f2 w = Some w' \<Longrightarrow> logged w w'"
  "logNodeRegistered J b f3 w = Some w' \<Longrightarrow> logged w w'"
  "logHeartbeatReceived J b f4 w = Some w' \<Longrightarrow> logged w w'"
  "logHeartbeatUnknownNode J b f5 w = Some w' \<Longrightarrow> logged w w'"
  "logNodeOffline J b f6 w = Some w' \<Longrightarrow> logged w w'"
  "logNodeRegisterError J b f7 w = Some w' \<Longrightarrow> logged w w'"
  "logNodeQueried J b f8 w = Some w' \<Longrightarrow> logged w w'"
  "logNodesListed J b f9 w = Some w' \<Longrightarrow> logged w w'"
  "log_plain J l msg w = Some w' \<Longrightarrow> logged w w'"
  unfolding log_defs Let_def by (auto split: if_splits dest: emit_logged)

lemma log_total:
  assumes "dump_law J" "safe_base b"
  shows "safe_text ip \<Longrightarrow> safe_text sid \<Longrightarrow> returns (logConnected J b \<lparr>cf_clientIp = ip, cf_sessionId = sid, cf_activeConnections = n\<rparr> w)"
    "safe_text nid \<Longrightarrow> safe_text sid \<Longrightarrow> safe_text reason \<Longrightarrow> returns (logDisconnected J b \<lparr>df_nodeId = nid, df_sessionId = sid, df_connectionDurationMs = d, df_reason = reason\<rparr> w)"
    "safe_text nid \<Longrightarrow> safe_text sid \<Longrightarrow> returns (logNodeRegistered J b \<lparr>nf_nodeId = nid, nf_sessionId = sid\<rparr> w)"
    "safe_text nid \<Longrightarrow> safe_text sid \<Longrightarrow> returns (logHeartbeatReceived J b \<lparr>hf_nodeId = nid, hf_sessionId = sid\<rparr> w)"
    "safe_text nid \<Longrightarrow> safe_text sid \<Longrightarrow> returns (logHeartbeatUnknownNode J b \<lparr>uf_nodeId = nid, uf_sessionId = sid\<rparr> w)"
    "safe_text nid \<Longrightarrow> returns (logNodeOffline J b \<lparr>of_nodeId = nid\<rparr> w)"
    "safe_text nid \<Longrightarrow> safe_text sid \<Longrightarrow> safe_text reason \<Longrightarrow> returns (logNodeRegisterError J b \<lparr>rf_nodeId = nid, rf_sessionId = sid, rf_reason = reason\<rparr> w)"
    "safe_text nid \<Longrightarrow> safe_text sid \<Longrightarrow> safe_text reason \<Longrightarrow> returns (logNodeQueried J b \<lparr>qf_nodeId = nid, qf_sessionId = sid, qf_result = reason\<rparr> w)"
    "safe_text sid \<Longrightarrow> returns (logNodesListed J b \<lparr>lf_sessionId = sid, lf_nodeCount = c\<rparr> w)"
  using assms
  by (auto simp: log_defs Let_def log_utf8_simps utf8_append utf8_dash simp del: append.simps
      intro!: emit_total)

subsection \<open>The blocked words\<close>

text \<open>
  What the sanitising promises, without its code: a lower-case word occurs in a text at some position, each letter in either case; a text is
  sensitive if one of seven words occurs in it.
\<close>

definition same_letter :: "char \<Rightarrow> char \<Rightarrow> bool" where
  "same_letter l c \<longleftrightarrow> c = l \<or> of_char c + 32 = (of_char l :: nat)"

definition occurs_in :: "string \<Rightarrow> string \<Rightarrow> bool" where
  "occurs_in word s \<longleftrightarrow> (\<exists>i \<le> length s. list_all2 same_letter word (take (length word) (drop i s)))"

definition sensitive :: "string \<Rightarrow> bool" where
  "sensitive s \<longleftrightarrow> occurs_in ''password'' s \<or> occurs_in ''passwd'' s \<or> occurs_in ''token'' s \<or> occurs_in ''secret'' s
     \<or> occurs_in ''authorization'' s \<or> occurs_in ''bearer'' s \<or> occurs_in ''payload'' s"

lemma tolower_iff:
  assumes "97 \<le> (of_char l :: nat)" "(of_char l :: nat) \<le> 122"
  shows "tolower c = l \<longleftrightarrow> same_letter l c"
proof (cases "65 \<le> (of_char c :: nat) \<and> (of_char c :: nat) \<le> 90")
  case True
  then have "take_bit 8 (of_char c + 32 :: nat) = of_char c + 32" by (intro take_bit_nat_eq_self) simp
  then show ?thesis using True assms by (auto simp: tolower_def same_letter_def char_of_eq_iff)
next
  case False
  then show ?thesis using assms by (auto simp: tolower_def same_letter_def)
qed

lemma map_tolower_iff:
  "list_all (\<lambda>l. 97 \<le> (of_char l :: nat) \<and> (of_char l :: nat) \<le> 122) word \<Longrightarrow> map tolower x = word \<longleftrightarrow> list_all2 same_letter word x"
proof (induction word arbitrary: x)
  case (Cons l word)
  then show ?case by (cases x) (auto simp: tolower_iff)
qed simp

lemma occurs_in_find:
  assumes "list_all (\<lambda>l. 97 \<le> (of_char l :: nat) \<and> (of_char l :: nat) \<le> 122) word"
  shows "str_find word (toLowerCopy s) \<noteq> None \<longleftrightarrow> occurs_in word s"
proof
  assume "str_find word (toLowerCopy s) \<noteq> None"
  then obtain u v where s: "map tolower s = u @ word @ v" unfolding str_find_iff toLowerCopy_def by blast
  have "map tolower (take (length word) (drop (length u) s)) = word" unfolding take_map [symmetric] drop_map [symmetric] s by simp
  moreover have "length u \<le> length s" using arg_cong [OF s, of length] by simp
  ultimately show "occurs_in word s" unfolding occurs_in_def map_tolower_iff [OF assms] by blast
next
  assume "occurs_in word s"
  then obtain i where i: "map tolower (take (length word) (drop i s)) = word" unfolding occurs_in_def map_tolower_iff [OF assms] by blast
  have "s = take i s @ take (length word) (drop i s) @ drop (length word) (drop i s)"
    unfolding append_take_drop_id by (rule refl)
  then have "map tolower s = map tolower (take i s) @ word @ map tolower (drop (length word) (drop i s))" by (metis i map_append)
  then show "str_find word (toLowerCopy s) \<noteq> None" unfolding str_find_iff toLowerCopy_def by blast
qed

lemma containsSensitiveMarker_iff: "containsSensitiveMarker s \<longleftrightarrow> sensitive s"
proof -
  have "list_all (list_all (\<lambda>l. 97 \<le> (of_char l :: nat) \<and> (of_char l :: nat) \<le> 122)) BLOCKED" by (simp add: BLOCKED_def)
  then have "containsSensitiveMarker s \<longleftrightarrow> list_ex (\<lambda>word. occurs_in word s) BLOCKED"
    unfolding containsSensitiveMarker_def Let_def list_ex_iff list_all_iff using occurs_in_find [unfolded list_all_iff] by blast
  then show ?thesis by (simp add: BLOCKED_def sensitive_def)
qed

section \<open>Properties\<close>

text \<open>
  C35. Log fields are sanitised. A text in which one of the seven words password, passwd, token, secret, authorization,
  bearer and payload occurs, in upper, lower or mixed case, is replaced by a fixed text; any other text is logged up to its first 512
  bytes. So no field contains one of the words, and none is longer than 512 bytes.
\<close>

theorem sanitizeText_safe:
  "sanitizeText s = (if sensitive s then ''[REDACTED]'' else take 512 s)
   \<and> \<not> sensitive (sanitizeText s) \<and> length (sanitizeText s) \<le> 512"
proof -
  have "\<not> sensitive []" using containsSensitiveMarker_iff [of "[]"] by (simp add: containsSensitiveMarker_def toLowerCopy_def BLOCKED_def)
  then show ?thesis
    using sanitizeText_clean [of s] sanitizeText_length [of s] containsSensitiveMarker_iff
    by (auto simp: sanitizeText_def MAX_LOG_FIELD_LENGTH_def)
qed

end
