(* ===== verification/Codec.thy ===== *)
theory Codec
  imports Prelude
begin

text \<open>
  The interface between an encoder of messages and the decoder that cuts them off the front of a
  byte stream. What the protocol needs of a pair of them is one law: decoding an encoded message
  that is followed by anything gives the message and exactly the rest. The lemmas here draw the
  consequences for streams of messages: no ambiguity at message boundaries, and decoding a
  concatenation recovers the sequence.
\<close>

fun decode_many :: "(bytes \<Rightarrow> ('m \<times> bytes) option) \<Rightarrow> nat \<Rightarrow> bytes \<Rightarrow> 'm list \<times> bytes" where
  "decode_many dec 0 bs = ([], bs)"
| "decode_many dec (Suc k) bs =
     (case dec bs of
        None \<Rightarrow> ([], bs)
      | Some (m, rest) \<Rightarrow> (let (ms, rest') = decode_many dec k rest in (m # ms, rest')))"

text \<open>Decoding as far as possible: every message takes at least one byte.\<close>

definition decode_all :: "(bytes \<Rightarrow> ('m \<times> bytes) option) \<Rightarrow> bytes \<Rightarrow> 'm list \<times> bytes" where
  "decode_all dec bs = decode_many dec (length bs) bs"

definition encode_many :: "('m \<Rightarrow> bytes) \<Rightarrow> 'm list \<Rightarrow> bytes" where
  "encode_many enc ms = concat (map enc ms)"

locale stream_codec =
  fixes encode :: "'m \<Rightarrow> bytes"
    and decode :: "bytes \<Rightarrow> ('m \<times> bytes) option"
    and valid :: "'m \<Rightarrow> bool"
  assumes decode_encode: "valid m \<Longrightarrow> decode (encode m @ rest) = Some (m, rest)"
    and decode_shrinks: "decode bs = Some (m, rest) \<Longrightarrow> length rest < length bs"
begin

lemma encode_injective:
  assumes "valid m" "valid m'" "encode m @ rest = encode m' @ rest'"
  shows "m = m' \<and> rest = rest'"
proof -
  have "Some (m, rest) = Some (m', rest')"
    using decode_encode [OF assms(1), of rest] decode_encode [OF assms(2), of rest'] assms(3) by metis
  then show ?thesis by simp
qed

lemma decode_stream:
  "(\<forall>m \<in> set ms. valid m) \<Longrightarrow>
   decode_many decode (length ms) (encode_many encode ms @ rest) = (ms, rest)"
  by (induction ms) (simp_all add: decode_encode encode_many_def)

lemma decode_many_enough:
  "length bs \<le> k \<Longrightarrow> decode_many decode k bs = decode_all decode bs"
proof (induction "length bs" arbitrary: bs k rule: less_induct)
  case less
  show ?case
  proof (cases "decode bs")
    case None
    then show ?thesis by (cases k; cases "length bs") (auto simp: decode_all_def)
  next
    case (Some p)
    obtain m rest where p: "p = (m, rest)" by (cases p)
    have s: "length rest < length bs" using decode_shrinks Some p by simp
    obtain k' n where k: "k = Suc k'" "length bs = Suc n" using s less.prems by (cases k; cases "length bs") auto
    have "decode_many decode k' rest = decode_all decode rest" "decode_many decode n rest = decode_all decode rest"
      using less.hyps [OF s] less.prems s k by auto
    then show ?thesis by (simp add: decode_all_def Some p k)
  qed
qed

lemma decode_all_unfold:
  "decode_all decode bs =
     (case decode bs of
        None \<Rightarrow> ([], bs)
      | Some (m, rest) \<Rightarrow> (let (ms, rest') = decode_all decode rest in (m # ms, rest')))"
proof (cases "decode bs")
  case None
  then show ?thesis by (cases "length bs") (auto simp: decode_all_def)
next
  case (Some p)
  obtain m rest where p: "p = (m, rest)" by (cases p)
  have s: "length rest < length bs" using decode_shrinks Some p by simp
  then obtain n where n: "length bs = Suc n" by (cases "length bs") auto
  then have "decode_many decode n rest = decode_all decode rest" using s by (intro decode_many_enough) simp
  then show ?thesis by (simp add: decode_all_def [of _ bs] Some p n)
qed

lemma decode_all_stream:
  "(\<forall>m \<in> set ms. valid m) \<Longrightarrow> decode rest = None \<Longrightarrow>
   decode_all decode (encode_many encode ms @ rest) = (ms, rest)"
proof (induction ms)
  case Nil
  then show ?case by (subst decode_all_unfold) (simp add: encode_many_def)
next
  case (Cons m ms)
  have "encode_many encode (m # ms) @ rest = encode m @ encode_many encode ms @ rest"
    by (simp add: encode_many_def)
  then show ?case using Cons decode_encode [of m "encode_many encode ms @ rest"]
    by (subst decode_all_unfold) simp
qed

text \<open>A byte sequence is the concatenation of at most one sequence of messages.\<close>

lemma streams_unambiguous:
  assumes "\<forall>m \<in> set ms. valid m" "\<forall>m \<in> set ms'. valid m" "decode rest = None" "decode rest' = None"
    and "encode_many encode ms @ rest = encode_many encode ms' @ rest'"
  shows "ms = ms' \<and> rest = rest'"
proof -
  have "(ms, rest) = (ms', rest')"
    using decode_all_stream [OF assms(1,3)] decode_all_stream [OF assms(2,4)] assms(5) by metis
  then show ?thesis by simp
qed

end

end
