(* ===== verification/MessageSerializer.thy ===== *)
theory MessageSerializer
  imports Json Posix Codec
begin

text \<open>
  \<^verbatim>\<open>src/messageSerializer.cpp\<close> and \<^verbatim>\<open>include/messageSerializer.hpp\<close>: the frames of the wire protocol
  (a four-byte length, a ten-byte envelope, the payload), their construction with the 32-bit
  arithmetic of the code, the payload builders, and the two socket loops \<open>readExact\<close> and
  \<open>sendAll\<close>. The loops run over a script of kernel answers (theory \<open>Posix\<close>), so their termination
  is proved and every failure branch is a value.
\<close>

subsection \<open>Constants and data\<close>

definition PROTOCOL_VERSION :: byte where "PROTOCOL_VERSION = 0x01"
definition ENVELOPE_SIZE :: u32 where "ENVELOPE_SIZE = 10"
definition FRAME_LENGTH_PREFIX_SIZE :: u32 where "FRAME_LENGTH_PREFIX_SIZE = 4"
definition MAX_FRAME_PAYLOAD :: u32 where "MAX_FRAME_PAYLOAD = 65536"

text \<open>
  \<^verbatim>\<open>enum class MessageType : uint8_t\<close> has the values of its underlying type; those without an
  enumerator are \<open>OTHER_TYPE\<close>.
\<close>

datatype MessageType =
  REGISTER | ACK | ERROR_MSG | QUERY_NODE | LIST_NODES | HEARTBEAT | OTHER_TYPE byte

datatype ProtocolErrorCode =
  ERR_DUPLICATE | ERR_NOT_FOUND | ERR_MALFORMED | ERR_SERVICE_UNAVAIL | ERR_TIMEOUT
  | ERR_CAPACITY | ERR_INTERNAL

fun MessageType_to_byte :: "MessageType \<Rightarrow> byte" where
  "MessageType_to_byte REGISTER = 0x01"
| "MessageType_to_byte ACK = 0x02"
| "MessageType_to_byte ERROR_MSG = 0x03"
| "MessageType_to_byte QUERY_NODE = 0x04"
| "MessageType_to_byte LIST_NODES = 0x05"
| "MessageType_to_byte HEARTBEAT = 0x06"
| "MessageType_to_byte (OTHER_TYPE b) = b"

definition MessageType_of_byte :: "byte \<Rightarrow> MessageType" where
  "MessageType_of_byte b =
     (if b = 0x01 then REGISTER else if b = 0x02 then ACK else if b = 0x03 then ERROR_MSG
      else if b = 0x04 then QUERY_NODE else if b = 0x05 then LIST_NODES
      else if b = 0x06 then HEARTBEAT else OTHER_TYPE b)"

fun ProtocolErrorCode_to_byte :: "ProtocolErrorCode \<Rightarrow> byte" where
  "ProtocolErrorCode_to_byte ERR_DUPLICATE = 0x01"
| "ProtocolErrorCode_to_byte ERR_NOT_FOUND = 0x02"
| "ProtocolErrorCode_to_byte ERR_MALFORMED = 0x03"
| "ProtocolErrorCode_to_byte ERR_SERVICE_UNAVAIL = 0x04"
| "ProtocolErrorCode_to_byte ERR_TIMEOUT = 0x05"
| "ProtocolErrorCode_to_byte ERR_CAPACITY = 0x06"
| "ProtocolErrorCode_to_byte ERR_INTERNAL = 0xFF"

record WelcomePayloadData =
  wp_serverVersion :: string
  wp_timestamp :: string
  wp_sessionId :: string

record AckPayloadData =
  ack_refMessageId :: u32
  ack_nodeId :: string

record ErrorPayloadData =
  err_refMessageId :: u32
  err_errorCode :: ProtocolErrorCode
  err_description :: string

datatype FrameReadStatus = OK | PEER_CLOSED | TIMEOUT | IO_ERROR

record FrameReadResult =
  fr_status :: FrameReadStatus
  fr_messageType :: MessageType
  fr_messageId :: u32
  fr_payload :: string

subsection \<open>Building frames\<close>

definition writeU32BE :: "u32 \<Rightarrow> bytes" where
  "writeU32BE value =
     [ucast (drop_bit 24 value AND 0xFF), ucast (drop_bit 16 value AND 0xFF),
      ucast (drop_bit 8 value AND 0xFF), ucast (value AND 0xFF)]"

text \<open>
  \<^verbatim>\<open>buildFrame\<close>: all lengths are \<^verbatim>\<open>uint32_t\<close> and wrap. The vector has the (wrapped) total size, and
  each write goes to the running offset; a write past the end of the vector is \<^term>\<open>None\<close>.
\<close>

definition buildFrame :: "MessageType \<Rightarrow> u32 \<Rightarrow> string \<Rightarrow> bytes option" where
  "buildFrame type messageId payload = do {
     let payloadLen = (word_of_nat (length payload) :: u32);
     let frameLen = ENVELOPE_SIZE + payloadLen;
     let totalSize = FRAME_LENGTH_PREFIX_SIZE + frameLen;
     let frame = replicate (unat totalSize) 0;
     frame \<leftarrow> write_at 0 (writeU32BE frameLen) frame;
     frame \<leftarrow> write_at 4 [PROTOCOL_VERSION] frame;
     frame \<leftarrow> write_at 5 [MessageType_to_byte type] frame;
     frame \<leftarrow> write_at 6 (writeU32BE messageId) frame;
     frame \<leftarrow> write_at 10 (writeU32BE payloadLen) frame;
     if payloadLen > 0
     then write_at 14 (take (unat payloadLen) (bytes_of_string payload)) frame
     else Some frame
   }"

definition buildWelcomePayload :: "json_lib \<Rightarrow> WelcomePayloadData \<Rightarrow> string option" where
  "buildWelcomePayload J data =
     dump J (json_fields [
       (''server_version'', JString (wp_serverVersion data)),
       (''timestamp'', JString (wp_timestamp data)),
       (''session_id'', JString (wp_sessionId data))])"

definition buildAckPayload :: "json_lib \<Rightarrow> AckPayloadData \<Rightarrow> string option" where
  "buildAckPayload J data =
     dump J (json_fields [
       (''ref_message_id'', JUInt (ucast (ack_refMessageId data))),
       (''node_id'', JString (ack_nodeId data))])"

definition buildErrorPayload :: "json_lib \<Rightarrow> ErrorPayloadData \<Rightarrow> string option" where
  "buildErrorPayload J data =
     dump J (json_fields [
       (''ref_message_id'', JUInt (ucast (err_refMessageId data))),
       (''error_code'', JUInt (ucast (ProtocolErrorCode_to_byte (err_errorCode data)))),
       (''description'', JString (err_description data))])"

subsection \<open>Reading frames\<close>

text \<open>The loop of \<^verbatim>\<open>readExact\<close>: \<open>buf\<close> holds the bytes received so far.\<close>

function readExact_loop :: "nat \<Rightarrow> bytes \<Rightarrow> io \<Rightarrow> FrameReadStatus \<times> bytes \<times> io" where
  "readExact_loop n buf s =
     (if length buf < n then
        (case recv (n - length buf) s of
           (RecvBytes r, s') \<Rightarrow>
             (if r \<noteq> [] then readExact_loop n (buf @ r) s' else (PEER_CLOSED, buf, s'))
         | (RecvErr e, s') \<Rightarrow>
             (if e = EINTR then readExact_loop n buf s'
              else if e = EAGAIN \<or> e = EWOULDBLOCK then (TIMEOUT, buf, s')
              else (IO_ERROR, buf, s')))
      else (OK, buf, s))"
  by pat_completeness auto
termination
  by (relation "measure (\<lambda>(n, buf, s). rx_size (io_rx s))")
     (auto simp: recv_def dest!: recv_event_size recv_event_err_size
       split: prod.splits recv_result.splits)

declare readExact_loop.simps [simp del]

definition readExact :: "nat \<Rightarrow> io \<Rightarrow> FrameReadStatus \<times> bytes \<times> io" where
  "readExact n s = readExact_loop n [] s"

text \<open>The result of a failed \<^verbatim>\<open>readFrame\<close>, \<^verbatim>\<open>{status, {}, 0, {}}\<close>.\<close>

definition frame_failure :: "FrameReadStatus \<Rightarrow> FrameReadResult" where
  "frame_failure st = \<lparr>fr_status = st, fr_messageType = OTHER_TYPE 0, fr_messageId = 0, fr_payload = []\<rparr>"

text \<open>\<^verbatim>\<open>readFrame\<close> in its three steps: the payload, the envelope, the length prefix.\<close>

definition readFrame_payload :: "u32 \<Rightarrow> MessageType \<Rightarrow> u32 \<Rightarrow> io \<Rightarrow> FrameReadResult \<times> io" where
  "readFrame_payload payloadLen msgType msgId s =
     (if payloadLen > 0 then
        (let (payStatus, payBuf, s) = readExact (unat payloadLen) s in
         if payStatus \<noteq> OK then (frame_failure payStatus, s)
         else (\<lparr>fr_status = OK, fr_messageType = msgType, fr_messageId = msgId,
                fr_payload = string_of_bytes payBuf\<rparr>, s))
      else (\<lparr>fr_status = OK, fr_messageType = msgType, fr_messageId = msgId, fr_payload = []\<rparr>, s))"

definition readFrame_envelope :: "u32 \<Rightarrow> io \<Rightarrow> FrameReadResult \<times> io" where
  "readFrame_envelope payloadLen s =
     (let (envStatus, envelope, s) = readExact (unat ENVELOPE_SIZE) s in
      if envStatus \<noteq> OK then (frame_failure envStatus, s)
      else
        let msgType = MessageType_of_byte (envelope ! 1);
            msgId = ntohl (load_u32 (drop 2 envelope)) in
        readFrame_payload payloadLen msgType msgId s)"

definition readFrame :: "io \<Rightarrow> FrameReadResult \<times> io" where
  "readFrame s =
     (let (lenStatus, lenBuf, s) = readExact (unat FRAME_LENGTH_PREFIX_SIZE) s in
      if lenStatus \<noteq> OK then (frame_failure lenStatus, s)
      else
        let frameLen = ntohl (load_u32 lenBuf) in
        if frameLen < ENVELOPE_SIZE then (frame_failure IO_ERROR, s)
        else
          let payloadLen = frameLen - ENVELOPE_SIZE in
          if payloadLen > MAX_FRAME_PAYLOAD then (frame_failure IO_ERROR, s)
          else readFrame_envelope payloadLen s)"

subsection \<open>Sending\<close>

text \<open>The loop of \<^verbatim>\<open>sendAll\<close>: \<open>data\<close> is what is still to be sent.\<close>

function sendAll :: "bytes \<Rightarrow> io \<Rightarrow> bool \<times> io" where
  "sendAll data s =
     (if data \<noteq> [] then
        (case send data s of
           (SendErr e, s') \<Rightarrow> (if e = EINTR then sendAll data s' else (False, s'))
         | (SendCount k, s') \<Rightarrow> sendAll (drop k data) s')
      else (True, s))"
  by pat_completeness auto
termination
  by (relation "measures [\<lambda>(data, s). length (io_tx s), \<lambda>(data, s). length data]")
     (auto simp: send_def dest: send_event_size split: prod.splits send_result.splits)

declare sendAll.simps [simp del]

subsection \<open>Abstract specifications\<close>

text \<open>
  The layout of a frame as the protocol states it, and reading a frame as a function of the byte
  stream alone: the chunks in which the stream arrives and interrupted calls do not occur in it.
  \<open>e\<close> is the event at which the stream breaks off.
\<close>

definition frame_bytes :: "MessageType \<Rightarrow> u32 \<Rightarrow> string \<Rightarrow> bytes" where
  "frame_bytes type msgId pl =
     writeU32BE (word_of_nat (10 + length pl)) @ [1, MessageType_to_byte type]
       @ writeU32BE msgId @ writeU32BE (word_of_nat (length pl)) @ bytes_of_string pl"

fun end_status :: "rx_event \<Rightarrow> FrameReadStatus" where
  "end_status (RxErr e) = (if e = EAGAIN \<or> e = EWOULDBLOCK then TIMEOUT else IO_ERROR)"
| "end_status _ = PEER_CLOSED"

definition frame_length :: "bytes \<Rightarrow> nat" where
  "frame_length bs = unat (ntohl (load_u32 bs))"

definition stream_frame :: "bytes \<Rightarrow> rx_event \<Rightarrow> FrameReadResult" where
  "stream_frame bs e =
     (if length bs < 4 then frame_failure (end_status e)
      else if frame_length bs < 10 \<or> 65546 < frame_length bs then frame_failure IO_ERROR
      else if length bs < 4 + frame_length bs then frame_failure (end_status e)
      else \<lparr>fr_status = OK, fr_messageType = MessageType_of_byte (bs ! 5),
             fr_messageId = ntohl (load_u32 (drop 6 bs)),
             fr_payload = string_of_bytes (take (frame_length bs - 10) (drop 14 bs))\<rparr>)"

text \<open>
  What reading does to a connection: it takes \<open>k\<close> bytes off the stream and leaves the sending
  side alone.
\<close>

definition io_kept :: "io \<Rightarrow> io \<Rightarrow> bool" where
  "io_kept s s' \<longleftrightarrow> io_tx s' = io_tx s \<and> io_sent s' = io_sent s"

definition io_advanced :: "nat \<Rightarrow> io \<Rightarrow> io \<Rightarrow> bool" where
  "io_advanced k s s' \<longleftrightarrow> io_kept s s' \<and> rx_bytes (io_rx s') = drop k (rx_bytes (io_rx s))
     \<and> rx_end (io_rx s') = rx_end (io_rx s)"

text \<open>A message as a value, its encoding, and the decoder that \<open>readFrame\<close> implements.\<close>

type_synonym message = "MessageType \<times> u32 \<times> string"

fun wf_type :: "MessageType \<Rightarrow> bool" where
  "wf_type (OTHER_TYPE b) = (b \<notin> {1, 2, 3, 4, 5, 6})"
| "wf_type _ = True"

fun wf_message :: "message \<Rightarrow> bool" where
  "wf_message (type, msgId, pl) = (wf_type type \<and> length pl \<le> 65536)"

fun encode_message :: "message \<Rightarrow> bytes" where
  "encode_message (type, msgId, pl) = frame_bytes type msgId pl"

definition decode_message :: "bytes \<Rightarrow> (message \<times> bytes) option" where
  "decode_message bs =
     (let r = stream_frame bs RxEof in
      if fr_status r = OK
      then Some ((fr_messageType r, fr_messageId r, fr_payload r), drop (4 + frame_length bs) bs)
      else None)"

subsection \<open>Lemmas on the encoding\<close>

lemma ucast_and_ff: "(ucast (x AND 0xFF :: u32) :: byte) = ucast x"
proof -
  have "(0xFF :: u32) = mask 8" by (simp add: mask_eq_exp_minus_1)
  then have "x AND 0xFF = take_bit 8 x" by (simp only: take_bit_eq_mask)
  then show ?thesis by (simp only:) (rule bit_word_eqI, auto simp: bit_simps)
qed

lemma writeU32BE_store: "writeU32BE v = rev (store_u32 v)"
  by (simp add: writeU32BE_def rev_store_u32 ucast_and_ff)

lemma length_writeU32BE [simp]: "length (writeU32BE v) = 4"
  by (simp add: writeU32BE_store)

lemma ntohl_load_writeU32BE [simp, wire_simps]: "ntohl (load_u32 (writeU32BE v @ rest)) = v"
proof -
  obtain a b c d where s: "store_u32 v = [a, b, c, d]"
    by (simp add: store_u32_def)
  have "v = load_u32 (store_u32 v @ [])" by (simp only: load_store_u32)
  then have v: "v = load_u32 [a, b, c, d]" by (simp add: s)
  have "load_u32 (writeU32BE v @ rest) = load_u32 [d, c, b, a]"
    by (simp add: writeU32BE_store s)
  then show ?thesis by (simp add: ntohl_load v del: load_u32.simps)
qed

lemma writeU32BE_load:
  assumes "4 \<le> length bs"
  shows "writeU32BE (ntohl (load_u32 bs)) = take 4 bs"
proof -
  obtain a b c d where t: "take 4 bs = [a, b, c, d]"
    using assms by (auto simp: eval_nat_numeral Suc_le_length_iff)
  then have "bs = [a, b, c, d] @ drop 4 bs" by (metis append_take_drop_id)
  then have "load_u32 bs = load_u32 [a, b, c, d]" by (metis append_Cons append_Nil load_u32_four)
  then show ?thesis by (simp add: t ntohl_load writeU32BE_store store_load_u32 del: load_u32.simps)
qed

lemma MessageType_to_of_byte [simp]: "MessageType_to_byte (MessageType_of_byte b) = b"
  by (simp add: MessageType_of_byte_def)

lemma MessageType_of_to_byte [simp]: "wf_type t \<Longrightarrow> MessageType_of_byte (MessageType_to_byte t) = t"
  by (cases t) (simp_all add: MessageType_of_byte_def)

lemma wf_type_of_byte [simp]: "wf_type (MessageType_of_byte b)"
  by (simp add: MessageType_of_byte_def)

lemma length_frame_bytes [simp]: "length (frame_bytes type msgId pl) = 14 + length pl"
  by (simp add: frame_bytes_def)

text \<open>
  \<open>buildFrame\<close> lays out the frame exactly when the 32-bit total size does not wrap; it then copies
  \<open>length mod 2 ^ 32\<close> bytes of the payload.
\<close>

lemma unat_len_u32: "n < 2 ^ 32 \<Longrightarrow> unat (word_of_nat n :: u32) = n"
  by (simp add: unat_of_nat take_bit_nat_eq_self)

lemma unat_total_size:
  "unat (FRAME_LENGTH_PREFIX_SIZE + (ENVELOPE_SIZE + (w :: u32))) =
     (if unat w + 14 < 2 ^ 32 then unat w + 14 else unat w + 14 - 2 ^ 32)"
proof -
  have w: "unat w < 2 ^ 32" using unsigned_less [of w] by simp
  have "FRAME_LENGTH_PREFIX_SIZE + (ENVELOPE_SIZE + w) = w + 14"
    by (simp add: FRAME_LENGTH_PREFIX_SIZE_def ENVELOPE_SIZE_def)
  moreover have "unat (w + 14) = (unat w + 14) mod 2 ^ 32"
    by (simp add: unat_word_ariths)
  ultimately have "unat (FRAME_LENGTH_PREFIX_SIZE + (ENVELOPE_SIZE + w)) = (unat w + 14) mod 2 ^ 32"
    by (simp only:)
  also have "\<dots> = (if unat w + 14 < 2 ^ 32 then unat w + 14 else unat w + 14 - 2 ^ 32)"
    using w by (simp add: mod_if)
  finally show ?thesis .
qed

lemma buildFrame_header:
  assumes "14 \<le> n"
  shows "do {
     frame \<leftarrow> write_at 0 (writeU32BE a) (replicate n 0);
     frame \<leftarrow> write_at 4 [v] frame;
     frame \<leftarrow> write_at 5 [t] frame;
     frame \<leftarrow> write_at 6 (writeU32BE b) frame;
     frame \<leftarrow> write_at 10 (writeU32BE c) frame;
     k frame
   } = k (writeU32BE a @ [v, t] @ writeU32BE b @ writeU32BE c @ replicate (n - 14) 0)"
proof -
  obtain m where "n = 14 + m" using assms le_Suc_ex by blast
  then show ?thesis by (simp add: write_at_def drop_replicate)
qed

lemma buildFrame_eq:
  assumes "length pl < 2 ^ 32 - 14"
  shows "buildFrame type msgId pl = Some (frame_bytes type msgId pl)"
proof -
  define w where "w = (word_of_nat (length pl) :: u32)"
  have w: "unat w = length pl" using assms by (simp add: w_def unat_len_u32)
  have n: "unat (FRAME_LENGTH_PREFIX_SIZE + (ENVELOPE_SIZE + w)) = 14 + length pl"
    using assms by (simp add: unat_total_size w)
  have z: "w > 0 \<longleftrightarrow> pl \<noteq> []"
    using w by (auto simp: word_less_nat_alt)
  define hdr where "hdr = writeU32BE (ENVELOPE_SIZE + w) @ [PROTOCOL_VERSION, MessageType_to_byte type]
    @ writeU32BE msgId @ writeU32BE w"
  have h: "length hdr = 14" by (simp add: hdr_def)
  have "buildFrame type msgId pl =
      (if w > 0 then write_at 14 (take (unat w) (bytes_of_string pl)) (hdr @ replicate (length pl) 0)
       else Some (hdr @ replicate (length pl) 0))"
    unfolding buildFrame_def Let_def w_def [symmetric] n
    by (subst buildFrame_header) (simp_all add: hdr_def)
  also have "\<dots> = Some (hdr @ bytes_of_string pl)"
    using z w write_at_prefix [of hdr "bytes_of_string pl" "length pl" 0] by (simp add: h bytes_of_string_def)
  also have "hdr @ bytes_of_string pl = frame_bytes type msgId pl"
    by (simp add: hdr_def frame_bytes_def PROTOCOL_VERSION_def ENVELOPE_SIZE_def w_def)
  finally show ?thesis .
qed

lemma write_at_length: "write_at off src buf = Some buf' \<Longrightarrow> length buf' = length buf \<and> off + length src \<le> length buf"
  by (auto simp: write_at_def split: if_splits)

lemma buildFrame_overflow:
  assumes "2 ^ 32 - 14 \<le> unat (word_of_nat (length pl) :: u32)"
  shows "buildFrame type msgId pl = None"
proof (rule ccontr)
  define w where "w = (word_of_nat (length pl) :: u32)"
  have "unat w < 2 ^ 32" using unsigned_less [of w] by simp
  then have n: "unat (FRAME_LENGTH_PREFIX_SIZE + (ENVELOPE_SIZE + w)) < 14"
    using assms by (simp add: unat_total_size flip: w_def)
  assume "buildFrame type msgId pl \<noteq> None"
  then obtain f where "buildFrame type msgId pl = Some f" by blast
  then obtain f1 f2 f3 f4 f5 where
    "write_at 0 (writeU32BE (ENVELOPE_SIZE + w))
       (replicate (unat (FRAME_LENGTH_PREFIX_SIZE + (ENVELOPE_SIZE + w))) 0) = Some f1"
    "write_at 4 [PROTOCOL_VERSION] f1 = Some f2" "write_at 5 [MessageType_to_byte type] f2 = Some f3"
    "write_at 6 (writeU32BE msgId) f3 = Some f4" "write_at 10 (writeU32BE w) f4 = Some f5"
    unfolding buildFrame_def Let_def w_def [symmetric] bind_eq_Some_conv by blast
  then show False using n by (auto dest!: write_at_length)
qed

subsection \<open>Lemmas on the reading loop\<close>

lemma recv_io [simp]:
  "recv n s = (r, s') \<Longrightarrow> io_tx s' = io_tx s \<and> io_sent s' = io_sent s"
  by (auto simp: recv_def split: prod.splits recv_result.splits)

lemma readExact_loop_ok:
  assumes "length buf \<le> n" "n - length buf \<le> length (rx_bytes (io_rx s))"
  shows "\<exists>s'. readExact_loop n buf s = (OK, buf @ take (n - length buf) (rx_bytes (io_rx s)), s')
    \<and> rx_bytes (io_rx s') = drop (n - length buf) (rx_bytes (io_rx s))
    \<and> rx_end (io_rx s') = rx_end (io_rx s) \<and> io_tx s' = io_tx s \<and> io_sent s' = io_sent s"
  using assms
proof (induction n buf s rule: readExact_loop.induct)
  case (1 n buf s)
  show ?case
  proof (cases "length buf < n")
    case False
    with "1.prems" show ?thesis by (simp add: readExact_loop.simps)
  next
    case True
    obtain r es where r: "recv_event (n - length buf) (io_rx s) = (r, es)" by fastforce
    show ?thesis
    proof (cases r)
      case (RecvBytes bs)
      have ne: "bs \<noteq> []"
        using recv_event_zero [of "n - length buf" "io_rx s" es] r RecvBytes True "1.prems" by fastforce
      note b = recv_event_bytes [OF r [unfolded RecvBytes] ne]
      have rv: "recv (n - length buf) s = (RecvBytes bs, s\<lparr>io_rx := es\<rparr>)"
        by (simp add: recv_def r RecvBytes)
      have len: "length bs \<le> n - length buf" using b(3) True by simp
      have p: "length (buf @ bs) \<le> n"
        "n - length (buf @ bs) \<le> length (rx_bytes (io_rx (s\<lparr>io_rx := es\<rparr>)))"
        using b True len "1.prems" by simp_all
      obtain s' where s': "readExact_loop n (buf @ bs) (s\<lparr>io_rx := es\<rparr>)
          = (OK, (buf @ bs) @ take (n - length (buf @ bs)) (rx_bytes es), s')"
        "rx_bytes (io_rx s') = drop (n - length (buf @ bs)) (rx_bytes es)"
        "rx_end (io_rx s') = rx_end es" "io_tx s' = io_tx s" "io_sent s' = io_sent s"
        using "1.IH"(1) [OF True rv [symmetric] refl ne p] by auto
      show ?thesis
        using s' b True len ne by (simp add: readExact_loop.simps [of n buf s] rv)
    next
      case (RecvErr e)
      have e: "e = EINTR"
        using recv_event_err(1) [OF r [unfolded RecvErr]] True "1.prems" by fastforce
      note b = recv_event_intr [OF r [unfolded RecvErr e]]
      have rv: "recv (n - length buf) s = (RecvErr EINTR, s\<lparr>io_rx := es, io_errno := EINTR\<rparr>)"
        by (simp add: recv_def r RecvErr e)
      show ?thesis
        using "1.IH"(2) [OF True rv [symmetric] refl refl] b "1.prems" True
        by (simp add: readExact_loop.simps [of n buf s] rv True)
    qed
  qed
qed

lemma readExact_loop_short:
  assumes "length (rx_bytes (io_rx s)) < n - length buf"
  shows "\<exists>s'. readExact_loop n buf s = (end_status (rx_end (io_rx s)), buf @ rx_bytes (io_rx s), s')
    \<and> io_tx s' = io_tx s \<and> io_sent s' = io_sent s"
  using assms
proof (induction n buf s rule: readExact_loop.induct)
  case (1 n buf s)
  then have True: "length buf < n" by simp
  obtain r es where r: "recv_event (n - length buf) (io_rx s) = (r, es)" by fastforce
  show ?case
  proof (cases r)
    case (RecvBytes bs)
    have rv: "recv (n - length buf) s = (RecvBytes bs, s\<lparr>io_rx := es\<rparr>)"
      by (simp add: recv_def r RecvBytes)
    show ?thesis
    proof (cases "bs = []")
      case True
      then show ?thesis
        using recv_event_zero [of "n - length buf" "io_rx s" es] r RecvBytes \<open>length buf < n\<close>
        by (simp add: readExact_loop.simps [of n buf s] rv)
    next
      case False
      note b = recv_event_bytes [OF r [unfolded RecvBytes] False]
      show ?thesis
        using "1.IH"(1) [OF True rv [symmetric] refl False] b True "1.prems"
        by (simp add: readExact_loop.simps [of n buf s] rv False)
    qed
  next
    case (RecvErr e)
    have rv: "recv (n - length buf) s = (RecvErr e, s\<lparr>io_rx := es, io_errno := e\<rparr>)"
      by (simp add: recv_def r RecvErr)
    show ?thesis
    proof (cases "e = EINTR")
      case e: True
      note b = recv_event_intr [OF r [unfolded RecvErr e]]
      show ?thesis
        using "1.IH"(2) [OF True rv [symmetric] refl e] b "1.prems"
        by (simp add: readExact_loop.simps [of n buf s] rv True e)
    next
      case False
      then show ?thesis
        using recv_event_err [OF r [unfolded RecvErr] False] True
        by (simp add: readExact_loop.simps [of n buf s] rv)
    qed
  qed
qed

lemma io_advanced_kept: "io_advanced k s s' \<Longrightarrow> io_kept s s'"
  by (simp add: io_advanced_def)

lemma io_kept_refl [simp]: "io_kept s s"
  by (simp add: io_kept_def)

lemma io_kept_trans: "io_kept s s' \<Longrightarrow> io_kept s' s'' \<Longrightarrow> io_kept s s''"
  by (simp add: io_kept_def)

lemma io_advanced_trans: "io_advanced k s s' \<Longrightarrow> io_advanced m s' s'' \<Longrightarrow> io_advanced (k + m) s s''"
  by (simp add: io_advanced_def io_kept_def add.commute)

lemma io_advanced_0 [simp]: "io_advanced 0 s s"
  by (simp add: io_advanced_def)

lemma readExact_ok:
  assumes "n \<le> length (rx_bytes (io_rx s))"
  obtains s' where "readExact n s = (OK, take n (rx_bytes (io_rx s)), s')" "io_advanced n s s'"
  using readExact_loop_ok [of "[]" n s] assms by (auto simp: readExact_def io_advanced_def io_kept_def)

lemma readExact_short:
  assumes "length (rx_bytes (io_rx s)) < n"
  obtains s' where "readExact n s = (end_status (rx_end (io_rx s)), rx_bytes (io_rx s), s')" "io_kept s s'"
  using readExact_loop_short [of s n "[]"] assms by (auto simp: readExact_def io_kept_def)

lemma end_status_not_OK [simp]: "end_status e \<noteq> OK"
  by (cases e) auto

lemma fr_status_failure [simp]: "fr_status (frame_failure st) = st"
  by (simp add: frame_failure_def)

subsection \<open>readFrame refines stream\_frame\<close>

lemma load_u32_take: "4 \<le> n \<Longrightarrow> 4 \<le> length bs \<Longrightarrow> load_u32 (take n bs) = load_u32 bs"
proof -
  assume n: "4 \<le> n" and l: "4 \<le> length bs"
  obtain k where "n = 4 + k" using n le_Suc_ex by blast
  then have m: "n = Suc (Suc (Suc (Suc k)))" by simp
  show ?thesis using l by (cases bs rule: load_u32.cases) (simp_all add: m)
qed

lemma envelope_bounds:
  fixes w :: u32
  shows "w < ENVELOPE_SIZE \<longleftrightarrow> unat w < 10"
    and "\<not> w < ENVELOPE_SIZE \<Longrightarrow> unat (w - ENVELOPE_SIZE) = unat w - 10"
    and "\<not> w < ENVELOPE_SIZE \<Longrightarrow> w - ENVELOPE_SIZE > MAX_FRAME_PAYLOAD \<longleftrightarrow> 65546 < unat w"
proof -
  show "w < ENVELOPE_SIZE \<longleftrightarrow> unat w < 10"
    by (simp add: ENVELOPE_SIZE_def word_less_nat_alt)
  assume "\<not> w < ENVELOPE_SIZE"
  then show u: "unat (w - ENVELOPE_SIZE) = unat w - 10"
    by (simp add: ENVELOPE_SIZE_def unat_sub not_less)
  show "w - ENVELOPE_SIZE > MAX_FRAME_PAYLOAD \<longleftrightarrow> 65546 < unat w"
    unfolding word_less_nat_alt u by (auto simp: MAX_FRAME_PAYLOAD_def)
qed

lemma readFrame_payload_ok:
  assumes "unat p \<le> length (rx_bytes (io_rx s))"
  obtains s' where "readFrame_payload p t i s = (\<lparr>fr_status = OK, fr_messageType = t, fr_messageId = i,
      fr_payload = string_of_bytes (take (unat p) (rx_bytes (io_rx s)))\<rparr>, s')" "io_advanced (unat p) s s'"
proof (cases "p = 0")
  case True
  then show ?thesis by (intro that [of s]) (auto simp: readFrame_payload_def string_of_bytes_def)
next
  case False
  obtain s' where "readExact (unat p) s = (OK, take (unat p) (rx_bytes (io_rx s)), s')"
    "io_advanced (unat p) s s'" using assms by (rule readExact_ok)
  then show ?thesis
    using False by (intro that [of s']) (simp_all add: readFrame_payload_def word_gt_0)
qed

lemma readFrame_payload_short:
  assumes "length (rx_bytes (io_rx s)) < unat p"
  obtains s' where "readFrame_payload p t i s = (frame_failure (end_status (rx_end (io_rx s))), s')" "io_kept s s'"
proof -
  obtain s' where "readExact (unat p) s = (end_status (rx_end (io_rx s)), rx_bytes (io_rx s), s')"
    "io_kept s s'" using assms by (rule readExact_short)
  moreover have "p > 0" using assms by (cases "p = 0") (auto simp: word_gt_0)
  ultimately show ?thesis by (intro that [of s']) (simp_all add: readFrame_payload_def)
qed

lemma readFrame_envelope_step:
  assumes "10 \<le> length (rx_bytes (io_rx s))"
  obtains s' where "readFrame_envelope p s = readFrame_payload p (MessageType_of_byte (rx_bytes (io_rx s) ! 1))
      (ntohl (load_u32 (drop 2 (rx_bytes (io_rx s))))) s'" "io_advanced 10 s s'"
proof -
  obtain s' where r: "readExact 10 s = (OK, take 10 (rx_bytes (io_rx s)), s')" and a: "io_advanced 10 s s'"
    using assms by (rule readExact_ok)
  have l: "load_u32 (drop 2 (take 10 (rx_bytes (io_rx s)))) = load_u32 (drop 2 (rx_bytes (io_rx s)))"
    using assms by (simp add: drop_take load_u32_take)
  show ?thesis
    using that [OF _ a] assms by (simp add: readFrame_envelope_def ENVELOPE_SIZE_def r l)
qed

lemma readFrame_envelope_ok:
  assumes "10 + unat p \<le> length (rx_bytes (io_rx s))"
  obtains s' where "readFrame_envelope p s =
        (\<lparr>fr_status = OK, fr_messageType = MessageType_of_byte (rx_bytes (io_rx s) ! 1),
           fr_messageId = ntohl (load_u32 (drop 2 (rx_bytes (io_rx s)))),
           fr_payload = string_of_bytes (take (unat p) (drop 10 (rx_bytes (io_rx s))))\<rparr>, s')"
    "io_advanced (10 + unat p) s s'"
proof -
  have "10 \<le> length (rx_bytes (io_rx s))" using assms by simp
  then obtain s1 where e: "readFrame_envelope p s = readFrame_payload p (MessageType_of_byte (rx_bytes (io_rx s) ! 1))
      (ntohl (load_u32 (drop 2 (rx_bytes (io_rx s))))) s1" and a: "io_advanced 10 s s1"
    by (rule readFrame_envelope_step)
  have b: "rx_bytes (io_rx s1) = drop 10 (rx_bytes (io_rx s))" using a by (simp add: io_advanced_def)
  have "unat p \<le> length (rx_bytes (io_rx s1))" using assms by (simp add: b)
  then obtain s2 where "readFrame_envelope p s =
      (\<lparr>fr_status = OK, fr_messageType = MessageType_of_byte (rx_bytes (io_rx s) ! 1),
         fr_messageId = ntohl (load_u32 (drop 2 (rx_bytes (io_rx s)))),
         fr_payload = string_of_bytes (take (unat p) (rx_bytes (io_rx s1)))\<rparr>, s2)"
    and "io_advanced (unat p) s1 s2"
    unfolding e by (rule readFrame_payload_ok)
  then show ?thesis unfolding b by (rule that [OF _ io_advanced_trans [OF a]])
qed

lemma readFrame_envelope_short:
  assumes "length (rx_bytes (io_rx s)) < 10 + unat p"
  obtains s' where "readFrame_envelope p s = (frame_failure (end_status (rx_end (io_rx s))), s')" "io_kept s s'"
proof (cases "10 \<le> length (rx_bytes (io_rx s))")
  case True
  then obtain s1 where e: "readFrame_envelope p s = readFrame_payload p (MessageType_of_byte (rx_bytes (io_rx s) ! 1))
      (ntohl (load_u32 (drop 2 (rx_bytes (io_rx s))))) s1" and a: "io_advanced 10 s s1"
    by (rule readFrame_envelope_step)
  have b: "rx_bytes (io_rx s1) = drop 10 (rx_bytes (io_rx s))" "rx_end (io_rx s1) = rx_end (io_rx s)"
    using a by (simp_all add: io_advanced_def)
  have "length (rx_bytes (io_rx s1)) < unat p" using assms True by (simp add: b)
  then obtain s2 where "readFrame_envelope p s = (frame_failure (end_status (rx_end (io_rx s1))), s2)"
    and "io_kept s1 s2"
    unfolding e by (rule readFrame_payload_short)
  then show ?thesis unfolding b by (rule that [OF _ io_kept_trans [OF io_advanced_kept [OF a]]])
next
  case False
  then obtain s' where "readExact 10 s = (end_status (rx_end (io_rx s)), rx_bytes (io_rx s), s')" "io_kept s s'"
    by (meson not_le readExact_short)
  then show ?thesis by (intro that [of s']) (simp_all add: readFrame_envelope_def ENVELOPE_SIZE_def)
qed

text \<open>The prefix decides: malformed lengths are refused with nothing but the prefix consumed.\<close>

lemma readFrame_prefix:
  assumes "4 \<le> length (rx_bytes (io_rx s))"
  defines "n \<equiv> frame_length (rx_bytes (io_rx s))"
  obtains s' where "readFrame s = (if n < 10 \<or> 65546 < n then (frame_failure IO_ERROR, s')
       else readFrame_envelope (word_of_nat (n - 10)) s')" "io_advanced 4 s s'"
proof -
  obtain s' where r: "readExact 4 s = (OK, take 4 (rx_bytes (io_rx s)), s')" and a: "io_advanced 4 s s'"
    using assms(1) by (rule readExact_ok)
  define w where "w = ntohl (load_u32 (take 4 (rx_bytes (io_rx s))))"
  have w: "unat w = n"
    using assms(1) by (simp add: w_def n_def frame_length_def load_u32_take)
  have "readFrame s = (if w < ENVELOPE_SIZE then (frame_failure IO_ERROR, s')
      else if w - ENVELOPE_SIZE > MAX_FRAME_PAYLOAD then (frame_failure IO_ERROR, s')
      else readFrame_envelope (w - ENVELOPE_SIZE) s')"
    by (simp add: readFrame_def FRAME_LENGTH_PREFIX_SIZE_def r Let_def flip: w_def)
  moreover have "w - ENVELOPE_SIZE = word_of_nat (n - 10)" if "\<not> w < ENVELOPE_SIZE"
    unfolding w [symmetric] envelope_bounds(2) [OF that, symmetric] by simp
  ultimately show ?thesis
    using envelope_bounds [of w] by (intro that [OF _ a]) (auto simp: w)
qed

lemma readFrame_stream:
  obtains s' where "readFrame s = (stream_frame (rx_bytes (io_rx s)) (rx_end (io_rx s)), s')" "io_kept s s'"
    "fr_status (stream_frame (rx_bytes (io_rx s)) (rx_end (io_rx s))) = OK \<Longrightarrow>
       io_advanced (4 + frame_length (rx_bytes (io_rx s))) s s'"
proof (cases "4 \<le> length (rx_bytes (io_rx s))")
  case False
  then obtain s' where "readExact 4 s = (end_status (rx_end (io_rx s)), rx_bytes (io_rx s), s')" "io_kept s s'"
    by (meson not_le readExact_short)
  then show ?thesis
    using False by (intro that [of s']) (simp_all add: readFrame_def stream_frame_def FRAME_LENGTH_PREFIX_SIZE_def)
next
  case True
  define n where "n = frame_length (rx_bytes (io_rx s))"
  obtain s1 where r: "readFrame s = (if n < 10 \<or> 65546 < n then (frame_failure IO_ERROR, s1)
       else readFrame_envelope (word_of_nat (n - 10)) s1)" and a: "io_advanced 4 s s1"
    using True unfolding n_def by (rule readFrame_prefix)
  have b: "rx_bytes (io_rx s1) = drop 4 (rx_bytes (io_rx s))" "rx_end (io_rx s1) = rx_end (io_rx s)"
    using a by (simp_all add: io_advanced_def)
  show ?thesis
  proof (cases "n < 10 \<or> 65546 < n")
    case bad: True
    then show ?thesis
      using True r io_advanced_kept [OF a] by (intro that [of s1]) (auto simp: stream_frame_def n_def)
  next
    case good: False
    define p where "p = (word_of_nat (n - 10) :: u32)"
    have rp: "readFrame s = readFrame_envelope p s1"
      by (simp only: r good if_False p_def)
    have p: "unat p = n - 10" unfolding p_def by (rule unat_len_u32) (use good in auto)
    show ?thesis
    proof (cases "10 + unat p \<le> length (rx_bytes (io_rx s1))")
      case full: True
      then obtain s2 where "readFrame_envelope p s1 =
          (\<lparr>fr_status = OK, fr_messageType = MessageType_of_byte (rx_bytes (io_rx s1) ! 1),
             fr_messageId = ntohl (load_u32 (drop 2 (rx_bytes (io_rx s1)))),
             fr_payload = string_of_bytes (take (unat p) (drop 10 (rx_bytes (io_rx s1))))\<rparr>, s2)"
        "io_advanced (10 + unat p) s1 s2" by (rule readFrame_envelope_ok)
      moreover have "io_advanced (4 + n) s s2"
        using io_advanced_trans [OF a calculation(2)] good p by simp
      ultimately show ?thesis
        using True good full rp p
        by (intro that [of s2]) (auto simp: stream_frame_def b n_def dest: io_advanced_kept)
    next
      case short: False
      then obtain s2 where "readFrame_envelope p s1 = (frame_failure (end_status (rx_end (io_rx s1))), s2)"
          "io_kept s1 s2" by (meson not_le readFrame_envelope_short)
      moreover have "stream_frame (rx_bytes (io_rx s)) (rx_end (io_rx s)) = frame_failure (end_status (rx_end (io_rx s)))"
        using True good short p by (auto simp: stream_frame_def b n_def)
      ultimately show ?thesis
        using rp io_kept_trans [OF io_advanced_kept [OF a]] by (intro that [of s2]) (simp_all add: b)
    qed
  qed
qed

subsection \<open>Frames as a codec\<close>

lemma frame_length_frame [simp]:
  "length pl < 2 ^ 32 - 10 \<Longrightarrow> frame_length (frame_bytes type msgId pl @ rest) = 10 + length pl"
  unfolding frame_length_def frame_bytes_def append_assoc ntohl_load_writeU32BE
  by (rule unat_len_u32) simp

lemma stream_frame_frame:
  assumes "length pl \<le> 65536"
  shows "stream_frame (frame_bytes type msgId pl @ rest) e =
    \<lparr>fr_status = OK, fr_messageType = MessageType_of_byte (MessageType_to_byte type),
     fr_messageId = msgId, fr_payload = pl\<rparr>"
proof -
  let ?f = "frame_bytes type msgId pl @ rest"
  have len: "frame_length ?f = 10 + length pl" using assms by simp
  have w: "writeU32BE v = [writeU32BE v ! 0, writeU32BE v ! 1, writeU32BE v ! 2, writeU32BE v ! 3]" for v
    by (simp add: writeU32BE_def)
  have five: "?f ! 5 = MessageType_to_byte type"
    unfolding frame_bytes_def by (subst w) simp
  have six: "drop 6 ?f = writeU32BE msgId @ writeU32BE (word_of_nat (length pl)) @ bytes_of_string pl @ rest"
    unfolding frame_bytes_def by (subst w) simp
  have rest: "drop 14 ?f = bytes_of_string pl @ rest"
    by (simp add: frame_bytes_def)
  show ?thesis
    using assms unfolding stream_frame_def len five six rest by simp
qed

interpretation frames: stream_codec encode_message decode_message wf_message
proof
  fix m :: message and rest
  assume m: "wf_message m"
  obtain type msgId pl where p: "m = (type, msgId, pl)" by (cases m)
  have "length pl \<le> 65536" "wf_type type" using m by (simp_all add: p)
  then show "decode_message (encode_message m @ rest) = Some (m, rest)"
    by (simp add: decode_message_def p stream_frame_frame)
next
  fix bs rest :: bytes and m
  assume "decode_message bs = Some (m, rest)"
  then have "fr_status (stream_frame bs RxEof) = OK" "rest = drop (4 + frame_length bs) bs"
    by (auto simp: decode_message_def Let_def split: if_splits)
  moreover from this have "4 \<le> length bs" by (auto simp: stream_frame_def split: if_splits)
  ultimately show "length rest < length bs" by simp
qed

subsection \<open>Lemmas on sending\<close>

lemma send_cases:
  assumes "send data s = (r, s')"
  shows "io_rx s' = io_rx s \<and>
    (case r of SendCount k \<Rightarrow> k \<le> length data \<and> io_sent s' = io_sent s @ take k data \<and> io_errno s' = io_errno s
     | SendErr e \<Rightarrow> io_sent s' = io_sent s \<and> TxErr e \<in> set (io_tx s))
    \<and> set (io_tx s') \<subseteq> set (io_tx s)"
  using assms by (cases "(length data, io_tx s)" rule: send_event.cases) (auto simp: send_def)

text \<open>Whatever the partial writes, a prefix of the data is sent, once and in order.\<close>

lemma sendAll_prefix:
  assumes "sendAll data s = (ok, s')"
  shows "\<exists>pre rest. data = pre @ rest \<and> io_sent s' = io_sent s @ pre \<and> (ok \<longleftrightarrow> rest = [])
    \<and> io_rx s' = io_rx s \<and> set (io_tx s') \<subseteq> set (io_tx s)"
  using assms
proof (induction data s arbitrary: ok s' rule: sendAll.induct)
  case (1 data s)
  show ?case
  proof (cases "data = []")
    case True
    with "1.prems" show ?thesis by (simp add: sendAll.simps)
  next
    case False
    obtain r s1 where r: "send data s = (r, s1)" by fastforce
    note sc = send_cases [OF r]
    show ?thesis
    proof (cases r)
      case (SendCount k)
      have "sendAll (drop k data) s1 = (ok, s')"
        using "1.prems" False by (simp add: sendAll.simps [of data s] r SendCount)
      then obtain pre rest where d: "drop k data = pre @ rest" and "io_sent s' = io_sent s1 @ pre"
          "ok \<longleftrightarrow> rest = []" "io_rx s' = io_rx s1" "set (io_tx s') \<subseteq> set (io_tx s1)"
        using "1.IH"(1) [OF False r [symmetric] SendCount] by blast
      moreover have "data = (take k data @ pre) @ rest"
        using append_take_drop_id [of k data, symmetric] unfolding d by simp
      ultimately show ?thesis
        using sc SendCount by (intro exI [of _ "take k data @ pre"] exI [of _ rest] conjI) auto
    next
      case (SendErr e)
      show ?thesis
      proof (cases "e = EINTR")
        case True
        have "sendAll data s1 = (ok, s')"
          using "1.prems" False True by (simp add: sendAll.simps [of data s] r SendErr)
        then show ?thesis
          using "1.IH"(2) [OF False r [symmetric] SendErr True] sc SendErr by fastforce
      next
        case notintr: False
        then show ?thesis
          using "1.prems" False sc by (auto simp: sendAll.simps [of data s] r SendErr)
      qed
    qed
  qed
qed

lemma sendAll_ok:
  assumes "\<forall>e. TxErr e \<in> set (io_tx s) \<longrightarrow> e = EINTR"
  shows "fst (sendAll data s)"
  using assms
proof (induction data s rule: sendAll.induct)
  case (1 data s)
  show ?case
  proof (cases "data = []")
    case True
    then show ?thesis by (simp add: sendAll.simps)
  next
    case False
    obtain r s1 where r: "send data s = (r, s1)" by fastforce
    note sc = send_cases [OF r]
    show ?thesis
    proof (cases r)
      case (SendCount k)
      then have "\<forall>e. TxErr e \<in> set (io_tx s1) \<longrightarrow> e = EINTR" using sc "1.prems" by auto
      then show ?thesis
        using "1.IH"(1) [OF False r [symmetric] SendCount] False
        by (simp add: sendAll.simps [of data s] r SendCount)
    next
      case (SendErr e)
      then have e: "e = EINTR" and "\<forall>e. TxErr e \<in> set (io_tx s1) \<longrightarrow> e = EINTR"
        using sc "1.prems" by auto
      then show ?thesis
        using "1.IH"(2) [OF False r [symmetric] SendErr e] False
        by (simp add: sendAll.simps [of data s] r SendErr)
    qed
  qed
qed

text \<open>A connection on which only signals disturb sending.\<close>

definition tx_ok :: "io \<Rightarrow> bool" where
  "tx_ok s \<longleftrightarrow> (\<forall>e. TxErr e \<in> set (io_tx s) \<longrightarrow> e = EINTR)"

lemma sendAll_frame:
  shows "io_rx (snd (sendAll data s)) = io_rx s" "tx_ok s \<Longrightarrow> tx_ok (snd (sendAll data s))"
    "tx_ok s \<Longrightarrow> io_sent (snd (sendAll data s)) = io_sent s @ data"
proof -
  obtain ok s' where p: "sendAll data s = (ok, s')" by fastforce
  note q = sendAll_prefix [OF p]
  show "io_rx (snd (sendAll data s)) = io_rx s" "tx_ok s \<Longrightarrow> tx_ok (snd (sendAll data s))"
    using q by (auto simp: p tx_ok_def)
  assume "tx_ok s"
  then have "ok" using sendAll_ok [of s data] by (simp add: p tx_ok_def)
  then show "io_sent (snd (sendAll data s)) = io_sent s @ data" using q by (auto simp: p)
qed

text \<open>What \<open>readFrame\<close> returns and leaves, in terms of the decoder.\<close>

lemma stream_frame_decode:
  "decode_message bs =
     (if fr_status (stream_frame bs e) = OK
      then Some ((fr_messageType (stream_frame bs e), fr_messageId (stream_frame bs e), fr_payload (stream_frame bs e)),
                 drop (4 + frame_length bs) bs) else None)"
  by (auto simp: decode_message_def stream_frame_def Let_def)

lemma readFrame_decode:
  assumes "readFrame s = (fr, s')"
  shows "fr = stream_frame (rx_bytes (io_rx s)) (rx_end (io_rx s))" "io_kept s s'"
    "fr_status fr = OK \<Longrightarrow> decode_message (rx_bytes (io_rx s)) =
       Some ((fr_messageType fr, fr_messageId fr, fr_payload fr), rx_bytes (io_rx s'))
       \<and> rx_end (io_rx s') = rx_end (io_rx s)"
    "fr_status fr \<noteq> OK \<Longrightarrow> decode_message (rx_bytes (io_rx s)) = None"
proof -
  obtain s1 where r: "readFrame s = (stream_frame (rx_bytes (io_rx s)) (rx_end (io_rx s)), s1)" "io_kept s s1"
    "fr_status (stream_frame (rx_bytes (io_rx s)) (rx_end (io_rx s))) = OK \<Longrightarrow>
       io_advanced (4 + frame_length (rx_bytes (io_rx s))) s s1"
    using readFrame_stream [of s] by blast
  have e: "fr = stream_frame (rx_bytes (io_rx s)) (rx_end (io_rx s))" "s' = s1" using r(1) assms by simp_all
  show "fr = stream_frame (rx_bytes (io_rx s)) (rx_end (io_rx s))" "io_kept s s'" using e r by simp_all
  show "fr_status fr = OK \<Longrightarrow> decode_message (rx_bytes (io_rx s)) =
       Some ((fr_messageType fr, fr_messageId fr, fr_payload fr), rx_bytes (io_rx s'))
       \<and> rx_end (io_rx s') = rx_end (io_rx s)"
    using r(3) unfolding e by (subst stream_frame_decode [of _ "rx_end (io_rx s)"]) (simp add: io_advanced_def)
  show "fr_status fr \<noteq> OK \<Longrightarrow> decode_message (rx_bytes (io_rx s)) = None"
    unfolding e by (subst stream_frame_decode [of _ "rx_end (io_rx s)"]) simp
qed

lemma decode_encoded_messages:
  "(\<forall>m \<in> set ms. wf_message m) \<Longrightarrow> decode_all decode_message (encode_many encode_message ms) = (ms, [])"
  using frames.decode_all_stream [of ms "[]"] by (simp add: decode_message_def stream_frame_def Let_def)

section \<open>Properties\<close>

definition chunked_io :: "bytes \<Rightarrow> bytes \<Rightarrow> io" where
  "chunked_io a b = \<lparr>io_rx = [RxData a, RxErr EINTR, RxData b, RxEof], io_tx = [TxErr EINTR, TxAccept 3], io_sent = [], io_errno = E_NONE\<rparr>"

lemma chunked_io_bytes: "a \<noteq> [] \<Longrightarrow> b \<noteq> [] \<Longrightarrow> rx_bytes (io_rx (chunked_io a b)) = a @ b"
  by (simp add: chunked_io_def)

text \<open>
  C20. \<^verbatim>\<open>readFrame\<close> depends on the bytes of the stream only, not on how the kernel cuts them or
  how often a signal interrupts: its result is that of the decoder \<open>stream_frame\<close> on the bytes up
  to the point where the stream breaks off. It never sends.
\<close>

theorem readFrame_refines_stream:
  "fst (readFrame s) = stream_frame (rx_bytes (io_rx s)) (rx_end (io_rx s)) \<and> io_sent (snd (readFrame s)) = io_sent s"
proof -
  obtain f s' where rf: "readFrame s = (f, s')" by fastforce
  show ?thesis using readFrame_decode(1,2) [OF rf] by (simp add: rf io_kept_def)
qed

text \<open>
  C19. Frames survive the wire. If the stream starts with a frame that \<^verbatim>\<open>buildFrame\<close> made for a
  payload of at most 64 KiB, in any chunks, \<^verbatim>\<open>readFrame\<close> returns its type, identifier and payload
  and leaves exactly the bytes after it.
\<close>

theorem frame_roundtrip:
  assumes "buildFrame type i pl = Some frame" "rx_bytes (io_rx s) = frame @ rest" "wf_type type" "length pl \<le> 65536"
  shows "\<exists>s'. readFrame s = (\<lparr>fr_status = OK, fr_messageType = type, fr_messageId = i, fr_payload = pl\<rparr>, s')
    \<and> rx_bytes (io_rx s') = rest \<and> rx_end (io_rx s') = rx_end (io_rx s)"
proof -
  have f: "rx_bytes (io_rx s) = frame_bytes type i pl @ rest" using assms by (simp add: buildFrame_eq)
  obtain fr s' where rf: "readFrame s = (fr, s')" by fastforce
  note d = readFrame_decode [OF rf]
  have fr: "fr = \<lparr>fr_status = OK, fr_messageType = type, fr_messageId = i, fr_payload = pl\<rparr>"
    using d(1) assms(3) stream_frame_frame [OF assms(4)] by (simp add: f)
  have "decode_message (frame_bytes type i pl @ rest) = Some ((type, i, pl), rest)"
    using frames.decode_encode [of "(type, i, pl)" rest] assms(3,4) by simp
  then show ?thesis using d(3) rf by (simp add: fr f)
qed

lemma frame_roundtrip_witness:
  "\<exists>s'. readFrame (chunked_io (take 5 (frame_bytes ACK 7 ''hi'')) (drop 5 (frame_bytes ACK 7 ''hi''))) =
     (\<lparr>fr_status = OK, fr_messageType = ACK, fr_messageId = 7, fr_payload = ''hi''\<rparr>, s')"
proof -
  let ?f = "frame_bytes ACK 7 ''hi''"
  have "?f \<noteq> []" "drop 5 ?f \<noteq> []" using length_frame_bytes [of ACK 7 "''hi''"] by (auto simp del: length_frame_bytes)
  then have "rx_bytes (io_rx (chunked_io (take 5 ?f) (drop 5 ?f))) = ?f @ []" by (simp add: chunked_io_bytes)
  moreover have "buildFrame ACK 7 ''hi'' = Some ?f" by (rule buildFrame_eq) simp
  ultimately show ?thesis using frame_roundtrip [of ACK 7 "''hi''" ?f "chunked_io (take 5 ?f) (drop 5 ?f)" "[]"] by auto
qed

text \<open>The wire format as numbers: the four bytes of a number, the most significant first, and the codes of the message types.\<close>

definition big_endian :: "nat \<Rightarrow> bytes" where
  "big_endian n = map (\<lambda>k. word_of_nat (n div 256 ^ k mod 256)) [3, 2, 1, 0]"

definition type_code :: "MessageType \<Rightarrow> nat" where
  "type_code t = (case t of REGISTER \<Rightarrow> 1 | ACK \<Rightarrow> 2 | ERROR_MSG \<Rightarrow> 3 | QUERY_NODE \<Rightarrow> 4 | LIST_NODES \<Rightarrow> 5 | HEARTBEAT \<Rightarrow> 6
     | OTHER_TYPE b \<Rightarrow> unat b)"

lemma writeU32BE_big_endian: "writeU32BE v = big_endian (unat v)"
proof -
  have b: "ucast (drop_bit k v AND 0xFF) = (word_of_nat (unat v div 2 ^ k mod 256) :: byte)" for k
  proof -
    have m: "(0xFF :: u32) = mask 8" by (simp add: mask_eq_exp_minus_1)
    have "unat (ucast (take_bit 8 (drop_bit k v)) :: byte) = take_bit 8 (drop_bit k (unat v))"
      using unsigned_less [of v, where 'a = nat]
      by (simp add: unsigned_ucast_eq unsigned_take_bit_eq unsigned_drop_bit_eq take_bit_nat_eq_self)
    also have "\<dots> = unat (word_of_nat (unat v div 2 ^ k mod 256) :: byte)"
      by (simp add: drop_bit_eq_div take_bit_eq_mod unat_of_nat)
    finally show ?thesis unfolding m take_bit_eq_mask [symmetric] word_unat_eq_iff .
  qed
  then show ?thesis using b [of 0] by (simp add: writeU32BE_def big_endian_def)
qed

lemma type_code_byte: "MessageType_to_byte t = word_of_nat (type_code t)"
  by (cases t) (simp_all add: type_code_def)

text \<open>
  C22. The wire layout. For a payload below 4 GiB - 14 bytes \<^verbatim>\<open>buildFrame\<close> writes the length prefix
  (the payload and the ten bytes of the envelope), protocol version 1, the code of the type, the identifier
  and the payload length, each number as four bytes with the most significant first, and then the payload.
\<close>

theorem buildFrame_layout:
  assumes "length pl < 2 ^ 32 - 14"
  shows "buildFrame type i pl = Some (big_endian (10 + length pl) @ [1, word_of_nat (type_code type)]
    @ big_endian (unat i) @ big_endian (length pl) @ map (\<lambda>c. word_of_nat (of_char c)) pl)"
proof -
  have "unat (word_of_nat (10 + length pl) :: u32) = 10 + length pl" "unat (word_of_nat (length pl) :: u32) = length pl"
    using assms by (intro unat_len_u32, simp)+
  then show ?thesis
    using buildFrame_eq [OF assms]
    by (simp add: frame_bytes_def writeU32BE_big_endian type_code_byte bytes_of_string_def byte_of_char_def del: of_nat_add)
qed

lemma buildFrame_layout_witness:
  "buildFrame ACK 7 ''hi'' = Some ([0, 0, 0, 12, 1, 2, 0, 0, 0, 7, 0, 0, 0, 2] @ bytes_of_string ''hi'')"
  using buildFrame_layout [of "''hi''" ACK 7] by (simp add: big_endian_def type_code_def bytes_of_string_def byte_of_char_def)

text \<open>
  The size computation wraps. For a payload of 4 GiB - 14 bytes up to 4 GiB the 32-bit sum of the sizes overflows,
  the buffer is too small, and \<^verbatim>\<open>buildFrame\<close> writes outside it.
\<close>

theorem buildFrame_wraps:
  assumes "2 ^ 32 - 14 \<le> length pl" "length pl < 2 ^ 32"
  shows "buildFrame type i pl = None"
  by (rule buildFrame_overflow) (use assms in \<open>simp only: unat_len_u32\<close>)

lemma buildFrame_wraps_witness: "buildFrame ACK 7 (replicate (2 ^ 32 - 14) CHR ''x'') = None"
  by (rule buildFrame_wraps) (unfold length_replicate, simp_all)

text \<open>
  C23. \<^verbatim>\<open>sendAll\<close> sends a prefix of the data, in order and without repetition, and reports success
  exactly when the prefix is everything; partial writes and interrupts alone never make it fail.
\<close>

theorem sendAll_complete:
  "(\<exists>pre rest. data = pre @ rest \<and> io_sent (snd (sendAll data s)) = io_sent s @ pre \<and> (fst (sendAll data s) \<longleftrightarrow> rest = []))
   \<and> (tx_ok s \<longrightarrow> fst (sendAll data s))"
proof -
  obtain ok s' where "sendAll data s = (ok, s')" by fastforce
  then show ?thesis using sendAll_prefix [of data s ok s'] sendAll_ok [of s data] by (auto simp: tx_ok_def)
qed

lemma sendAll_complete_witness: "fst (sendAll [1, 2, 3, 4, 5] (chunked_io [] []))"
proof -
  have "tx_ok (chunked_io [] [])" by (simp add: tx_ok_def chunked_io_def)
  then show ?thesis using sendAll_complete [of "[1, 2, 3, 4, 5]" "chunked_io [] []"] by blast
qed

text \<open>
  The framing is unambiguous: two sequences of messages with the same bytes on the wire are the same sequence.
\<close>

theorem streams_determine_messages:
  assumes "encode_many encode_message ms = encode_many encode_message ms'"
    and "\<forall>m \<in> set ms. wf_message m" "\<forall>m \<in> set ms'. wf_message m"
  shows "ms = ms'"
  using decode_encoded_messages [OF assms(2)] decode_encoded_messages [OF assms(3)] unfolding assms(1) by (metis prod.inject)

lemma streams_determine_messages_witness:
  "encode_many encode_message [(ACK, 1, ''a'')] \<noteq> encode_many encode_message [(ACK, 1, ''''), (ACK, 1, '''')]"
  using streams_determine_messages [of "[(ACK, 1, ''a'')]" "[(ACK, 1, ''''), (ACK, 1, '''')]"] by auto

text \<open>
  C21. What is read is a well-formed message. Whatever bytes arrive, a frame that \<^verbatim>\<open>readFrame\<close> accepts
  has a type and a payload of at most 65536 bytes, \<^verbatim>\<open>buildFrame\<close> can build a frame from it, and the
  bytes taken off the stream are that frame, up to the version and the inner payload length, which
  are not checked.
\<close>

theorem accepted_frame_wellformed:
  assumes "readFrame s = (fr, s')" "fr_status fr = OK"
  shows "wf_message (fr_messageType fr, fr_messageId fr, fr_payload fr)
    \<and> (\<exists>f version len. buildFrame (fr_messageType fr) (fr_messageId fr) (fr_payload fr) = Some f \<and> length len = 4
        \<and> rx_bytes (io_rx s) = take 4 f @ [version] @ take 5 (drop 5 f) @ len @ drop 14 f @ rx_bytes (io_rx s'))"
proof -
  let ?bs = "rx_bytes (io_rx s)"
  let ?n = "frame_length ?bs - 10"
  note d = readFrame_decode [OF assms(1)]
  have fr: "fr = stream_frame ?bs (rx_end (io_rx s))" "rx_bytes (io_rx s') = drop (4 + frame_length ?bs) ?bs"
    using d(1) d(3) [OF assms(2)] by (auto simp: decode_message_def Let_def split: if_splits)
  have b: "10 \<le> frame_length ?bs" "frame_length ?bs \<le> 65546" "4 + frame_length ?bs \<le> length ?bs"
    and t: "fr_messageType fr = MessageType_of_byte (?bs ! 5)" "fr_messageId fr = ntohl (load_u32 (drop 6 ?bs))"
      "fr_payload fr = string_of_bytes (take ?n (drop 14 ?bs))"
    using fr(1) assms(2) by (auto simp: stream_frame_def split: if_splits)
  have pl: "length (fr_payload fr) = ?n" "bytes_of_string (fr_payload fr) = take ?n (drop 14 ?bs)"
    using b t(3) by simp_all
  let ?f = "frame_bytes (fr_messageType fr) (fr_messageId fr) (fr_payload fr)"
  have f: "buildFrame (fr_messageType fr) (fr_messageId fr) (fr_payload fr) = Some ?f" using pl b by (intro buildFrame_eq) simp
  have "writeU32BE (word_of_nat (10 + ?n)) = take 4 ?bs" "writeU32BE (fr_messageId fr) = take 4 (drop 6 ?bs)"
    using writeU32BE_load [of ?bs] writeU32BE_load [of "drop 6 ?bs"] b t(2) by (simp_all add: frame_length_def)
  then have p: "take 4 ?f = take 4 ?bs" "take 5 (drop 5 ?f) = ?bs ! 5 # take 4 (drop 6 ?bs)" "drop 14 ?f = take ?n (drop 14 ?bs)"
    using pl t(1) b by (simp_all add: frame_bytes_def)
  have "?bs = take 4 ?bs @ [?bs ! 4] @ (?bs ! 5 # take 4 (drop 6 ?bs)) @ take 4 (drop 10 ?bs) @ take ?n (drop 14 ?bs)
      @ drop (4 + frame_length ?bs) ?bs"
  proof -
    have "drop 14 ?bs = take ?n (drop 14 ?bs) @ drop (4 + frame_length ?bs) ?bs"
      using append_take_drop_id [of ?n "drop 14 ?bs"] b by simp
    moreover have "drop 10 ?bs = take 4 (drop 10 ?bs) @ drop 14 ?bs" using append_take_drop_id [of 4 "drop 10 ?bs"] by simp
    moreover have "drop 6 ?bs = take 4 (drop 6 ?bs) @ drop 10 ?bs" using append_take_drop_id [of 4 "drop 6 ?bs"] by simp
    moreover have "drop 4 ?bs = ?bs ! 4 # ?bs ! 5 # drop 6 ?bs"
      using b Cons_nth_drop_Suc [of 4 ?bs] Cons_nth_drop_Suc [of 5 ?bs] by simp
    ultimately show ?thesis using append_take_drop_id [of 4 ?bs] by simp
  qed
  then have "?bs = take 4 ?f @ [?bs ! 4] @ take 5 (drop 5 ?f) @ take 4 (drop 10 ?bs) @ drop 14 ?f @ rx_bytes (io_rx s')"
    using p fr(2) by simp
  moreover have "wf_message (fr_messageType fr, fr_messageId fr, fr_payload fr)" using pl(1) b t(1) by simp
  moreover have "length (take 4 (drop 10 ?bs)) = 4" using b by simp
  ultimately show ?thesis using f by blast
qed

lemma accepted_frame_wellformed_witness:
  "wf_message (fr_messageType (fst (readFrame (chunked_io (frame_bytes ACK 7 ''hi'') [9]))), 7, ''hi'')"
proof -
  obtain fr s' where r: "readFrame (chunked_io (frame_bytes ACK 7 ''hi'') [9]) = (fr, s')" by fastforce
  have "rx_bytes (io_rx (chunked_io (frame_bytes ACK 7 ''hi'') [9])) = frame_bytes ACK 7 ''hi'' @ [9]"
    by (rule chunked_io_bytes) (simp_all add: frame_bytes_def)
  then have "fr = \<lparr>fr_status = OK, fr_messageType = ACK, fr_messageId = 7, fr_payload = ''hi''\<rparr>"
    using readFrame_decode(1) [OF r] by (simp add: stream_frame_frame MessageType_of_byte_def)
  then show ?thesis using accepted_frame_wellformed [OF r] r by simp
qed

end
