(* ===== verification/PrometheusMetrics.thy ===== *)
theory PrometheusMetrics
  imports Logger MessageSerializer
begin

text \<open>
  \<^verbatim>\<open>src/prometheusMetrics.cpp\<close>. The Prometheus client library is not part of the repository: what
  the code does to it is recorded as the list of calls it makes, each with the index of the
  counter and histogram and the observed duration in nanoseconds. \<open>Impl_new\<close> is what the
  constructor registers: two families and, at each index, a counter and a histogram with the label of
  an operation. The bucket boundaries are in nanoseconds too (the source has them in seconds). Whether the exposer can be
  constructed is an argument of \<open>metrics_start\<close>.
\<close>

record metrics = logger +
  mt_calls :: "(nat \<times> int) list"
  mt_exposer :: "u16 option"
  mt_stderr :: "string list"

definition kOpCount :: nat where "kOpCount = 5"

definition kLabels :: "string list" where
  "kLabels = [''REGISTER'', ''QUERY_NODE'', ''LIST_NODES'', ''HEARTBEAT'', ''UNKNOWN'']"

definition defaultLatencyBuckets :: "int list" where
  "defaultLatencyBuckets =
     [50000, 100000, 250000, 500000, 1000000, 2500000, 5000000, 10000000, 25000000, 50000000, 100000000, 250000000,
      500000000, 1000000000, 2500000000, 5000000000]"

type_synonym labels = "(string \<times> string) list"

record family =
  fam_name :: string
  fam_help :: string

record Impl =
  counterFamily :: family
  histogramFamily :: family
  counters :: "labels list"
  histograms :: "(labels \<times> int list) list"

definition Impl_new :: Impl where
  "Impl_new =
     (let buckets = defaultLatencyBuckets; labels = (\<lambda>i. [(''operation'', kLabels ! i)])
      in \<lparr>counterFamily = \<lparr>fam_name = ''eop_messages_total'',
            fam_help = ''Total EOP protocol messages handled after a successful frame read''\<rparr>,
          histogramFamily = \<lparr>fam_name = ''eop_message_duration_seconds'',
            fam_help = ''Wall time to handle one EOP message (seconds), excluding frame read''\<rparr>,
          counters = map labels [0..<kOpCount],
          histograms = map (\<lambda>i. (labels i, buckets)) [0..<kOpCount]\<rparr>)"

fun messageTypeIndex :: "MessageType \<Rightarrow> nat" where
  "messageTypeIndex REGISTER = 0"
| "messageTypeIndex QUERY_NODE = 1"
| "messageTypeIndex LIST_NODES = 2"
| "messageTypeIndex HEARTBEAT = 3"
| "messageTypeIndex _ = 4"

definition recordMessage :: "MessageType \<Rightarrow> int \<Rightarrow> 'a metrics_scheme \<Rightarrow> 'a metrics_scheme" where
  "recordMessage type elapsed w =
     (let idx = messageTypeIndex type in w\<lparr>mt_calls := mt_calls w @ [(idx, elapsed)]\<rparr>)"

text \<open>The outcome of \<^verbatim>\<open>make_unique<Exposer>\<close>: it is constructed, or throws with a text.\<close>

datatype exposer_outcome = ExposerOk | ExposerThrows string

definition metrics_start :: "exposer_outcome \<Rightarrow> u16 \<Rightarrow> 'a metrics_scheme \<Rightarrow> 'a metrics_scheme" where
  "metrics_start outcome port w =
     (if port = 0 then w
      else if mt_exposer w \<noteq> None then w
      else (case outcome of
              ExposerOk \<Rightarrow>
                w\<lparr>mt_exposer := Some port,
                  mt_stderr := mt_stderr w @
                    [''[INFO] prometheusMetrics: /metrics on http://0.0.0.0:'' @ dec_of_nat (unat port) @ ''/metrics'']\<rparr>
            | ExposerThrows what \<Rightarrow>
                w\<lparr>mt_exposer := None,
                  mt_stderr := mt_stderr w @
                    [''[WARN] prometheusMetrics: failed to start exposer on port '' @ dec_of_nat (unat port)
                       @ '': '' @ what]\<rparr>))"

definition metrics_shutdown :: "'a metrics_scheme \<Rightarrow> 'a metrics_scheme" where
  "metrics_shutdown w = w\<lparr>mt_exposer := None\<rparr>"

lemma messageTypeIndex_bound: "messageTypeIndex t < kOpCount"
  by (cases t) (simp_all add: kOpCount_def)

text \<open>The label a message type is counted under: its own name, or \<^verbatim>\<open>UNKNOWN\<close> for a type that is not a request.\<close>

definition operation_label :: "MessageType \<Rightarrow> string" where
  "operation_label t =
     (case t of REGISTER \<Rightarrow> ''REGISTER'' | QUERY_NODE \<Rightarrow> ''QUERY_NODE'' | LIST_NODES \<Rightarrow> ''LIST_NODES'' | HEARTBEAT \<Rightarrow> ''HEARTBEAT''
      | _ \<Rightarrow> ''UNKNOWN'')"

lemma kLabels_all: "length kLabels = kOpCount" "distinct kLabels"
  by (simp_all add: kLabels_def kOpCount_def)

lemma series_counters: "counters Impl_new = map (\<lambda>l. [(''operation'', l)]) kLabels"
  by (rule nth_equalityI) (simp_all add: Impl_new_def kLabels_all(1) Let_def)

lemma series_histograms: "histograms Impl_new = map (\<lambda>l. ([(''operation'', l)], defaultLatencyBuckets)) kLabels"
  by (rule nth_equalityI) (simp_all add: Impl_new_def kLabels_all(1) Let_def)

lemma series_distinct: "distinct (counters Impl_new)" "distinct (map fst (histograms Impl_new))"
  using kLabels_all(2) by (simp_all add: series_counters series_histograms distinct_map inj_on_def comp_def)

lemma series_of_type:
  "counters Impl_new ! messageTypeIndex t = [(''operation'', operation_label t)]"
  "histograms Impl_new ! messageTypeIndex t = ([(''operation'', operation_label t)], defaultLatencyBuckets)"
  by (cases t; simp add: series_counters series_histograms kLabels_def operation_label_def)+

lemma buckets_increasing: "sorted_wrt (<) defaultLatencyBuckets"
  by (simp add: defaultLatencyBuckets_def)

text \<open>The value of the counter with the given labels after the calls recorded so far.\<close>

definition counter_value :: "labels \<Rightarrow> 'a metrics_scheme \<Rightarrow> nat" where
  "counter_value ls w = length (filter (\<lambda>call. counters Impl_new ! fst call = ls) (mt_calls w))"

lemma counter_value_calls:
  assumes "mt_calls w' = mt_calls w @ es" "map fst es = map messageTypeIndex ts"
  shows "counter_value [(''operation'', l)] w' = counter_value [(''operation'', l)] w + length (filter (\<lambda>t. operation_label t = l) ts)"
proof -
  let ?P = "\<lambda>i. counters Impl_new ! i = [(''operation'', l)]"
  have "length (filter (\<lambda>call. ?P (fst call)) es) = length (filter ?P (map fst es))"
    by (simp add: filter_map comp_def)
  also have "\<dots> = length (filter (\<lambda>t. operation_label t = l) ts)"
    by (simp add: assms(2) filter_map comp_def series_of_type)
  finally show ?thesis by (simp add: counter_value_def assms(1))
qed

end
