(* ===== verification/NodeRegistry.thy ===== *)
theory NodeRegistry
  imports Prelude "HOL-Library.AList"
begin

text \<open>
  \<^verbatim>\<open>src/nodeRegistry.cpp\<close> and \<^verbatim>\<open>include/nodeRegistry.hpp\<close>. The \<^verbatim>\<open>unordered_map\<close> is an association list
  whose order carries no meaning. Every method holds the registry's mutex for its whole body, so
  a method is one atomic step and a run of the server is a sequence of them, whatever the
  threads; \<open>run_registry\<close> executes such a sequence. Clock readings inside a method are arguments.

  The locale \<open>registry_laws\<close> is what the handlers and the heartbeat monitor rely on; the registry
  is its interpretation.
\<close>

subsection \<open>Data\<close>

datatype NodeStatus = ONLINE | OFFLINE

datatype RegisterResult = REG_OK | REG_ERR_DUPLICATE

text \<open>Time points of \<^verbatim>\<open>system_clock\<close>: nanoseconds since the epoch.\<close>

type_synonym time_point = int

record NodeEntry =
  ne_node_id :: string
  ne_bunker_name :: string
  ne_ip_address :: string
  ne_capacity :: u64
  ne_status :: NodeStatus
  ne_last_seen_at :: time_point

type_synonym registry = "(string \<times> NodeEntry) list"

subsection \<open>Operations\<close>

definition registerNode :: "NodeEntry \<Rightarrow> registry \<Rightarrow> RegisterResult \<times> registry" where
  "registerNode entry m_entries =
     (if ne_node_id entry = [] then (REG_ERR_DUPLICATE, m_entries)
      else (case map_of m_entries (ne_node_id entry) of
              Some it \<Rightarrow>
                (if ne_status it = ONLINE then (REG_ERR_DUPLICATE, m_entries)
                 else (REG_OK, AList.update (ne_node_id entry) (entry\<lparr>ne_status := ONLINE\<rparr>) m_entries))
            | None \<Rightarrow> (REG_OK, m_entries @ [(ne_node_id entry, entry\<lparr>ne_status := ONLINE\<rparr>)])))"

definition queryNode :: "string \<Rightarrow> registry \<Rightarrow> NodeEntry option" where
  "queryNode nodeId m_entries = map_of m_entries nodeId"

definition listNodes :: "registry \<Rightarrow> NodeEntry list" where
  "listNodes m_entries = map snd m_entries"

definition setOffline :: "time_point \<Rightarrow> string \<Rightarrow> registry \<Rightarrow> registry" where
  "setOffline now nodeId m_entries =
     (if nodeId = [] then m_entries
      else (case map_of m_entries nodeId of
              Some it \<Rightarrow> AList.update nodeId (it\<lparr>ne_status := OFFLINE, ne_last_seen_at := now\<rparr>) m_entries
            | None \<Rightarrow> m_entries))"

definition updateLastSeen :: "time_point \<Rightarrow> string \<Rightarrow> registry \<Rightarrow> bool \<times> registry" where
  "updateLastSeen now nodeId m_entries =
     (if nodeId = [] then (False, m_entries)
      else (case map_of m_entries nodeId of
              Some it \<Rightarrow>
                (if ne_status it = ONLINE
                 then (True, AList.update nodeId (it\<lparr>ne_last_seen_at := now\<rparr>) m_entries)
                 else (False, m_entries))
            | None \<Rightarrow> (False, m_entries)))"

definition isOffline :: "string \<Rightarrow> registry \<Rightarrow> bool" where
  "isOffline nodeId m_entries =
     (case map_of m_entries nodeId of None \<Rightarrow> False | Some it \<Rightarrow> ne_status it = OFFLINE)"

definition registry_contains :: "string \<Rightarrow> registry \<Rightarrow> bool" where
  "registry_contains nodeId m_entries = (map_of m_entries nodeId \<noteq> None)"

text \<open>A history: the writing methods in the order in which their locks were taken.\<close>

datatype registry_op =
  Op_register NodeEntry | Op_setOffline time_point string | Op_updateLastSeen time_point string

fun apply_registry_op :: "registry_op \<Rightarrow> registry \<Rightarrow> registry" where
  "apply_registry_op (Op_register e) r = snd (registerNode e r)"
| "apply_registry_op (Op_setOffline t k) r = setOffline t k r"
| "apply_registry_op (Op_updateLastSeen t k) r = snd (updateLastSeen t k r)"

fun run_registry :: "registry_op list \<Rightarrow> registry \<Rightarrow> registry" where
  "run_registry [] r = r"
| "run_registry (x # xs) r = run_registry xs (apply_registry_op x r)"

text \<open>Well-formedness: one entry per key, stored under its own non-empty identifier.\<close>

definition wf_registry :: "registry \<Rightarrow> bool" where
  "wf_registry r \<longleftrightarrow> distinct (map fst r) \<and> (\<forall>(k, e) \<in> set r. ne_node_id e = k \<and> k \<noteq> [])"

subsection \<open>The interface\<close>

locale registry_laws =
  fixes reg :: "NodeEntry \<Rightarrow> 'r \<Rightarrow> RegisterResult \<times> 'r"
    and query :: "string \<Rightarrow> 'r \<Rightarrow> NodeEntry option"
    and nodes :: "'r \<Rightarrow> NodeEntry list"
    and offline :: "time_point \<Rightarrow> string \<Rightarrow> 'r \<Rightarrow> 'r"
    and seen :: "time_point \<Rightarrow> string \<Rightarrow> 'r \<Rightarrow> bool \<times> 'r"
    and invar :: "'r \<Rightarrow> bool"
  assumes reg_result: "invar r \<Longrightarrow> fst (reg e r) = REG_OK \<longleftrightarrow>
      ne_node_id e \<noteq> [] \<and> (\<forall>x. query (ne_node_id e) r = Some x \<longrightarrow> ne_status x = OFFLINE)"
    and query_reg: "invar r \<Longrightarrow> query k (snd (reg e r)) =
      (if fst (reg e r) = REG_OK \<and> k = ne_node_id e then Some (e\<lparr>ne_status := ONLINE\<rparr>) else query k r)"
    and query_offline: "invar r \<Longrightarrow> query k (offline t k' r) =
      (if k = k' then map_option (\<lambda>x. x\<lparr>ne_status := OFFLINE, ne_last_seen_at := t\<rparr>) (query k r) else query k r)"
    and seen_result: "invar r \<Longrightarrow> fst (seen t k r) = (\<exists>x. query k r = Some x \<and> ne_status x = ONLINE)"
    and query_seen: "invar r \<Longrightarrow> query k (snd (seen t k' r)) =
      (if k = k' \<and> fst (seen t k' r) then map_option (\<lambda>x. x\<lparr>ne_last_seen_at := t\<rparr>) (query k r) else query k r)"
    and nodes_query: "invar r \<Longrightarrow> e \<in> set (nodes r) \<longleftrightarrow> query (ne_node_id e) r = Some e"
    and nodes_distinct: "invar r \<Longrightarrow> distinct (map ne_node_id (nodes r))"
    and query_id: "invar r \<Longrightarrow> query k r = Some x \<Longrightarrow> ne_node_id x = k \<and> k \<noteq> []"
    and invar_reg: "invar r \<Longrightarrow> invar (snd (reg e r))"
    and invar_offline: "invar r \<Longrightarrow> invar (offline t k r)"
    and invar_seen: "invar r \<Longrightarrow> invar (snd (seen t k r))"
begin

lemma reg_ok_query:
  "invar r \<Longrightarrow> fst (reg e r) = REG_OK \<Longrightarrow>
   query (ne_node_id e) (snd (reg e r)) = Some (e\<lparr>ne_status := ONLINE\<rparr>)"
  by (simp add: query_reg)

lemma reg_duplicate: "invar r \<Longrightarrow> fst (reg e r) \<noteq> REG_OK \<Longrightarrow> query k (snd (reg e r)) = query k r"
  by (simp add: query_reg)

text \<open>Nothing is ever removed.\<close>

lemma reg_keeps: "invar r \<Longrightarrow> query k r \<noteq> None \<Longrightarrow> query k (snd (reg e r)) \<noteq> None"
  by (simp add: query_reg)

lemma offline_keeps: "invar r \<Longrightarrow> query k r \<noteq> None \<Longrightarrow> query k (offline t k' r) \<noteq> None"
  by (auto simp: query_offline)

lemma seen_keeps: "invar r \<Longrightarrow> query k r \<noteq> None \<Longrightarrow> query k (snd (seen t k' r)) \<noteq> None"
  by (auto simp: query_seen)

text \<open>Marking a list of nodes offline, one exclusive section after the other.\<close>

lemma fold_offline:
  "invar r \<Longrightarrow> invar (fold (\<lambda>(t, k). offline t k) ts r) \<and>
   (query k (fold (\<lambda>(t, k). offline t k) ts r) =
     (if k \<in> set (map snd ts)
      then map_option (\<lambda>x. x\<lparr>ne_status := OFFLINE,
             ne_last_seen_at := fst (last (filter (\<lambda>(t, k'). k' = k) ts))\<rparr>) (query k r)
      else query k r))"
proof (induction ts arbitrary: r)
  case Nil
  then show ?case by simp
next
  case (Cons p ts)
  obtain t k' where p: "p = (t, k')" by (cases p)
  have f: "k \<in> snd ` set ts \<longleftrightarrow> filter (\<lambda>(t, k'). k' = k) ts \<noteq> []"
    by (force simp: filter_empty_conv)
  show ?case
    using Cons.IH [OF invar_offline [OF Cons.prems, of t k']] Cons.prems f
    by (auto simp: p query_offline option.map_comp o_def)
qed

end

subsection \<open>The registry provides it\<close>

lemma wf_registry_empty [simp]: "wf_registry []"
  by (simp add: wf_registry_def)

lemma map_of_key: "wf_registry r \<Longrightarrow> map_of r k = Some e \<Longrightarrow> ne_node_id e = k \<and> k \<noteq> []"
  by (auto simp: wf_registry_def dest!: map_of_SomeD)

lemma wf_registry_update:
  assumes "wf_registry r" "ne_node_id e = k" "k \<noteq> []"
  shows "wf_registry (AList.update k e r)"
proof -
  have "set (AList.update k e r) \<subseteq> insert (k, e) (set r)"
    by (induction r) auto
  with assms show ?thesis
    by (auto simp: wf_registry_def distinct_update)
qed

lemma wf_registry_snoc:
  "wf_registry r \<Longrightarrow> map_of r (ne_node_id e) = None \<Longrightarrow> ne_node_id e \<noteq> [] \<Longrightarrow>
   wf_registry (r @ [(ne_node_id e, e)])"
  by (auto simp: wf_registry_def map_of_eq_None_iff)

lemma wf_registerNode [inv_intros]: "wf_registry r \<Longrightarrow> wf_registry (snd (registerNode e r))"
  using wf_registry_snoc [of r "e\<lparr>ne_status := ONLINE\<rparr>"]
  by (auto simp: registerNode_def intro!: wf_registry_update split: option.splits)

lemma wf_setOffline [inv_intros]: "wf_registry r \<Longrightarrow> wf_registry (setOffline t k r)"
  by (auto simp: setOffline_def intro!: wf_registry_update dest: map_of_key split: option.splits)

lemma wf_updateLastSeen [inv_intros]: "wf_registry r \<Longrightarrow> wf_registry (snd (updateLastSeen t k r))"
  by (auto simp: updateLastSeen_def intro!: wf_registry_update dest: map_of_key split: option.splits)

interpretation nreg: registry_laws registerNode queryNode listNodes setOffline updateLastSeen wf_registry
proof
  fix r e k k' t x
  assume wf: "wf_registry r"
  show "fst (registerNode e r) = REG_OK \<longleftrightarrow>
      ne_node_id e \<noteq> [] \<and> (\<forall>x. queryNode (ne_node_id e) r = Some x \<longrightarrow> ne_status x = OFFLINE)"
    by (auto simp: registerNode_def queryNode_def split: option.splits) (metis NodeStatus.exhaust)
  show "queryNode k (snd (registerNode e r)) =
      (if fst (registerNode e r) = REG_OK \<and> k = ne_node_id e then Some (e\<lparr>ne_status := ONLINE\<rparr>)
       else queryNode k r)"
    by (auto simp: registerNode_def queryNode_def update_conv' map_add_def split: option.splits)
  show "queryNode k (setOffline t k' r) =
      (if k = k' then map_option (\<lambda>x. x\<lparr>ne_status := OFFLINE, ne_last_seen_at := t\<rparr>) (queryNode k r)
       else queryNode k r)"
    using map_of_key [OF wf] by (auto simp: setOffline_def queryNode_def update_conv' split: option.splits)
  show "fst (updateLastSeen t k r) = (\<exists>x. queryNode k r = Some x \<and> ne_status x = ONLINE)"
    using map_of_key [OF wf] by (auto simp: updateLastSeen_def queryNode_def split: option.splits)
  show "queryNode k (snd (updateLastSeen t k' r)) =
      (if k = k' \<and> fst (updateLastSeen t k' r) then map_option (\<lambda>x. x\<lparr>ne_last_seen_at := t\<rparr>) (queryNode k r)
       else queryNode k r)"
    by (auto simp: updateLastSeen_def queryNode_def update_conv' split: option.splits)
  show "e \<in> set (listNodes r) \<longleftrightarrow> queryNode (ne_node_id e) r = Some e"
    using wf by (force simp: listNodes_def queryNode_def wf_registry_def)
  show "distinct (map ne_node_id (listNodes r))"
  proof -
    have "map ne_node_id (listNodes r) = map fst r"
      using wf by (auto simp: listNodes_def wf_registry_def)
    then show ?thesis using wf by (simp add: wf_registry_def)
  qed
  show "queryNode k r = Some x \<Longrightarrow> ne_node_id x = k \<and> k \<noteq> []"
    using wf by (simp add: queryNode_def map_of_key)
  show "wf_registry (snd (registerNode e r))" "wf_registry (setOffline t k r)"
    "wf_registry (snd (updateLastSeen t k r))"
    using wf by (rule inv_intros)+
qed

subsection \<open>Histories\<close>

lemma wf_apply_registry_op: "wf_registry r \<Longrightarrow> wf_registry (apply_registry_op x r)"
  by (cases x) (simp_all add: inv_intros)

lemma wf_run_registry: "wf_registry r \<Longrightarrow> wf_registry (run_registry xs r)"
  by (induction xs arbitrary: r) (simp_all add: wf_apply_registry_op)

lemma apply_registry_op_keeps:
  "wf_registry r \<Longrightarrow> queryNode k r \<noteq> None \<Longrightarrow> queryNode k (apply_registry_op x r) \<noteq> None"
  by (cases x) (simp_all add: nreg.reg_keeps nreg.offline_keeps nreg.seen_keeps)

lemma run_registry_keeps:
  "wf_registry r \<Longrightarrow> queryNode k r \<noteq> None \<Longrightarrow> queryNode k (run_registry xs r) \<noteq> None"
proof (induction xs arbitrary: r)
  case (Cons x xs)
  show ?case
    using Cons.IH [OF wf_apply_registry_op [OF Cons.prems(1)] apply_registry_op_keeps [OF Cons.prems]] by simp
qed simp

lemma run_registry_append: "run_registry (xs @ ys) r = run_registry ys (run_registry xs r)"
  by (induction xs arbitrary: r) simp_all

text \<open>A heartbeat moves the time a node was last seen, never its status.\<close>

definition status_of :: "string \<Rightarrow> registry \<Rightarrow> NodeStatus option" where
  "status_of k r = map_option ne_status (queryNode k r)"

fun is_heartbeat_op :: "registry_op \<Rightarrow> bool" where
  "is_heartbeat_op (Op_updateLastSeen t k) = True"
| "is_heartbeat_op _ = False"

lemma status_setOffline:
  "wf_registry r \<Longrightarrow> status_of k (setOffline t k' r) = (if k = k' then map_option (\<lambda>_. OFFLINE) (status_of k r) else status_of k r)"
  by (simp add: status_of_def nreg.query_offline option.map_comp comp_def)

lemma status_updateLastSeen: "wf_registry r \<Longrightarrow> status_of k (snd (updateLastSeen t k' r)) = status_of k r"
  by (simp add: status_of_def nreg.query_seen option.map_comp comp_def)

lemma heartbeats_keep_status: "wf_registry r \<Longrightarrow> list_all is_heartbeat_op xs \<Longrightarrow> status_of k (run_registry xs r) = status_of k r"
proof (induction xs arbitrary: r)
  case (Cons x xs)
  have "status_of k (apply_registry_op x r) = status_of k r" using Cons.prems by (cases x) (simp_all add: status_updateLastSeen)
  then show ?case using Cons.IH [OF wf_apply_registry_op] Cons.prems by simp
qed simp

section \<open>Properties\<close>

text \<open>
  C29. Whatever threads do to the registry, every entry stays under its own non-empty identifier, no identifier
  occurs twice, and a node that has been registered once is never lost.
\<close>

theorem registry_history_safe:
  "wf_registry (run_registry ops []) \<and>
   (queryNode k (run_registry ops []) \<noteq> None \<longrightarrow> queryNode k (run_registry (ops @ ops') []) \<noteq> None)"
proof -
  have "wf_registry (run_registry ops [])" by (rule wf_run_registry) simp
  then show ?thesis using run_registry_keeps by (simp add: run_registry_append)
qed

lemma registry_history_safe_witness:
  "queryNode ''a'' (run_registry ([Op_register \<lparr>ne_node_id = ''a'', ne_bunker_name = [], ne_ip_address = [], ne_capacity = 1,
      ne_status = OFFLINE, ne_last_seen_at = 0\<rparr>] @ [Op_setOffline 5 ''a'', Op_updateLastSeen 6 ''a'']) []) \<noteq> None"
proof -
  let ?e = "\<lparr>ne_node_id = ''a'', ne_bunker_name = [], ne_ip_address = [], ne_capacity = 1, ne_status = OFFLINE, ne_last_seen_at = 0\<rparr>"
  have "queryNode ''a'' (run_registry [Op_register ?e] []) \<noteq> None" by (simp add: registerNode_def queryNode_def)
  then show ?thesis
    using registry_history_safe [of "[Op_register ?e]" "''a''" "[Op_setOffline 5 ''a'', Op_updateLastSeen 6 ''a'']"] by blast
qed

text \<open>
  C30. Registration. A node is accepted exactly if it has an identifier and is not already ONLINE;
  it is then ONLINE with the new fields, and no other node changes. A refused
  registration changes nothing.
\<close>

theorem registerNode_semantics:
  assumes "wf_registry r"
  shows "(fst (registerNode e r) = REG_OK \<longleftrightarrow>
      ne_node_id e \<noteq> [] \<and> (\<forall>x. queryNode (ne_node_id e) r = Some x \<longrightarrow> ne_status x = OFFLINE))
    \<and> queryNode k (snd (registerNode e r)) =
        (if fst (registerNode e r) = REG_OK \<and> k = ne_node_id e then Some (e\<lparr>ne_status := ONLINE\<rparr>) else queryNode k r)"
  using nreg.reg_result [OF assms] nreg.query_reg [OF assms] by blast

lemma registerNode_semantics_witness:
  "fst (registerNode \<lparr>ne_node_id = ''a'', ne_bunker_name = [], ne_ip_address = [], ne_capacity = 1,
      ne_status = OFFLINE, ne_last_seen_at = 0\<rparr> []) = REG_OK"
  using registerNode_semantics [of "[]" "\<lparr>ne_node_id = ''a'', ne_bunker_name = [], ne_ip_address = [], ne_capacity = 1,
      ne_status = OFFLINE, ne_last_seen_at = 0\<rparr>"] by (simp add: queryNode_def)

end
