(* ===== verification/World.thy ===== *)
theory World
  imports PrometheusMetrics NodeRegistry
begin

text \<open>
  The state that a worker thread sees while it serves one connection: the clocks, the tracing,
  logging and metrics of the theories below, the shared registry, the socket of the connection,
  the shared number of active connections and the descriptors closed so far. What other threads do to the registry in the
  meantime is the script \<open>w_interference\<close>: before each frame the worker handles, and before it
  marks its node offline, the next batch of registry operations of other threads takes effect.
  A handler makes one registry call, under the registry's mutex, so every interleaving of
  registry calls is such a script.

  The clock is read once by each registry call that stores a time, also when the node is not
  found; the readings are an arbitrary sequence, so nothing depends on that.
\<close>

record world = metrics +
  w_registry :: registry
  w_io :: io
  w_active :: u32
  w_closed :: "int list"
  w_interference :: "registry_op list list"

subsection \<open>Steps shared by the handlers\<close>

definition world_setOffline :: "string \<Rightarrow> 'a world_scheme \<Rightarrow> 'a world_scheme" where
  "world_setOffline nodeId w =
     (let (now, w) = system_now w in w\<lparr>w_registry := setOffline now nodeId (w_registry w)\<rparr>)"

definition world_updateLastSeen :: "string \<Rightarrow> 'a world_scheme \<Rightarrow> bool \<times> 'a world_scheme" where
  "world_updateLastSeen nodeId w =
     (let (now, w) = system_now w; (ok, r) = updateLastSeen now nodeId (w_registry w)
      in (ok, w\<lparr>w_registry := r\<rparr>))"

text \<open>The function \<^verbatim>\<open>sender\<close> handed to the handlers; they ignore its result.\<close>

definition send_frame :: "bytes \<Rightarrow> 'a world_scheme \<Rightarrow> 'a world_scheme" where
  "send_frame frame w = w\<lparr>w_io := snd (sendAll frame (w_io w))\<rparr>"

definition send_error ::
  "json_lib \<Rightarrow> u32 \<Rightarrow> ProtocolErrorCode \<Rightarrow> string \<Rightarrow> 'a world_scheme \<Rightarrow> 'a world_scheme option" where
  "send_error J messageId code description w = do {
     payload \<leftarrow> buildErrorPayload J
       \<lparr>err_refMessageId = messageId, err_errorCode = code, err_description = description\<rparr>;
     frame \<leftarrow> buildFrame ERROR_MSG messageId payload;
     Some (send_frame frame w)
   }"

text \<open>A block with a local \<^verbatim>\<open>OtelScope span(name)\<close>: the destructor runs when the block is left.\<close>

definition with_span ::
  "string \<Rightarrow> (OtelScope \<Rightarrow> 'a world_scheme \<Rightarrow> (OtelScope \<times> 'a world_scheme) option)
     \<Rightarrow> 'a world_scheme \<Rightarrow> 'a world_scheme option" where
  "with_span name body w = do {
     let (span, w) = OtelScope_operation name w;
     (span, w) \<leftarrow> body span w;
     Some (OtelScope_close span w)
   }"

definition scope_base :: "OtelScope \<Rightarrow> BaseFields" where
  "scope_base sc = \<lparr>bf_traceId = os_traceId sc, bf_spanId = os_spanId sc\<rparr>"

text \<open>The duration attribute: the difference of two readings of the steady clock in milliseconds.\<close>

definition set_duration :: "int \<Rightarrow> OtelScope \<Rightarrow> 'a world_scheme \<Rightarrow> OtelScope \<times> 'a world_scheme" where
  "set_duration startTime span w =
     (let (now, w) = steady_now w in (setAttribute ''duration_ms'' (IntValue (duration_ms (now - startTime))) span, w))"

definition interfere :: "'a world_scheme \<Rightarrow> 'a world_scheme" where
  "interfere w =
     (case w_interference w of
        [] \<Rightarrow> w
      | ops # rest \<Rightarrow> w\<lparr>w_registry := run_registry ops (w_registry w), w_interference := rest\<rparr>)"

definition next_batch :: "registry_op list list \<Rightarrow> registry_op list" where
  "next_batch os = (case os of [] \<Rightarrow> [] | b # _ \<Rightarrow> b)"

lemma interfere_view:
  "w_registry (interfere w) = run_registry (next_batch (w_interference w)) (w_registry w)"
  "w_interference (interfere w) = tl (w_interference w)"
  by (simp_all add: interfere_def next_batch_def split: list.splits)

subsection \<open>The state without its telemetry\<close>

text \<open>
  What is left of a state when the readings of clock and generator, the open and finished spans
  and the log lines are disregarded. The effect of an operation is an equation between cores.
\<close>

definition core :: "'a world_scheme \<Rightarrow> 'a world_scheme" where
  "core w = w\<lparr>h_reads := 0, h_draws := 0, ot_stack := [], ot_pending := [], ot_wakeups := 0, lg_stdout := []\<rparr>"

lemma core_telemetry [simp, frame_simps]:
  "core (w\<lparr>h_reads := a\<rparr>) = core w" "core (w\<lparr>h_draws := b\<rparr>) = core w" "core (w\<lparr>ot_stack := c\<rparr>) = core w"
  "core (w\<lparr>ot_pending := d\<rparr>) = core w" "core (w\<lparr>ot_wakeups := e\<rparr>) = core w" "core (w\<lparr>lg_stdout := f\<rparr>) = core w"
  by (simp_all add: core_def)

lemma core_state [simp, frame_simps]:
  "core (w\<lparr>w_registry := r\<rparr>) = core w\<lparr>w_registry := r\<rparr>" "core (w\<lparr>w_io := s\<rparr>) = core w\<lparr>w_io := s\<rparr>"
  "core (w\<lparr>w_active := n\<rparr>) = core w\<lparr>w_active := n\<rparr>" "core (w\<lparr>mt_calls := c\<rparr>) = core w\<lparr>mt_calls := c\<rparr>"
  "core (w\<lparr>w_interference := i\<rparr>) = core w\<lparr>w_interference := i\<rparr>" "core (w\<lparr>w_closed := c'\<rparr>) = core w\<lparr>w_closed := c'\<rparr>"
  by (simp_all add: core_def)

lemma core_fields [simp, frame_simps]:
  "w_registry (core w) = w_registry w" "w_io (core w) = w_io w" "w_active (core w) = w_active w"
  "mt_calls (core w) = mt_calls w" "w_interference (core w) = w_interference w"
  "w_closed (core w) = w_closed w" "lg_minLevel (core w) = lg_minLevel w" "h_system (core w) = h_system w"
  by (simp_all add: core_def)

lemma core_eqD:
  assumes "core w1 = core w"
  shows "w_registry w1 = w_registry w" "w_io w1 = w_io w" "w_active w1 = w_active w"
    "mt_calls w1 = mt_calls w" "w_interference w1 = w_interference w" "lg_minLevel w1 = lg_minLevel w"
    "w_closed w1 = w_closed w" "h_system w1 = h_system w"
  using assms by (metis core_fields)+

lemma core_interfere:
  "core (interfere w) = core w\<lparr>w_interference := w_interference (interfere w), w_registry := w_registry (interfere w)\<rparr>"
proof (cases "w_interference w")
  case Nil
  have "core w = core w\<lparr>w_interference := w_interference (core w), w_registry := w_registry (core w)\<rparr>"
    by (simp del: core_fields)
  then show ?thesis by (simp add: interfere_def Nil)
qed (simp add: interfere_def)

lemma interfere_stack [simp, frame_simps]:
  "ot_stack (interfere w) = ot_stack w" "ot_pending (interfere w) = ot_pending w" "w_io (interfere w) = w_io w"
  "w_active (interfere w) = w_active w" "w_closed (interfere w) = w_closed w" "mt_calls (interfere w) = mt_calls w"
  by (simp_all add: interfere_def split: list.splits)

lemma logged_frame [frame_simps]:
  assumes "logged w w'"
  shows "core w' = core w" "ot_stack w' = ot_stack w" "ot_pending w' = ot_pending w"
  using assms by (auto simp: logged_def)

lemma send_frame_simps [simp, frame_simps]:
  "core (send_frame f w) = core w\<lparr>w_io := snd (sendAll f (w_io w))\<rparr>"
  "ot_stack (send_frame f w) = ot_stack w" "ot_pending (send_frame f w) = ot_pending w"
  by (simp_all add: send_frame_def)

lemma set_duration_cases:
  obtains t where "set_duration t0 sc w =
    (setAttribute ''duration_ms'' (IntValue t) sc, w\<lparr>h_reads := Suc (h_reads w)\<rparr>)"
  by (simp add: set_duration_def steady_now_def)

subsection \<open>Spans\<close>

lemma with_span_cases:
  assumes "with_span name body w = Some w'"
  obtains sc w1 sc' w2 t where "opened name [] w sc" "core w1 = core w"
    "ot_stack w1 = ot_stack w @ [(os_traceId sc, os_spanId sc)]" "ot_pending w1 = ot_pending w"
    "body sc w1 = Some (sc', w2)" "core w' = core w2" "ot_stack w' = butlast (ot_stack w2)"
    "ot_pending w' = ot_pending w2 @ [finish_span sc' (dec_of_int t)]"
proof -
  obtain sc d where o: "scope_open name [] w =
       (sc, w\<lparr>h_draws := d, h_reads := Suc (h_reads w),
              ot_stack := ot_stack w @ [(os_traceId sc, os_spanId sc)]\<rparr>)" "opened name [] w sc"
    by (rule scope_open_cases)
  define w1 where "w1 = w\<lparr>h_draws := d, h_reads := Suc (h_reads w),
              ot_stack := ot_stack w @ [(os_traceId sc, os_spanId sc)]\<rparr>"
  obtain sc' w2 where b: "body sc w1 = Some (sc', w2)" "w' = OtelScope_close sc' w2"
    using assms by (auto simp: with_span_def OtelScope_operation_def o w1_def split: bind_splits)
  show thesis
    by (rule that [of sc w1 sc' w2 "h_system w2 (h_reads w2)"]) (simp_all add: o b w1_def [symmetric] OtelScope_close_eq, simp_all add: w1_def)
qed

lemma with_span_total:
  assumes "\<And>sc w1. opened name [] w sc \<Longrightarrow> core w1 = core w \<Longrightarrow>
      ot_stack w1 = ot_stack w @ [(os_traceId sc, os_spanId sc)] \<Longrightarrow> returns (body sc w1)"
  shows "returns (with_span name body w)"
proof -
  obtain sc d where o: "scope_open name [] w =
       (sc, w\<lparr>h_draws := d, h_reads := Suc (h_reads w),
              ot_stack := ot_stack w @ [(os_traceId sc, os_spanId sc)]\<rparr>)" "opened name [] w sc"
    by (rule scope_open_cases)
  have "returns (body sc (w\<lparr>h_draws := d, h_reads := Suc (h_reads w),
              ot_stack := ot_stack w @ [(os_traceId sc, os_spanId sc)]\<rparr>))"
    using o(2) by (rule assms) simp_all
  then show ?thesis by (auto simp: with_span_def OtelScope_operation_def o intro!: returns_bind split: prod.splits)
qed

text \<open>
  A block whose body, inside the span, turns the core into \<open>g\<close> of it and balances its scopes, does
  so as a whole.
\<close>

lemma with_span_effect:
  assumes "with_span name body w = Some w'"
    and "\<And>sc w1 sc' w2. opened name [] w sc \<Longrightarrow> core w1 = core w \<Longrightarrow> body sc w1 = Some (sc', w2) \<Longrightarrow>
      P (core w2) \<and> ot_stack w2 = ot_stack w1"
  shows "P (core w') \<and> ot_stack w' = ot_stack w"
  using assms(1)
proof (rule with_span_cases)
  fix sc w1 sc' w2 t
  assume a: "opened name [] w sc" "core w1 = core w" "ot_stack w1 = ot_stack w @ [(os_traceId sc, os_spanId sc)]"
    "body sc w1 = Some (sc', w2)" "core w' = core w2" "ot_stack w' = butlast (ot_stack w2)"
  show ?thesis using assms(2) [OF a(1,2,4)] a by simp
qed

subsection \<open>Replies\<close>

text \<open>The reply frame for a JSON value, and the value of an error reply, with the codes of the protocol written out.\<close>

type_synonym reply = "MessageType \<times> json"

definition reply_frame :: "json_lib \<Rightarrow> u32 \<Rightarrow> reply \<Rightarrow> bytes option" where
  "reply_frame J messageId rep = do { text \<leftarrow> dump J (snd rep); buildFrame (fst rep) messageId text }"

definition error_number :: "ProtocolErrorCode \<Rightarrow> u64" where
  "error_number code = (case code of ERR_DUPLICATE \<Rightarrow> 1 | ERR_NOT_FOUND \<Rightarrow> 2 | ERR_MALFORMED \<Rightarrow> 3 | ERR_SERVICE_UNAVAIL \<Rightarrow> 4
     | ERR_TIMEOUT \<Rightarrow> 5 | ERR_CAPACITY \<Rightarrow> 6 | ERR_INTERNAL \<Rightarrow> 255)"

definition error_reply :: "u32 \<Rightarrow> ProtocolErrorCode \<Rightarrow> string \<Rightarrow> reply" where
  "error_reply messageId code description =
     (ERROR_MSG, json_fields [
       (''ref_message_id'', JUInt (ucast messageId)),
       (''error_code'', JUInt (error_number code)),
       (''description'', JString description)])"

lemma error_number_byte: "ucast (ProtocolErrorCode_to_byte code) = error_number code"
  by (cases code) (simp_all add: error_number_def)

lemma send_error_reply:
  "send_error J messageId code description w = do {
     frame \<leftarrow> reply_frame J messageId (error_reply messageId code description);
     Some (send_frame frame w) }"
  by (simp add: send_error_def reply_frame_def error_reply_def buildErrorPayload_def error_number_byte Option.bind_assoc)

text \<open>
  The effect of a handler that answers a request: the reply is sent, the registry becomes \<open>r\<close>, and
  nothing else changes.
\<close>

definition answered :: "json_lib \<Rightarrow> u32 \<Rightarrow> reply \<Rightarrow> registry \<Rightarrow> 'a world_scheme \<Rightarrow> 'a world_scheme \<Rightarrow> bool" where
  "answered J messageId rep r w w' \<longleftrightarrow>
     (\<exists>frame. reply_frame J messageId rep = Some frame
        \<and> core w' = core w\<lparr>w_registry := r, w_io := snd (sendAll frame (w_io w))\<rparr>)
     \<and> ot_stack w' = ot_stack w"

lemma send_error_answered:
  "send_error J messageId code description w = Some w' \<Longrightarrow>
   answered J messageId (error_reply messageId code description) (w_registry w) w w'"
  by (auto simp: send_error_reply answered_def split: bind_splits)

lemma answered_core:
  assumes "answered J messageId rep r w0 w'" "core w0 = core w" "ot_stack w0 = ot_stack w"
  shows "answered J messageId rep r w w'"
  using assms core_eqD [OF assms(2)] by (simp add: answered_def)

lemma with_span_answered:
  assumes "with_span name body w = Some w'"
    and "\<And>sc w1 sc' w2. core w1 = core w \<Longrightarrow> body sc w1 = Some (sc', w2) \<Longrightarrow> answered J messageId rep r w1 w2"
  shows "answered J messageId rep r w w'"
  unfolding answered_def using assms(1)
proof (rule with_span_effect)
  fix sc w1 sc' w2
  assume c: "core w1 = core w" and b: "body sc w1 = Some (sc', w2)"
  show "(\<exists>frame. reply_frame J messageId rep = Some frame
        \<and> core w2 = core w\<lparr>w_registry := r, w_io := snd (sendAll frame (w_io w))\<rparr>) \<and> ot_stack w2 = ot_stack w1"
    using assms(2) [OF c b] c core_eqD [OF c] by (simp add: answered_def)
qed

subsection \<open>A sample state\<close>

text \<open>A worker's state before it serves a socket: clocks at zero, no telemetry yet, no other threads.\<close>

definition sample_world :: "registry \<Rightarrow> rx_event list \<Rightarrow> world" where
  "sample_world r rx =
     \<lparr>h_system = (\<lambda>_. 0), h_steady = (\<lambda>_. 0), h_reads = 0, h_rng = (\<lambda>_. 0), h_draws = 0,
      ot_stack = [], ot_pending = [], ot_wakeups = 0, lg_minLevel = INFO, lg_stdout = [],
      mt_calls = [], mt_exposer = None, mt_stderr = [],
      w_registry = r, w_io = \<lparr>io_rx = rx, io_tx = [], io_sent = [], io_errno = E_NONE\<rparr>,
      w_active = 1, w_closed = [], w_interference = []\<rparr>"

lemma sample_world_fields [simp]:
  "w_registry (sample_world r rx) = r" "io_rx (w_io (sample_world r rx)) = rx" "io_tx (w_io (sample_world r rx)) = []"
  "ot_stack (sample_world r rx) = []" "w_interference (sample_world r rx) = []"
  "h_system (sample_world r rx) = (\<lambda>_. 0)" "h_reads (sample_world r rx) = 0" "lg_minLevel (sample_world r rx) = INFO"
  by (simp_all add: sample_world_def)

end
