(* ===== verification/RegisterHandler.thy ===== *)
theory RegisterHandler
  imports World
begin

text \<open>
  \<^verbatim>\<open>src/registerHandler.cpp\<close>: the handler of REGISTER. \<open>register_spec\<close> is its contract: the reply and
  the new registry as a function of the payload and the registry, written without the definitions that model the code.
\<close>

definition FIELD_NODE_ID :: string where "FIELD_NODE_ID = ''node_id''"
definition FIELD_BUNKER_NAME :: string where "FIELD_BUNKER_NAME = ''bunker_name''"
definition FIELD_IP_ADDRESS :: string where "FIELD_IP_ADDRESS = ''ip_address''"
definition FIELD_CAPACITY :: string where "FIELD_CAPACITY = ''capacity''"

subsection \<open>The handler\<close>

text \<open>The condition of the validating \<^verbatim>\<open>if\<close>.\<close>

definition register_invalid :: "json \<Rightarrow> bool" where
  "register_invalid j \<longleftrightarrow>
     \<not> contains j FIELD_NODE_ID \<or> \<not> is_string (json_at j FIELD_NODE_ID)
     \<or> get_string (json_at j FIELD_NODE_ID) = []
     \<or> \<not> contains j FIELD_BUNKER_NAME \<or> \<not> is_string (json_at j FIELD_BUNKER_NAME)
     \<or> \<not> contains j FIELD_IP_ADDRESS \<or> \<not> is_string (json_at j FIELD_IP_ADDRESS)
     \<or> \<not> contains j FIELD_CAPACITY \<or> \<not> is_number_unsigned (json_at j FIELD_CAPACITY)"

definition register_entry :: "json \<Rightarrow> NodeEntry" where
  "register_entry j =
     \<lparr>ne_node_id = get_string (json_at j FIELD_NODE_ID),
      ne_bunker_name = get_string (json_at j FIELD_BUNKER_NAME),
      ne_ip_address = get_string (json_at j FIELD_IP_ADDRESS),
      ne_capacity = get_uint64 (json_at j FIELD_CAPACITY),
      ne_status = ONLINE, ne_last_seen_at = 0\<rparr>"

text \<open>The two early returns differ in the text for the span and the text for the client.\<close>

definition register_malformed ::
  "json_lib \<Rightarrow> u32 \<Rightarrow> string \<Rightarrow> string \<Rightarrow> string \<Rightarrow> OtelScope \<Rightarrow> 'a world_scheme
     \<Rightarrow> (OtelScope \<times> 'a world_scheme) option" where
  "register_malformed J messageId sessionId spanText description span w = do {
     let span = setAttribute ''result'' (StringValue ''ERROR'') span;
     let span = setAttribute ''error.code'' (StringValue ''ERR_MALFORMED'') span;
     let span = recordError spanText span;
     w \<leftarrow> send_error J messageId ERR_MALFORMED description w;
     w \<leftarrow> logNodeRegisterError J (scope_base span) \<lparr>rf_nodeId = [], rf_sessionId = sessionId, rf_reason = ''ERR_MALFORMED''\<rparr> w;
     Some (span, w)
   }"

definition register_finish ::
  "json_lib \<Rightarrow> u32 \<Rightarrow> string \<Rightarrow> string \<Rightarrow> RegisterResult \<Rightarrow> OtelScope \<Rightarrow> 'a world_scheme
     \<Rightarrow> (OtelScope \<times> 'a world_scheme) option" where
  "register_finish J messageId sessionId nodeId result span w =
     (if result = REG_OK then do {
        let span = setAttribute ''result'' (StringValue ''OK'') span;
        payload \<leftarrow> buildAckPayload J \<lparr>ack_refMessageId = messageId, ack_nodeId = nodeId\<rparr>;
        frame \<leftarrow> buildFrame ACK messageId payload;
        let w = send_frame frame w;
        w \<leftarrow> logNodeRegistered J (scope_base span) \<lparr>nf_nodeId = nodeId, nf_sessionId = sessionId\<rparr> w;
        Some (span, w)
      } else do {
        let span = setAttribute ''result'' (StringValue ''ERROR'') span;
        let span = setAttribute ''error.code'' (StringValue ''ERR_DUPLICATE'') span;
        let span = recordError (''Node '' @ nodeId @ '' already registered'') span;
        w \<leftarrow> send_error J messageId ERR_DUPLICATE (''Node '' @ nodeId @ '' already registered'') w;
        w \<leftarrow> logNodeRegisterError J (scope_base span) \<lparr>rf_nodeId = nodeId, rf_sessionId = sessionId, rf_reason = ''ERR_DUPLICATE''\<rparr> w;
        Some (span, w)
      })"

definition register_body ::
  "json_lib \<Rightarrow> int \<Rightarrow> u32 \<Rightarrow> string \<Rightarrow> string \<Rightarrow> OtelScope \<Rightarrow> 'a world_scheme
     \<Rightarrow> (OtelScope \<times> 'a world_scheme) option" where
  "register_body J startTime messageId jsonPayload sessionId span w =
     (let span = setAttribute ''operation.name'' (StringValue ''REGISTER'') span;
          span = setAttribute ''session.id'' (StringValue sessionId) span
      in case parse J jsonPayload of
           None \<Rightarrow> register_malformed J messageId sessionId ''Invalid JSON payload'' ''Invalid JSON payload'' span w
         | Some j \<Rightarrow>
             (if register_invalid j
              then register_malformed J messageId sessionId ''Missing or invalid required fields''
                ''Missing or invalid required fields: node_id, bunker_name, ip_address, capacity'' span w
              else
                let nodeId = get_string (json_at j FIELD_NODE_ID);
                    span = setAttribute ''node.id'' (StringValue nodeId) span;
                    (result, r) = registerNode (register_entry j) (w_registry w);
                    w = w\<lparr>w_registry := r\<rparr>;
                    (span, w) = set_duration startTime span w
                in register_finish J messageId sessionId nodeId result span w))"

definition RegisterHandler_handle ::
  "json_lib \<Rightarrow> u32 \<Rightarrow> string \<Rightarrow> string \<Rightarrow> 'a world_scheme \<Rightarrow> 'a world_scheme option" where
  "RegisterHandler_handle J messageId jsonPayload sessionId w =
     (let (startTime, w) = steady_now w
      in with_span ''register_node'' (register_body J startTime messageId jsonPayload sessionId) w)"

subsection \<open>Contract\<close>

definition ack_reply :: "u32 \<Rightarrow> string \<Rightarrow> reply" where
  "ack_reply messageId nodeId =
     (ACK, json_fields [(''ref_message_id'', JUInt (ucast messageId)), (''node_id'', JString nodeId)])"

text \<open>A valid registration: four fields of the right types, with a name for the node; and the entry it stands for.\<close>

definition registration :: "json \<Rightarrow> NodeEntry option" where
  "registration j =
     (case (json_get ''node_id'' j, json_get ''bunker_name'' j, json_get ''ip_address'' j, json_get ''capacity'' j) of
        (Some (JString k), Some (JString b), Some (JString ip), Some (JUInt c)) \<Rightarrow>
          (if k = [] then None
           else Some \<lparr>ne_node_id = k, ne_bunker_name = b, ne_ip_address = ip, ne_capacity = c,
                      ne_status = ONLINE, ne_last_seen_at = 0\<rparr>)
      | _ \<Rightarrow> None)"

definition register_spec :: "json_lib \<Rightarrow> u32 \<Rightarrow> string \<Rightarrow> registry \<Rightarrow> reply \<times> registry" where
  "register_spec J messageId payload r =
     (case parse J payload of
        None \<Rightarrow> (error_reply messageId ERR_MALFORMED ''Invalid JSON payload'', r)
      | Some j \<Rightarrow>
          (case registration j of
             None \<Rightarrow> (error_reply messageId ERR_MALFORMED
                        ''Missing or invalid required fields: node_id, bunker_name, ip_address, capacity'', r)
           | Some e \<Rightarrow>
               (if map_option ne_status (map_of r (ne_node_id e)) = Some ONLINE
                then (error_reply messageId ERR_DUPLICATE (''Node '' @ ne_node_id e @ '' already registered''), r)
                else (ack_reply messageId (ne_node_id e), AList.update (ne_node_id e) e r))))"

subsection \<open>The handler meets its contract\<close>

lemma string_field_cases:
  "\<not> contains j k \<or> \<not> is_string (json_at j k) \<Longrightarrow> (\<forall>s. json_get k j \<noteq> Some (JString s))"
  "contains j k \<Longrightarrow> is_string (json_at j k) \<Longrightarrow> json_get k j = Some (JString (get_string (json_at j k)))"
  by (auto simp: contains_def json_at_def elim: is_string.elims)

lemma string_field_iff:
  "contains j k \<and> is_string (json_at j k) \<longleftrightarrow> (\<exists>s. json_get k j = Some (JString s))"
  using string_field_cases by blast

lemma uint_field_iff:
  "contains j k \<and> is_number_unsigned (json_at j k) \<longleftrightarrow> (\<exists>n. json_get k j = Some (JUInt n))"
  by (auto simp: contains_def json_at_def elim: is_number_unsigned.elims)

text \<open>The validating condition and the entry of the code are those of the contract.\<close>

lemma registration_code: "registration j = (if register_invalid j then None else Some (register_entry j))"
proof (cases "\<exists>k b ip c. json_get ''node_id'' j = Some (JString k) \<and> json_get ''bunker_name'' j = Some (JString b)
    \<and> json_get ''ip_address'' j = Some (JString ip) \<and> json_get ''capacity'' j = Some (JUInt c)")
  case True
  then show ?thesis
    by (auto simp: registration_def register_invalid_def register_entry_def contains_def json_at_def
        FIELD_NODE_ID_def FIELD_BUNKER_NAME_def FIELD_IP_ADDRESS_def FIELD_CAPACITY_def)
next
  case False
  then have "register_invalid j"
    using string_field_iff [of j "''node_id''"] string_field_iff [of j "''bunker_name''"] string_field_iff [of j "''ip_address''"]
      uint_field_iff [of j "''capacity''"]
    unfolding register_invalid_def FIELD_NODE_ID_def FIELD_BUNKER_NAME_def FIELD_IP_ADDRESS_def FIELD_CAPACITY_def by blast
  moreover have "registration j = None" using False by (auto simp: registration_def split: option.splits json.splits)
  ultimately show ?thesis by simp
qed

lemma update_absent: "map_of r k = None \<Longrightarrow> AList.update k v r = r @ [(k, v)]"
  by (induction r) (auto split: if_splits)

lemma registerNode_online:
  assumes "ne_node_id e \<noteq> []" "ne_status e = ONLINE"
  shows "registerNode e r =
    (if map_option ne_status (map_of r (ne_node_id e)) = Some ONLINE then (REG_ERR_DUPLICATE, r)
     else (REG_OK, AList.update (ne_node_id e) e r))"
proof -
  have "e\<lparr>ne_status := ONLINE\<rparr> = e" using assms(2) by simp
  then show ?thesis using assms(1) by (auto simp: registerNode_def update_absent split: option.splits)
qed

text \<open>The contract in terms of what the handler calls.\<close>

lemma register_spec_code:
  "register_spec J messageId payload r =
     (case parse J payload of
        None \<Rightarrow> (error_reply messageId ERR_MALFORMED ''Invalid JSON payload'', r)
      | Some j \<Rightarrow>
          (if register_invalid j
           then (error_reply messageId ERR_MALFORMED
                   ''Missing or invalid required fields: node_id, bunker_name, ip_address, capacity'', r)
           else
             let e = register_entry j; k = ne_node_id e; (res, r') = registerNode e r
             in if res = REG_OK then (ack_reply messageId k, r')
                else (error_reply messageId ERR_DUPLICATE (''Node '' @ k @ '' already registered''), r')))"
proof (cases "parse J payload")
  case (Some j)
  have "ne_node_id (register_entry j) \<noteq> []" "ne_status (register_entry j) = ONLINE" if "\<not> register_invalid j"
    using that by (simp_all add: register_invalid_def register_entry_def)
  then show ?thesis
    using Some by (auto simp: register_spec_def registration_code registerNode_online Let_def simp del: append.simps)
qed (simp add: register_spec_def)

lemma register_malformed_effect:
  assumes "register_malformed J messageId sessionId t d span w = Some (span', w')"
  shows "answered J messageId (error_reply messageId ERR_MALFORMED d) (w_registry w) w w'"
  using assms
  by (auto simp: register_malformed_def send_error_reply answered_def Let_def logged_def
      dest!: log_logged split: bind_splits)

lemma register_finish_effect:
  assumes "register_finish J messageId sessionId nodeId result span w = Some (span', w')"
  shows "answered J messageId
     (if result = REG_OK then ack_reply messageId nodeId
      else error_reply messageId ERR_DUPLICATE (''Node '' @ nodeId @ '' already registered''))
     (w_registry w) w w'"
  using assms
  by (auto simp: register_finish_def send_error_reply answered_def ack_reply_def buildAckPayload_def
      reply_frame_def Let_def logged_def simp del: append.simps dest!: log_logged split: bind_splits if_splits)

lemma register_body_effect:
  assumes "register_body J t0 messageId payload sessionId span w = Some (span', w')"
  shows "answered J messageId (fst (register_spec J messageId payload (w_registry w)))
     (snd (register_spec J messageId payload (w_registry w))) w w'"
proof (cases "parse J payload")
  case None
  then show ?thesis
    using assms by (auto simp: register_body_def register_spec_code Let_def dest: register_malformed_effect)
next
  case (Some j)
  show ?thesis
  proof (cases "register_invalid j")
    case True
    then show ?thesis
      using assms Some by (auto simp: register_body_def register_spec_code Let_def dest: register_malformed_effect)
  next
    case False
    obtain res r where reg: "registerNode (register_entry j) (w_registry w) = (res, r)" by fastforce
    have id: "get_string (json_at j FIELD_NODE_ID) = ne_node_id (register_entry j)"
      by (simp add: register_entry_def)
    obtain sp w1 where fin: "register_finish J messageId sessionId (ne_node_id (register_entry j)) res sp w1 = Some (span', w')"
      and w1: "core w1 = core w\<lparr>w_registry := r\<rparr>" "ot_stack w1 = ot_stack w"
      using assms False by (auto simp: register_body_def Let_def Some reg set_duration_def steady_now_def id)
    have io: "w_io w1 = w_io w" "w_registry w1 = r"
      using arg_cong [OF w1(1), of w_io] arg_cong [OF w1(1), of w_registry] by simp_all
    show ?thesis
      using register_finish_effect [OF fin] False
      by (auto simp: register_spec_code Some reg answered_def w1 io Let_def split: if_splits)
  qed
qed

lemma RegisterHandler_effect:
  assumes "RegisterHandler_handle J messageId payload sessionId w = Some w'"
  shows "answered J messageId (fst (register_spec J messageId payload (w_registry w)))
     (snd (register_spec J messageId payload (w_registry w))) w w'"
proof -
  define w0 where "w0 = w\<lparr>h_reads := Suc (h_reads w)\<rparr>"
  have w0: "core w0 = core w" "ot_stack w0 = ot_stack w" by (simp_all add: w0_def)
  have "with_span ''register_node'' (register_body J (h_steady w (h_reads w)) messageId payload sessionId) w0 = Some w'"
    using assms by (simp add: RegisterHandler_handle_def steady_now_def w0_def)
  then show ?thesis
    by (rule with_span_answered [THEN answered_core, OF _ _ w0])
       (metis register_body_effect core_eqD(1) w0(1))
qed

end
