(* ===== verification/QueryHandler.thy ===== *)
theory QueryHandler
  imports RegisterHandler
begin

text \<open>
  \<^verbatim>\<open>src/queryHandler.cpp\<close>: the handlers of QUERY_NODE and LIST_NODES, with their contracts
  \<open>query_spec\<close> and \<open>list_spec\<close>, which name the fields of the replies themselves. Neither changes the registry.
\<close>

subsection \<open>Rendering\<close>

fun statusToString :: "NodeStatus \<Rightarrow> string" where
  "statusToString ONLINE = ''ONLINE''"
| "statusToString OFFLINE = ''OFFLINE''"

definition toIso8601 :: "time_point \<Rightarrow> string" where
  "toIso8601 tp = iso8601 tp"

definition entryToJson :: "NodeEntry \<Rightarrow> json" where
  "entryToJson e = json_fields (
     [(FIELD_NODE_ID, JString (ne_node_id e)),
      (''bunker_name'', JString (ne_bunker_name e)),
      (''ip_address'', JString (ne_ip_address e)),
      (''capacity'', JUInt (ne_capacity e)),
      (''status'', JString (statusToString (ne_status e)))]
     @ (if ne_status e = OFFLINE then [(''last_seen_at'', JString (toIso8601 (ne_last_seen_at e)))] else []))"

definition query_response :: "u32 \<Rightarrow> NodeEntry \<Rightarrow> json" where
  "query_response messageId e = json_fields (
     [(''ref_message_id'', JUInt (ucast messageId)),
      (FIELD_NODE_ID, JString (ne_node_id e)),
      (''bunker_name'', JString (ne_bunker_name e)),
      (''ip_address'', JString (ne_ip_address e)),
      (''capacity'', JUInt (ne_capacity e)),
      (''status'', JString (statusToString (ne_status e)))]
     @ (if ne_status e = OFFLINE then [(''last_seen_at'', JString (toIso8601 (ne_last_seen_at e)))] else []))"

definition FIELD_NODES :: string where "FIELD_NODES = ''nodes''"

definition list_response :: "u32 \<Rightarrow> NodeEntry list \<Rightarrow> json" where
  "list_response messageId entries =
     json_fields [(''ref_message_id'', JUInt (ucast messageId)),
                  (FIELD_NODES, fold (\<lambda>e a. json_push (entryToJson e) a) entries (JArray []))]"

subsection \<open>The handlers\<close>

text \<open>The three early returns of \<^verbatim>\<open>handleQueryNode\<close>.\<close>

definition query_fail ::
  "json_lib \<Rightarrow> int \<Rightarrow> u32 \<Rightarrow> string \<Rightarrow> string \<Rightarrow> ProtocolErrorCode \<Rightarrow> string \<Rightarrow> string \<Rightarrow> OtelScope
     \<Rightarrow> 'a world_scheme \<Rightarrow> (OtelScope \<times> 'a world_scheme) option" where
  "query_fail J startTime messageId sessionId nodeId code codeName text span w = do {
     let span = setAttribute ''result'' (StringValue ''ERROR'') span;
     let span = setAttribute ''error.code'' (StringValue codeName) span;
     let span = recordError text span;
     let (span, w) = set_duration startTime span w;
     w \<leftarrow> send_error J messageId code text w;
     w \<leftarrow> logNodeQueried J (scope_base span) \<lparr>qf_nodeId = nodeId, qf_sessionId = sessionId, qf_result = codeName\<rparr> w;
     Some (span, w)
   }"

definition query_found ::
  "json_lib \<Rightarrow> int \<Rightarrow> u32 \<Rightarrow> string \<Rightarrow> string \<Rightarrow> NodeEntry \<Rightarrow> OtelScope \<Rightarrow> 'a world_scheme
     \<Rightarrow> (OtelScope \<times> 'a world_scheme) option" where
  "query_found J startTime messageId sessionId nodeId entry span w = do {
     let span = setAttribute ''result'' (StringValue ''OK'') span;
     let (span, w) = set_duration startTime span w;
     response \<leftarrow> dump J (query_response messageId entry);
     frame \<leftarrow> buildFrame ACK messageId response;
     let w = send_frame frame w;
     w \<leftarrow> logNodeQueried J (scope_base span) \<lparr>qf_nodeId = nodeId, qf_sessionId = sessionId, qf_result = ''OK''\<rparr> w;
     Some (span, w)
   }"

definition query_body ::
  "json_lib \<Rightarrow> int \<Rightarrow> u32 \<Rightarrow> string \<Rightarrow> string \<Rightarrow> OtelScope \<Rightarrow> 'a world_scheme
     \<Rightarrow> (OtelScope \<times> 'a world_scheme) option" where
  "query_body J startTime messageId jsonPayload sessionId span w =
     (let span = setAttribute ''operation.name'' (StringValue ''QUERY_NODE'') span;
          span = setAttribute ''session.id'' (StringValue sessionId) span
      in case parse J jsonPayload of
           None \<Rightarrow> query_fail J startTime messageId sessionId [] ERR_MALFORMED ''ERR_MALFORMED''
                     ''Invalid JSON payload'' span w
         | Some j \<Rightarrow>
             (if \<not> contains j FIELD_NODE_ID \<or> \<not> is_string (json_at j FIELD_NODE_ID)
              then query_fail J startTime messageId sessionId [] ERR_MALFORMED ''ERR_MALFORMED''
                     ''Missing or invalid field: node_id'' span w
              else
                let nodeId = get_string (json_at j FIELD_NODE_ID);
                    span = setAttribute ''node.id'' (StringValue nodeId) span
                in case queryNode nodeId (w_registry w) of
                     None \<Rightarrow> query_fail J startTime messageId sessionId nodeId ERR_NOT_FOUND ''ERR_NOT_FOUND''
                               (''Node '' @ nodeId @ '' not found'') span w
                   | Some entry \<Rightarrow> query_found J startTime messageId sessionId nodeId entry span w))"

definition handleQueryNode ::
  "json_lib \<Rightarrow> u32 \<Rightarrow> string \<Rightarrow> string \<Rightarrow> 'a world_scheme \<Rightarrow> 'a world_scheme option" where
  "handleQueryNode J messageId jsonPayload sessionId w =
     (let (startTime, w) = steady_now w
      in with_span ''query_node'' (query_body J startTime messageId jsonPayload sessionId) w)"

definition list_body ::
  "json_lib \<Rightarrow> int \<Rightarrow> u32 \<Rightarrow> string \<Rightarrow> OtelScope \<Rightarrow> 'a world_scheme \<Rightarrow> (OtelScope \<times> 'a world_scheme) option" where
  "list_body J startTime messageId sessionId span w = do {
     let span = setAttribute ''operation.name'' (StringValue ''LIST_NODES'') span;
     let span = setAttribute ''session.id'' (StringValue sessionId) span;
     let entries = listNodes (w_registry w);
     let (now, w) = steady_now w;
     let durationMs = duration_ms (now - startTime);
     let span = setAttribute ''node_count'' (IntValue (int (length entries))) span;
     let span = setAttribute ''duration_ms'' (IntValue durationMs) span;
     let span = setAttribute ''result'' (StringValue ''OK'') span;
     response \<leftarrow> dump J (list_response messageId entries);
     frame \<leftarrow> buildFrame ACK messageId response;
     let w = send_frame frame w;
     w \<leftarrow> logNodesListed J (scope_base span) \<lparr>lf_sessionId = sessionId, lf_nodeCount = word_of_nat (length entries)\<rparr> w;
     Some (span, w)
   }"

definition handleListNodes :: "json_lib \<Rightarrow> u32 \<Rightarrow> string \<Rightarrow> 'a world_scheme \<Rightarrow> 'a world_scheme option" where
  "handleListNodes J messageId sessionId w =
     (let (startTime, w) = steady_now w
      in with_span ''list_nodes'' (list_body J startTime messageId sessionId) w)"

definition QueryHandler_handle ::
  "json_lib \<Rightarrow> MessageType \<Rightarrow> u32 \<Rightarrow> string \<Rightarrow> string \<Rightarrow> 'a world_scheme \<Rightarrow> 'a world_scheme option" where
  "QueryHandler_handle J messageType messageId jsonPayload sessionId w =
     (if messageType = QUERY_NODE then handleQueryNode J messageId jsonPayload sessionId w
      else handleListNodes J messageId sessionId w)"

subsection \<open>Contracts\<close>

text \<open>What a client is told of a node: the time it was last seen only if it is OFFLINE.\<close>

definition node_fields :: "NodeEntry \<Rightarrow> (string \<times> json) list" where
  "node_fields e =
     [(''node_id'', JString (ne_node_id e)), (''bunker_name'', JString (ne_bunker_name e)),
      (''ip_address'', JString (ne_ip_address e)), (''capacity'', JUInt (ne_capacity e))]
     @ (case ne_status e of
          ONLINE \<Rightarrow> [(''status'', JString ''ONLINE'')]
        | OFFLINE \<Rightarrow> [(''status'', JString ''OFFLINE''), (''last_seen_at'', JString (iso8601 (ne_last_seen_at e)))])"

definition query_spec :: "json_lib \<Rightarrow> u32 \<Rightarrow> string \<Rightarrow> registry \<Rightarrow> reply" where
  "query_spec J messageId payload r =
     (case parse J payload of
        None \<Rightarrow> error_reply messageId ERR_MALFORMED ''Invalid JSON payload''
      | Some j \<Rightarrow>
          (case json_get ''node_id'' j of
             Some (JString k) \<Rightarrow>
               (case map_of r k of
                  None \<Rightarrow> error_reply messageId ERR_NOT_FOUND (''Node '' @ k @ '' not found'')
                | Some e \<Rightarrow> (ACK, json_fields ((''ref_message_id'', JUInt (ucast messageId)) # node_fields e)))
           | _ \<Rightarrow> error_reply messageId ERR_MALFORMED ''Missing or invalid field: node_id''))"

definition list_spec :: "u32 \<Rightarrow> registry \<Rightarrow> reply" where
  "list_spec messageId r =
     (ACK, json_fields [(''ref_message_id'', JUInt (ucast messageId)),
                        (''nodes'', JArray (map (\<lambda>x. json_fields (node_fields (snd x))) r))])"

subsection \<open>The handlers meet their contracts\<close>

lemma entryToJson_fields: "entryToJson e = json_fields (node_fields e)"
  by (cases "ne_status e") (simp_all add: entryToJson_def node_fields_def FIELD_NODE_ID_def toIso8601_def)

lemma query_response_fields:
  "query_response messageId e = json_fields ((''ref_message_id'', JUInt (ucast messageId)) # node_fields e)"
  by (cases "ne_status e") (simp_all add: query_response_def node_fields_def FIELD_NODE_ID_def toIso8601_def)

text \<open>The contracts in terms of what the handlers call.\<close>

lemma query_spec_code:
  "query_spec J messageId payload r =
     (case parse J payload of
        None \<Rightarrow> error_reply messageId ERR_MALFORMED ''Invalid JSON payload''
      | Some j \<Rightarrow>
          (case json_get FIELD_NODE_ID j of
             Some (JString k) \<Rightarrow>
               (case queryNode k r of
                  None \<Rightarrow> error_reply messageId ERR_NOT_FOUND (''Node '' @ k @ '' not found'')
                | Some e \<Rightarrow> (ACK, query_response messageId e))
           | _ \<Rightarrow> error_reply messageId ERR_MALFORMED ''Missing or invalid field: node_id''))"
  unfolding query_spec_def query_response_fields queryNode_def FIELD_NODE_ID_def by (rule refl)

lemma list_spec_code:
  "list_spec messageId r =
     (ACK, json_fields [(''ref_message_id'', JUInt (ucast messageId)),
                        (''nodes'', JArray (map entryToJson (listNodes r)))])"
  by (simp add: list_spec_def entryToJson_fields listNodes_def comp_def)

lemma fold_push: "fold (\<lambda>e a. json_push (f e) a) es (JArray vs) = JArray (vs @ map f es)"
  by (induction es arbitrary: vs) simp_all

lemma list_response_spec: "(ACK, list_response messageId (listNodes r)) = list_spec messageId r"
  by (simp add: list_response_def list_spec_code FIELD_NODES_def fold_push)

lemma query_fail_effect:
  assumes "query_fail J t0 messageId sessionId nodeId code cn text span w = Some (span', w')"
  shows "answered J messageId (error_reply messageId code text) (w_registry w) w w'"
  using assms
  by (auto simp: query_fail_def send_error_reply answered_def Let_def set_duration_def steady_now_def logged_def
      dest!: log_logged split: bind_splits)

lemma query_found_effect:
  assumes "query_found J t0 messageId sessionId nodeId e span w = Some (span', w')"
  shows "answered J messageId (ACK, query_response messageId e) (w_registry w) w w'"
  using assms
  by (auto simp: query_found_def reply_frame_def answered_def Let_def set_duration_def steady_now_def logged_def
      dest!: log_logged split: bind_splits)

lemma query_body_effect:
  assumes "query_body J t0 messageId payload sessionId span w = Some (span', w')"
  shows "answered J messageId (query_spec J messageId payload (w_registry w)) (w_registry w) w w'"
proof (cases "parse J payload")
  case None
  then show ?thesis
    using assms by (auto simp: query_body_def query_spec_code Let_def dest: query_fail_effect)
next
  case (Some j)
  show ?thesis
  proof (cases "\<not> contains j FIELD_NODE_ID \<or> \<not> is_string (json_at j FIELD_NODE_ID)")
    case True
    have "query_spec J messageId payload (w_registry w) =
        error_reply messageId ERR_MALFORMED ''Missing or invalid field: node_id''"
      using string_field_cases(1) [OF True] by (auto simp: query_spec_code Some split: option.splits json.splits)
    then show ?thesis
      using assms True Some by (auto simp: query_body_def Let_def dest: query_fail_effect)
  next
    case False
    then have f: "json_get FIELD_NODE_ID j = Some (JString (get_string (json_at j FIELD_NODE_ID)))"
      by (intro string_field_cases(2)) auto
    show ?thesis
      using assms False Some f
      by (cases "queryNode (get_string (json_at j FIELD_NODE_ID)) (w_registry w)")
         (auto simp: query_body_def query_spec_code Let_def simp del: append.simps
            dest: query_fail_effect query_found_effect)
  qed
qed

lemma list_body_effect:
  assumes "list_body J t0 messageId sessionId span w = Some (span', w')"
  shows "answered J messageId (list_spec messageId (w_registry w)) (w_registry w) w w'"
  using assms
  by (auto simp: list_body_def reply_frame_def answered_def Let_def steady_now_def logged_def
      list_response_spec [symmetric] dest!: log_logged split: bind_splits)

lemma handleQueryNode_effect:
  assumes "handleQueryNode J messageId payload sessionId w = Some w'"
  shows "answered J messageId (query_spec J messageId payload (w_registry w)) (w_registry w) w w'"
proof -
  define w0 where "w0 = w\<lparr>h_reads := Suc (h_reads w)\<rparr>"
  have w0: "core w0 = core w" "ot_stack w0 = ot_stack w" by (simp_all add: w0_def)
  have "with_span ''query_node'' (query_body J (h_steady w (h_reads w)) messageId payload sessionId) w0 = Some w'"
    using assms by (simp add: handleQueryNode_def steady_now_def w0_def)
  then show ?thesis
    by (rule with_span_answered [THEN answered_core, OF _ _ w0])
       (metis query_body_effect core_eqD(1) w0(1))
qed

lemma handleListNodes_effect:
  assumes "handleListNodes J messageId sessionId w = Some w'"
  shows "answered J messageId (list_spec messageId (w_registry w)) (w_registry w) w w'"
proof -
  define w0 where "w0 = w\<lparr>h_reads := Suc (h_reads w)\<rparr>"
  have w0: "core w0 = core w" "ot_stack w0 = ot_stack w" by (simp_all add: w0_def)
  have "with_span ''list_nodes'' (list_body J (h_steady w (h_reads w)) messageId sessionId) w0 = Some w'"
    using assms by (simp add: handleListNodes_def steady_now_def w0_def)
  then show ?thesis
    by (rule with_span_answered [THEN answered_core, OF _ _ w0])
       (metis list_body_effect core_eqD(1) w0(1))
qed

end
