(* ===== verification/HeartbeatHandler.thy ===== *)
theory HeartbeatHandler
  imports World
begin

text \<open>
  \<^verbatim>\<open>src/heartbeatHandler.cpp\<close>: the handler of HEARTBEAT. It sends nothing; its only effect is that
  of \<^verbatim>\<open>updateLastSeen\<close> on the registry.
\<close>

definition heartbeat_body ::
  "json_lib \<Rightarrow> string \<Rightarrow> string \<Rightarrow> OtelScope \<Rightarrow> 'a world_scheme \<Rightarrow> (OtelScope \<times> 'a world_scheme) option" where
  "heartbeat_body J nodeId sessionId span w =
     (let span = setAttribute ''node.id'' (StringValue nodeId) span;
          span = setAttribute ''sesion.id'' (StringValue sessionId) span;
          span = setAttribute ''operation.name'' (StringValue ''HEARTBEAT'') span;
          (known, w) = world_updateLastSeen nodeId w
      in if known then do {
           let span = setAttribute ''result'' (StringValue ''OK'') span;
           w \<leftarrow> logHeartbeatReceived J (scope_base span) \<lparr>hf_nodeId = nodeId, hf_sessionId = sessionId\<rparr> w;
           Some (span, w)
         } else do {
           let span = setAttribute ''result'' (StringValue ''UNKNOWN_OR_OFFLINE'') span;
           w \<leftarrow> logHeartbeatUnknownNode J (scope_base span) \<lparr>uf_nodeId = nodeId, uf_sessionId = sessionId\<rparr> w;
           Some (span, w)
         })"

definition HeartbeatHandler_handle ::
  "json_lib \<Rightarrow> string \<Rightarrow> string \<Rightarrow> 'a world_scheme \<Rightarrow> 'a world_scheme option" where
  "HeartbeatHandler_handle J nodeId sessionId w =
     with_span ''heartbeat'' (heartbeat_body J nodeId sessionId) w"

lemma heartbeat_body_effect:
  assumes "heartbeat_body J nodeId sessionId span w = Some (span', w')"
  shows "(\<exists>i. core w' = core w\<lparr>w_registry := snd (updateLastSeen (h_system w i) nodeId (w_registry w))\<rparr>)
    \<and> ot_stack w' = ot_stack w"
proof -
  obtain ok r where u: "updateLastSeen (h_system w (h_reads w)) nodeId (w_registry w) = (ok, r)" by fastforce
  have "core w' = core w\<lparr>w_registry := r\<rparr> \<and> ot_stack w' = ot_stack w"
    using assms
    by (auto simp: heartbeat_body_def world_updateLastSeen_def system_now_def u Let_def logged_def
        dest!: log_logged split: bind_splits if_splits)
  then show ?thesis using u by (metis snd_conv)
qed

lemma HeartbeatHandler_effect:
  assumes "HeartbeatHandler_handle J nodeId sessionId w = Some w'"
  shows "(\<exists>i. core w' = core w\<lparr>w_registry := snd (updateLastSeen (h_system w i) nodeId (w_registry w))\<rparr>)
    \<and> ot_stack w' = ot_stack w"
  using assms [unfolded HeartbeatHandler_handle_def]
proof (rule with_span_effect)
  fix sc w1 sc' w2
  assume c: "core w1 = core w" and b: "heartbeat_body J nodeId sessionId sc w1 = Some (sc', w2)"
  show "(\<exists>i. core w2 = core w\<lparr>w_registry := snd (updateLastSeen (h_system w i) nodeId (w_registry w))\<rparr>)
    \<and> ot_stack w2 = ot_stack w1"
    using heartbeat_body_effect [OF b] c core_eqD [OF c] by simp
qed

end
