(* ===== verification/ConnectionWorker.thy ===== *)
theory ConnectionWorker
  imports QueryHandler HeartbeatHandler
begin

text \<open>
  \<^verbatim>\<open>src/connectionWorker.cpp\<close>: serving one connection. \<open>worker_loop\<close> is the receive loop with its
  dispatch, \<open>handleConnection\<close> the whole method: the receive timeout, the loop, marking the
  connection's node offline, the disconnection record, the destructor of the connection span and
  the teardown guard. The loop terminates because every frame takes bytes off the stream.

  \<open>serves\<close> is the contract of a session: which replies a sequence of requests gets and what it
  does to the registry, with registry operations of other threads between any two requests.
\<close>

datatype DisconnectReason =
  IDLE_TIMEOUT | CLEAN_DISCONNECT | ABRUPT_DISCONNECT | RECV_ERROR | SOCKET_CONFIG_ERROR

record ConnectionContext =
  cc_nodeId :: string
  cc_sessionId :: string
  cc_clientIp :: string

fun disconnectReasonToString :: "DisconnectReason \<Rightarrow> string" where
  "disconnectReasonToString IDLE_TIMEOUT = ''idle_timeout''"
| "disconnectReasonToString CLEAN_DISCONNECT = ''clean_disconnect''"
| "disconnectReasonToString ABRUPT_DISCONNECT = ''abrupt_disconnect''"
| "disconnectReasonToString RECV_ERROR = ''recv_error''"
| "disconnectReasonToString SOCKET_CONFIG_ERROR = ''socket_config_error''"

definition isAbruptDisconnect :: "int \<Rightarrow> errno \<Rightarrow> bool" where
  "isAbruptDisconnect n err \<longleftrightarrow> n < 0 \<and> err = ECONNRESET"

definition markOfflineIfKnown :: "string \<Rightarrow> 'a world_scheme \<Rightarrow> 'a world_scheme" where
  "markOfflineIfKnown nodeId w = (if nodeId \<noteq> [] then world_setOffline nodeId w else w)"

text \<open>The destructor of \<^verbatim>\<open>TeardownGuard\<close>.\<close>

definition teardown :: "int \<Rightarrow> 'a world_scheme \<Rightarrow> 'a world_scheme" where
  "teardown fd w =
     (let w = (if fd \<ge> 0 then w\<lparr>w_closed := w_closed w @ [fd]\<rparr> else w)
      in w\<lparr>w_active := w_active w - 1\<rparr>)"

subsection \<open>The connection span\<close>

definition ensureConnectionSpan ::
  "json_lib \<Rightarrow> ConnectionContext \<Rightarrow> OtelScope option \<Rightarrow> 'a world_scheme \<Rightarrow> (OtelScope \<times> 'a world_scheme) option" where
  "ensureConnectionSpan J ctx connectionSpan w =
     (case connectionSpan of
        Some sc \<Rightarrow> Some (sc, w)
      | None \<Rightarrow> do {
          let (sc, w) = OtelScope_connection (cc_sessionId ctx) (cc_clientIp ctx) w;
          let sc = setAttribute ''operation.name'' (StringValue ''CLIENT_CONNECTION'') sc;
          let sc = setAttribute ''session.id'' (StringValue (cc_sessionId ctx)) sc;
          let sc = setAttribute ''result'' (StringValue ''OK'') sc;
          let activeNow = w_active w;
          w \<leftarrow> logConnected J (scope_base sc)
            \<lparr>cf_clientIp = cc_clientIp ctx, cf_sessionId = cc_sessionId ctx, cf_activeConnections = activeNow\<rparr> w;
          Some (sc, w)
        })"

definition disconnection_body ::
  "json_lib \<Rightarrow> ConnectionContext \<Rightarrow> int \<Rightarrow> string \<Rightarrow> DisconnectReason \<Rightarrow> OtelScope \<Rightarrow> 'a world_scheme
     \<Rightarrow> (OtelScope \<times> 'a world_scheme) option" where
  "disconnection_body J ctx durationMs activeNodeId reason span w = do {
     let span = setAttribute ''operation.name'' (StringValue ''CLIENT_DISCONNECTION'') span;
     let span = setAttribute ''session.id'' (StringValue (cc_sessionId ctx)) span;
     let span = setAttribute ''node.id'' (StringValue activeNodeId) span;
     let span = setAttribute ''duration_ms'' (IntValue durationMs) span;
     let span = setAttribute ''disconnect.reason'' (StringValue (disconnectReasonToString reason)) span;
     let span = (if reason = CLEAN_DISCONNECT then setAttribute ''result'' (StringValue ''OK'') span
                 else recordError (disconnectReasonToString reason) (setAttribute ''result'' (StringValue ''ERROR'') span));
     w \<leftarrow> logDisconnected J (scope_base span)
            \<lparr>df_nodeId = activeNodeId, df_sessionId = cc_sessionId ctx, df_connectionDurationMs = durationMs,
             df_reason = disconnectReasonToString reason\<rparr> w;
     Some (span, w)
   }"

definition emitDisconnection ::
  "json_lib \<Rightarrow> ConnectionContext \<Rightarrow> int \<Rightarrow> string \<Rightarrow> OtelScope option \<Rightarrow> DisconnectReason
     \<Rightarrow> 'a world_scheme \<Rightarrow> 'a world_scheme option" where
  "emitDisconnection J ctx connectTime activeNodeId connectionSpan reason w =
     (if connectionSpan = None then Some w
      else
        let (now, w) = steady_now w; durationMs = duration_ms (now - connectTime)
        in with_span ''client_disconnection'' (disconnection_body J ctx durationMs activeNodeId reason) w)"

subsection \<open>The receive loop\<close>

text \<open>The node a REGISTER payload names, read before the request is handled.\<close>

definition track_node :: "json_lib \<Rightarrow> string \<Rightarrow> string \<Rightarrow> string" where
  "track_node J payload activeNodeId =
     (case parse J payload of
        Some j \<Rightarrow>
          (if contains j ''node_id'' \<and> is_string (json_at j ''node_id'')
           then get_string (json_at j ''node_id'') else activeNodeId)
      | None \<Rightarrow> activeNodeId)"

definition track_span :: "json_lib \<Rightarrow> string \<Rightarrow> OtelScope \<Rightarrow> OtelScope" where
  "track_span J payload sc =
     (if parse J payload = None
      then recordError (''JSON parse failed during node_id extraction: '' @ parse_what J payload) sc else sc)"

definition dispatch ::
  "json_lib \<Rightarrow> ConnectionContext \<Rightarrow> FrameReadResult \<Rightarrow> string \<Rightarrow> OtelScope \<Rightarrow> 'a world_scheme
     \<Rightarrow> (string \<times> OtelScope \<times> 'a world_scheme) option" where
  "dispatch J ctx result activeNodeId sc w =
     (case fr_messageType result of
        REGISTER \<Rightarrow> do {
          let activeNodeId = track_node J (fr_payload result) activeNodeId;
          let sc = track_span J (fr_payload result) sc;
          w \<leftarrow> RegisterHandler_handle J (fr_messageId result) (fr_payload result) (cc_sessionId ctx) w;
          Some (activeNodeId, sc, w) }
      | QUERY_NODE \<Rightarrow> do {
          w \<leftarrow> QueryHandler_handle J QUERY_NODE (fr_messageId result) (fr_payload result) (cc_sessionId ctx) w;
          Some (activeNodeId, sc, w) }
      | LIST_NODES \<Rightarrow> do {
          w \<leftarrow> QueryHandler_handle J LIST_NODES (fr_messageId result) (fr_payload result) (cc_sessionId ctx) w;
          Some (activeNodeId, sc, w) }
      | HEARTBEAT \<Rightarrow> do {
          w \<leftarrow> HeartbeatHandler_handle J activeNodeId (cc_sessionId ctx) w;
          Some (activeNodeId, sc, w) }
      | _ \<Rightarrow> do {
          w \<leftarrow> send_error J (fr_messageId result) ERR_MALFORMED ''Unknown message type'' w;
          Some (activeNodeId, sc, w) })"

text \<open>The body of the loop after a frame has been read.\<close>

definition handle_frame ::
  "json_lib \<Rightarrow> ConnectionContext \<Rightarrow> FrameReadResult \<Rightarrow> string \<Rightarrow> OtelScope option \<Rightarrow> 'a world_scheme
     \<Rightarrow> (string \<times> OtelScope \<times> 'a world_scheme) option" where
  "handle_frame J ctx result activeNodeId connectionSpan w = do {
     (sc, w) \<leftarrow> ensureConnectionSpan J ctx connectionSpan w;
     let (handlerStart, w) = steady_now w;
     (activeNodeId, sc, w) \<leftarrow> dispatch J ctx result activeNodeId sc (interfere w);
     let (handlerEnd, w) = steady_now w;
     Some (activeNodeId, sc, recordMessage (fr_messageType result) (handlerEnd - handlerStart) w)
   }"

subsection \<open>Effect of one frame\<close>

text \<open>
  The contract of one request: the reply, if there is one, the node the connection stands for
  afterwards, and the registry. After a REGISTER the connection stands for the node that its payload names, if it names one.
\<close>

definition named_node :: "json_lib \<Rightarrow> string \<Rightarrow> string option" where
  "named_node J payload =
     (case parse J payload of
        Some j \<Rightarrow> (case json_get ''node_id'' j of Some (JString k) \<Rightarrow> Some k | _ \<Rightarrow> None)
      | None \<Rightarrow> None)"

inductive request ::
  "json_lib \<Rightarrow> message \<Rightarrow> string \<Rightarrow> registry \<Rightarrow> reply option \<Rightarrow> string \<Rightarrow> registry \<Rightarrow> bool"
  for J :: json_lib where
  request_register:
    "register_spec J i pl r = (rep, r') \<Longrightarrow> 
     request J (REGISTER, i, pl) n r (Some rep) (case named_node J pl of Some k \<Rightarrow> k | None \<Rightarrow> n) r'"
| request_query: "request J (QUERY_NODE, i, pl) n r (Some (query_spec J i pl r)) n r"
| request_list: "request J (LIST_NODES, i, pl) n r (Some (list_spec i r)) n r"
| request_heartbeat:
    "r' = snd (updateLastSeen now n r) \<Longrightarrow> request J (HEARTBEAT, i, pl) n r None n r'"
| request_unknown:
    "t \<notin> {REGISTER, QUERY_NODE, LIST_NODES, HEARTBEAT} \<Longrightarrow>
     request J (t, i, pl) n r (Some (error_reply i ERR_MALFORMED ''Unknown message type'')) n r"

inductive_cases request_elim: "request J (t, i, pl) n r rep n' r'"

lemma track_node_named: "track_node J pl n = (case named_node J pl of Some k \<Rightarrow> k | None \<Rightarrow> n)"
  using string_field_cases
  by (auto simp: track_node_def named_node_def contains_def json_at_def elim!: is_string.elims split: option.splits json.splits)

text \<open>Sending a reply, or nothing.\<close>

definition reply_sent :: "json_lib \<Rightarrow> u32 \<Rightarrow> reply option \<Rightarrow> io \<Rightarrow> io \<Rightarrow> bool" where
  "reply_sent J messageId rep s s' \<longleftrightarrow>
     (case rep of
        None \<Rightarrow> s' = s
      | Some x \<Rightarrow> (\<exists>frame. reply_frame J messageId x = Some frame \<and> s' = snd (sendAll frame s)))"

lemma answered_request:
  assumes "answered J i rep r' w w'"
  shows "reply_sent J i (Some rep) (w_io w) (w_io w') \<and> core w' = core w\<lparr>w_registry := r', w_io := w_io w'\<rparr>
    \<and> w_registry w' = r' \<and> ot_stack w' = ot_stack w"
proof -
  obtain frame where f: "reply_frame J i rep = Some frame"
    and c: "core w' = core w\<lparr>w_registry := r', w_io := snd (sendAll frame (w_io w))\<rparr>" and st: "ot_stack w' = ot_stack w"
    using assms by (auto simp: answered_def)
  have "w_io w' = snd (sendAll frame (w_io w))" "w_registry w' = r'"
    using arg_cong [OF c, of w_io] arg_cong [OF c, of w_registry] by simp_all
  then show ?thesis using f c st by (auto simp: reply_sent_def)
qed

lemma dispatch_heartbeat:
  assumes "dispatch J ctx \<lparr>fr_status = OK, fr_messageType = HEARTBEAT, fr_messageId = i, fr_payload = pl\<rparr> n sc w = Some (n', sc', w')"
  shows "request J (HEARTBEAT, i, pl) n (w_registry w) None n' (w_registry w') \<and> w_io w' = w_io w
    \<and> core w' = core w\<lparr>w_registry := w_registry w', w_io := w_io w'\<rparr> \<and> ot_stack w' = ot_stack w"
proof -
  have h: "HeartbeatHandler_handle J n (cc_sessionId ctx) w = Some w'" "n' = n"
    using assms by (auto simp: dispatch_def split: bind_splits)
  obtain k where c: "core w' = core w\<lparr>w_registry := snd (updateLastSeen (h_system w k) n (w_registry w))\<rparr>"
    and st: "ot_stack w' = ot_stack w" using HeartbeatHandler_effect [OF h(1)] by blast
  have f: "w_registry w' = snd (updateLastSeen (h_system w k) n (w_registry w))" "w_io w' = w_io w"
    using arg_cong [OF c, of w_registry] arg_cong [OF c, of w_io] by simp_all
  have "core w\<lparr>w_registry := a, w_io := w_io w\<rparr> = core w\<lparr>w_registry := a\<rparr>" for a
    using core_fields(2) [of w] by (simp del: core_fields)
  then show ?thesis using h f c st by (auto intro: request_heartbeat)
qed

lemma dispatch_unknown:
  assumes "dispatch J ctx \<lparr>fr_status = OK, fr_messageType = t, fr_messageId = i, fr_payload = pl\<rparr> n sc w = Some (n', sc', w')"
    and t: "t \<notin> {REGISTER, QUERY_NODE, LIST_NODES, HEARTBEAT}"
  shows "\<exists>rep r'. answered J i rep r' w w' \<and> request J (t, i, pl) n (w_registry w) (Some rep) n' r'"
proof -
  have "send_error J i ERR_MALFORMED ''Unknown message type'' w = Some w' \<and> n' = n"
    using assms by (cases t) (auto simp: dispatch_def split: bind_splits)
  then show ?thesis using send_error_answered request_unknown [OF t] by metis
qed

lemma dispatch_answered:
  assumes "dispatch J ctx \<lparr>fr_status = OK, fr_messageType = t, fr_messageId = i, fr_payload = pl\<rparr> n sc w = Some (n', sc', w')"
    and "t \<noteq> HEARTBEAT"
  shows "\<exists>rep r'. answered J i rep r' w w' \<and> request J (t, i, pl) n (w_registry w) (Some rep) n' r'"
proof (cases t)
  case REGISTER
  then have h: "RegisterHandler_handle J i pl (cc_sessionId ctx) w = Some w'" "n' = (case named_node J pl of Some k \<Rightarrow> k | None \<Rightarrow> n)"
    using assms(1) by (auto simp: dispatch_def Let_def track_node_named split: bind_splits)
  show ?thesis
    unfolding h(2) REGISTER using RegisterHandler_effect [OF h(1)] by (metis prod.collapse request_register)
next
  case QUERY_NODE
  then have h: "handleQueryNode J i pl (cc_sessionId ctx) w = Some w'" "n' = n"
    using assms(1) by (auto simp: dispatch_def QueryHandler_handle_def split: bind_splits)
  show ?thesis
    unfolding h(2) QUERY_NODE using handleQueryNode_effect [OF h(1)] request_query by blast
next
  case LIST_NODES
  then have h: "handleListNodes J i (cc_sessionId ctx) w = Some w'" "n' = n"
    using assms(1) by (auto simp: dispatch_def QueryHandler_handle_def split: bind_splits)
  show ?thesis
    unfolding h(2) LIST_NODES using handleListNodes_effect [OF h(1)] request_list by blast
qed (use dispatch_unknown [OF assms(1)] assms(2) in auto)

lemma dispatch_effect:
  assumes "dispatch J ctx \<lparr>fr_status = OK, fr_messageType = t, fr_messageId = i, fr_payload = pl\<rparr> n sc w = Some (n', sc', w')"
  shows "\<exists>rep. request J (t, i, pl) n (w_registry w) rep n' (w_registry w') \<and> reply_sent J i rep (w_io w) (w_io w')
    \<and> core w' = core w\<lparr>w_registry := w_registry w', w_io := w_io w'\<rparr> \<and> ot_stack w' = ot_stack w"
proof (cases "t = HEARTBEAT")
  case True
  then show ?thesis using dispatch_heartbeat [OF assms [unfolded True]] by (intro exI [of _ None]) (simp add: reply_sent_def)
next
  case False
  then show ?thesis using dispatch_answered [OF assms] answered_request by metis
qed

lemma ensureConnectionSpan_effect:
  assumes "ensureConnectionSpan J ctx sp w = Some (sc, w')"
  shows "core w' = core w" "length (ot_stack w') = length (ot_stack w) + (if sp = None then 1 else 0)"
    "take (length (ot_stack w)) (ot_stack w') = ot_stack w"
proof -
  have "core w' = core w \<and> (\<exists>xs. ot_stack w' = ot_stack w @ xs \<and> length xs = (if sp = None then 1 else 0))"
  proof (cases sp)
    case None
    obtain sc0 d where "OtelScope_connection (cc_sessionId ctx) (cc_clientIp ctx) w =
       (sc0, w\<lparr>h_draws := d, h_reads := Suc (h_reads w), ot_stack := ot_stack w @ [(os_traceId sc0, os_spanId sc0)]\<rparr>)"
      unfolding OtelScope_connection_def by (rule scope_open_cases)
    then show ?thesis
      using assms by (auto simp: ensureConnectionSpan_def None Let_def logged_def dest!: log_logged split: bind_splits)
  qed (use assms in \<open>auto simp: ensureConnectionSpan_def\<close>)
  then show "core w' = core w" "length (ot_stack w') = length (ot_stack w) + (if sp = None then 1 else 0)"
    "take (length (ot_stack w)) (ot_stack w') = ot_stack w" by auto
qed

lemma interfere_history: "\<exists>ops. w_registry (interfere w) = run_registry ops (w_registry w)"
proof (cases "w_interference w")
  case Nil
  then show ?thesis by (intro exI [of _ "[]"]) (simp add: interfere_def)
qed (auto simp: interfere_def)

lemma interfere_cong:
  "core w1 = core w \<Longrightarrow> w_registry (interfere w1) = w_registry (interfere w)"
  "core w1 = core w \<Longrightarrow> w_interference (interfere w1) = w_interference (interfere w)"
  using core_eqD [of w1 w] by (auto simp: interfere_def split: list.splits)

lemma handle_frame_effect:
  assumes "handle_frame J ctx \<lparr>fr_status = OK, fr_messageType = t, fr_messageId = i, fr_payload = pl\<rparr> n sp w = Some (n', sc, w')"
  shows "\<exists>rep. request J (t, i, pl) n (run_registry (next_batch (w_interference w)) (w_registry w)) rep n' (w_registry w')
        \<and> reply_sent J i rep (w_io w) (w_io w') \<and> w_interference w' = tl (w_interference w)"
    "w_active w' = w_active w \<and> w_closed w' = w_closed w
     \<and> (\<exists>el. mt_calls w' = mt_calls w @ [(messageTypeIndex t, el)])"
    "length (ot_stack w') = length (ot_stack w) + (if sp = None then 1 else 0)"
    "take (length (ot_stack w)) (ot_stack w') = ot_stack w"
proof -
  let ?f = "\<lparr>fr_status = OK, fr_messageType = t, fr_messageId = i, fr_payload = pl\<rparr>"
  obtain sc1 w1 where e: "ensureConnectionSpan J ctx sp w = Some (sc1, w1)"
    using assms by (auto simp: handle_frame_def split: bind_splits)
  define w2 where "w2 = w1\<lparr>h_reads := Suc (h_reads w1)\<rparr>"
  obtain w3 where d: "dispatch J ctx ?f n sc1 (interfere w2) = Some (n', sc, w3)"
    and w': "w' = recordMessage t (h_steady w3 (h_reads w3) - h_steady w1 (h_reads w1)) (w3\<lparr>h_reads := Suc (h_reads w3)\<rparr>)"
    using assms e by (auto simp: handle_frame_def steady_now_def w2_def split: bind_splits)
  note en = ensureConnectionSpan_effect [OF e]
  have c2: "core w2 = core w" using en(1) by (simp add: w2_def)
  obtain rep where r: "request J (t, i, pl) n (w_registry (interfere w2)) rep n' (w_registry w3)"
    "reply_sent J i rep (w_io (interfere w2)) (w_io w3)"
    "core w3 = core (interfere w2)\<lparr>w_registry := w_registry w3, w_io := w_io w3\<rparr>" "ot_stack w3 = ot_stack (interfere w2)"
    using dispatch_effect [OF d] by blast
  have o: "w_registry (interfere w2) = run_registry (next_batch (w_interference w)) (w_registry w)"
    using interfere_cong(1) [OF c2] by (simp add: interfere_view)
  have b: "w_interference w3 = tl (w_interference w)"
    using arg_cong [OF r(3), of w_interference] core_eqD(5) [OF c2] by (simp add: interfere_view)
  have f: "w_active w3 = w_active w" "w_closed w3 = w_closed w" "mt_calls w3 = mt_calls w"
    using arg_cong [OF r(3), of w_active] arg_cong [OF r(3), of w_closed] arg_cong [OF r(3), of mt_calls]
      core_eqD [OF c2] by simp_all
  show "\<exists>rep. request J (t, i, pl) n (run_registry (next_batch (w_interference w)) (w_registry w)) rep n' (w_registry w')
        \<and> reply_sent J i rep (w_io w) (w_io w') \<and> w_interference w' = tl (w_interference w)"
    using r(1,2) b core_eqD(2) [OF c2] by (intro exI [of _ rep]) (simp add: w' recordMessage_def o)
  show "w_active w' = w_active w \<and> w_closed w' = w_closed w
     \<and> (\<exists>el. mt_calls w' = mt_calls w @ [(messageTypeIndex t, el)])"
    using f by (simp add: w' recordMessage_def)
  show "length (ot_stack w') = length (ot_stack w) + (if sp = None then 1 else 0)"
    "take (length (ot_stack w)) (ot_stack w') = ot_stack w"
    using en r(4) by (simp_all add: w' recordMessage_def w2_def)
qed

lemma reply_sent_io:
  assumes "reply_sent J i rep s s'"
  shows "io_rx s' = io_rx s" "tx_ok s \<Longrightarrow> tx_ok s'"
  using assms by (auto simp: reply_sent_def sendAll_frame split: option.splits)

subsection \<open>The loop and the whole connection\<close>

lemma frame_status_record:
  "fr_status f = OK \<Longrightarrow> f = \<lparr>fr_status = OK, fr_messageType = fr_messageType f, fr_messageId = fr_messageId f, fr_payload = fr_payload f\<rparr>"
  by simp

lemma handle_frame_shrinks:
  assumes "readFrame (w_io w) = (f, s)" "fr_status f = OK"
    and "handle_frame J ctx f n sp (w\<lparr>w_io := s\<rparr>) = Some (n', sc, w')"
  shows "length (rx_bytes (io_rx (w_io w'))) < length (rx_bytes (io_rx (w_io w)))"
proof -
  have h: "handle_frame J ctx \<lparr>fr_status = OK, fr_messageType = fr_messageType f, fr_messageId = fr_messageId f,
      fr_payload = fr_payload f\<rparr> n sp (w\<lparr>w_io := s\<rparr>) = Some (n', sc, w')"
    using assms(2,3) frame_status_record by metis
  obtain rep where "reply_sent J (fr_messageId f) rep s (w_io w')"
    using handle_frame_effect(1) [OF h] by auto
  then have "io_rx (w_io w') = io_rx s" by (rule reply_sent_io)
  then show ?thesis
    using readFrame_decode(3) [OF assms(1,2)] frames.decode_shrinks by metis
qed

function worker_loop ::
  "json_lib \<Rightarrow> ConnectionContext \<Rightarrow> string \<Rightarrow> OtelScope option \<Rightarrow> 'a world_scheme
     \<Rightarrow> (DisconnectReason \<times> string \<times> OtelScope option \<times> 'a world_scheme) option" where
  "worker_loop J ctx activeNodeId connectionSpan w =
     (case readFrame (w_io w) of
        (result, s) \<Rightarrow>
          (case fr_status result of
             PEER_CLOSED \<Rightarrow> Some (CLEAN_DISCONNECT, activeNodeId, connectionSpan, w\<lparr>w_io := s\<rparr>)
           | TIMEOUT \<Rightarrow> Some (IDLE_TIMEOUT, activeNodeId, connectionSpan, w\<lparr>w_io := s\<rparr>)
           | IO_ERROR \<Rightarrow>
               Some (if isAbruptDisconnect (- 1) (io_errno s) then ABRUPT_DISCONNECT else RECV_ERROR,
                     activeNodeId, connectionSpan, w\<lparr>w_io := s\<rparr>)
           | OK \<Rightarrow>
               (case handle_frame J ctx result activeNodeId connectionSpan (w\<lparr>w_io := s\<rparr>) of
                  None \<Rightarrow> None
                | Some (activeNodeId', sc, w') \<Rightarrow> worker_loop J ctx activeNodeId' (Some sc) w')))"
  by pat_completeness auto

termination
  by (relation "measure (\<lambda>(J, ctx, n, sp, w). length (rx_bytes (io_rx (w_io w))))")
     (auto intro: handle_frame_shrinks [OF sym])

declare worker_loop.simps [simp del]

text \<open>
  \<open>sockopt\<close> is what \<^verbatim>\<open>setsockopt\<close> gives: nothing on success, or the text of the error. When a \<^verbatim>\<open>recv\<close> that
  waits gives up is part of the script of the socket, so the length of the timeout does not occur.
\<close>

definition applyReceiveTimeout :: "string option \<Rightarrow> 'a world_scheme \<Rightarrow> bool \<times> 'a world_scheme" where
  "applyReceiveTimeout sockopt w =
     (case sockopt of
        Some err \<Rightarrow> (False, w\<lparr>mt_stderr := mt_stderr w @
          [''[ERROR] connectionWorker: setsockopt(SO_RCVTIMEO) failed: '' @ err]\<rparr>)
      | None \<Rightarrow> (True, w))"

text \<open>The connection span of a connection that did not end cleanly.\<close>

definition fail_span :: "DisconnectReason \<Rightarrow> OtelScope option \<Rightarrow> OtelScope option" where
  "fail_span reason connectionSpan =
     (case connectionSpan of
        Some sc \<Rightarrow>
          Some (if reason \<noteq> CLEAN_DISCONNECT
                then recordError (disconnectReasonToString reason) (setAttribute ''result'' (StringValue ''ERROR'') sc)
                else sc)
      | None \<Rightarrow> None)"

lemma applyReceiveTimeout_None [simp]: "applyReceiveTimeout None w = (True, w)"
  by (simp add: applyReceiveTimeout_def)

lemma fail_span_None [simp]: "fail_span reason sp = None \<longleftrightarrow> sp = None"
  by (simp add: fail_span_def split: option.split)

definition connection_body ::
  "json_lib \<Rightarrow> string option \<Rightarrow> ConnectionContext \<Rightarrow> 'a world_scheme \<Rightarrow> 'a world_scheme option" where
  "connection_body J sockopt ctx w = do {
     let (connectTime, w) = steady_now w;
     let activeNodeId = cc_nodeId ctx;
     let (timeoutApplied, w) = applyReceiveTimeout sockopt w;
     if \<not> timeoutApplied then do {
       let w = markOfflineIfKnown activeNodeId (interfere w);
       emitDisconnection J ctx connectTime activeNodeId None SOCKET_CONFIG_ERROR w
     } else do {
       (reason, activeNodeId, connectionSpan, w) \<leftarrow> worker_loop J ctx activeNodeId None w;
       let connectionSpan = fail_span reason connectionSpan;
       let w = markOfflineIfKnown activeNodeId (interfere w);
       w \<leftarrow> emitDisconnection J ctx connectTime activeNodeId connectionSpan reason w;
       Some (case connectionSpan of None \<Rightarrow> w | Some sc \<Rightarrow> OtelScope_close sc w)
     }
   }"

definition handleConnection ::
  "json_lib \<Rightarrow> string option \<Rightarrow> int \<Rightarrow> ConnectionContext \<Rightarrow> 'a world_scheme \<Rightarrow> 'a world_scheme option" where
  "handleConnection J sockopt clientFd ctx w = do {
     w \<leftarrow> (if clientFd < 0 then Some w else connection_body J sockopt ctx w);
     Some (teardown clientFd w)
   }"

subsection \<open>Contract of a session\<close>

inductive serves ::
  "json_lib \<Rightarrow> registry_op list list \<Rightarrow> string \<Rightarrow> registry \<Rightarrow> message list \<Rightarrow> (u32 \<times> reply) list \<Rightarrow> string \<Rightarrow> registry \<Rightarrow> bool"
  for J :: json_lib where
  serves_done: "serves J os n r [] [] n r"
| serves_more:
    "request J (t, i, pl) n (run_registry (next_batch os) r) rep n1 r1 \<Longrightarrow> serves J (tl os) n1 r1 ms reps n2 r2 \<Longrightarrow>
     serves J os n r ((t, i, pl) # ms) ((case rep of None \<Rightarrow> [] | Some x \<Rightarrow> [(i, x)]) @ reps) n2 r2"

fun end_reason :: "FrameReadStatus \<Rightarrow> errno \<Rightarrow> DisconnectReason" where
  "end_reason PEER_CLOSED e = CLEAN_DISCONNECT"
| "end_reason TIMEOUT e = IDLE_TIMEOUT"
| "end_reason IO_ERROR e = (if e = ECONNRESET then ABRUPT_DISCONNECT else RECV_ERROR)"
| "end_reason OK e = RECV_ERROR"

definition reply_frames :: "json_lib \<Rightarrow> (u32 \<times> reply) list \<Rightarrow> bytes option" where
  "reply_frames J reps =
     (if list_all (\<lambda>(i, x). reply_frame J i x \<noteq> None) reps
      then Some (concat (map (\<lambda>(i, x). the (reply_frame J i x)) reps)) else None)"

text \<open>What is left untouched by a session, and the bookkeeping it does.\<close>

definition session_frame :: "MessageType list \<Rightarrow> OtelScope option \<Rightarrow> OtelScope option \<Rightarrow> 'a world_scheme \<Rightarrow> 'a world_scheme \<Rightarrow> bool" where
  "session_frame ts sp sp' w w' \<longleftrightarrow>
     w_active w' = w_active w \<and> w_closed w' = w_closed w
     \<and> (\<exists>es. mt_calls w' = mt_calls w @ es \<and> map fst es = map messageTypeIndex ts)
     \<and> (sp' = None \<longleftrightarrow> sp = None \<and> ts = [])
     \<and> take (length (ot_stack w)) (ot_stack w') = ot_stack w
     \<and> length (ot_stack w') = length (ot_stack w) + (if sp = None \<and> ts \<noteq> [] then 1 else 0)"

lemma reply_frames_cons:
  assumes "reply_sent J i rep s s'" "tx_ok s" "reply_frames J reps = Some bs"
  shows "\<exists>b. reply_frames J ((case rep of None \<Rightarrow> [] | Some x \<Rightarrow> [(i, x)]) @ reps) = Some (b @ bs)
    \<and> io_sent s' = io_sent s @ b"
  using assms
  by (cases rep) (auto simp: reply_sent_def reply_frames_def sendAll_frame split: if_splits)

lemma worker_loop_step:
  assumes "readFrame (w_io w) = (f, s)" "fr_status f = OK" "worker_loop J ctx n sp w = Some res"
  obtains n' sc w1 where "handle_frame J ctx \<lparr>fr_status = OK, fr_messageType = fr_messageType f, fr_messageId = fr_messageId f,
      fr_payload = fr_payload f\<rparr> n sp (w\<lparr>w_io := s\<rparr>) = Some (n', sc, w1)" "worker_loop J ctx n' (Some sc) w1 = Some res"
  using assms frame_status_record [OF assms(2)]
  by (subst (asm) (2) worker_loop.simps) (auto split: option.splits)

lemma worker_loop_stop:
  assumes "readFrame (w_io w) = (f, s)" "fr_status f \<noteq> OK"
  shows "worker_loop J ctx n sp w = Some (end_reason (fr_status f) (io_errno s), n, sp, w\<lparr>w_io := s\<rparr>)"
  using assms by (subst worker_loop.simps) (auto simp: isAbruptDisconnect_def split: FrameReadStatus.splits)

text \<open>
  The loop implements the contract: it serves exactly the messages that the byte stream
  encodes, and ends for the reason the end of the stream gives.
\<close>

definition session_run ::
  "json_lib \<Rightarrow> string \<Rightarrow> 'a world_scheme \<Rightarrow> message list \<Rightarrow> string \<Rightarrow> 'a world_scheme \<Rightarrow> bool" where
  "session_run J n w ms n' w' \<longleftrightarrow>
     (\<exists>reps. serves J (w_interference w) n (w_registry w) ms reps n' (w_registry w')
        \<and> (tx_ok (w_io w) \<longrightarrow> (\<exists>bs. reply_frames J reps = Some bs \<and> io_sent (w_io w') = io_sent (w_io w) @ bs)))"

lemma session_run_cons:
  assumes "handle_frame J ctx \<lparr>fr_status = OK, fr_messageType = t, fr_messageId = i, fr_payload = pl\<rparr> n sp w = Some (n1, sc, w1)"
    and "session_run J n1 w1 ms n' w'"
  shows "session_run J n w ((t, i, pl) # ms) n' w'"
proof -
  obtain rep where r: "request J (t, i, pl) n (run_registry (next_batch (w_interference w)) (w_registry w)) rep n1 (w_registry w1)"
    "reply_sent J i rep (w_io w) (w_io w1)" "w_interference w1 = tl (w_interference w)"
    using handle_frame_effect(1) [OF assms(1)] by blast
  obtain reps where s: "serves J (tl (w_interference w)) n1 (w_registry w1) ms reps n' (w_registry w')"
    "tx_ok (w_io w1) \<Longrightarrow> \<exists>bs. reply_frames J reps = Some bs \<and> io_sent (w_io w') = io_sent (w_io w1) @ bs"
    using assms(2) r(3) by (auto simp: session_run_def)
  show ?thesis
    unfolding session_run_def
  proof (intro exI [of _ "(case rep of None \<Rightarrow> [] | Some x \<Rightarrow> [(i, x)]) @ reps"] conjI impI)
    show "serves J (w_interference w) n (w_registry w) ((t, i, pl) # ms) ((case rep of None \<Rightarrow> [] | Some x \<Rightarrow> [(i, x)]) @ reps) n' (w_registry w')"
      using r(1) s(1) by (rule serves_more)
    assume tx: "tx_ok (w_io w)"
    obtain bs where bs: "reply_frames J reps = Some bs" "io_sent (w_io w') = io_sent (w_io w1) @ bs"
      using s(2) reply_sent_io(2) [OF r(2) tx] by blast
    obtain b where "reply_frames J ((case rep of None \<Rightarrow> [] | Some x \<Rightarrow> [(i, x)]) @ reps) = Some (b @ bs)"
      "io_sent (w_io w1) = io_sent (w_io w) @ b"
      using reply_frames_cons [OF r(2) tx bs(1)] by blast
    then show "\<exists>bs. reply_frames J ((case rep of None \<Rightarrow> [] | Some x \<Rightarrow> [(i, x)]) @ reps) = Some bs
        \<and> io_sent (w_io w') = io_sent (w_io w) @ bs"
      using bs(2) by simp
  qed
qed

lemma session_frame_cons:
  assumes "handle_frame J ctx \<lparr>fr_status = OK, fr_messageType = t, fr_messageId = i, fr_payload = pl\<rparr> n sp w = Some (n1, sc, w1)"
    and "session_frame ts (Some sc) sp' w1 w'"
  shows "session_frame (t # ts) sp sp' w w'"
proof -
  note h = handle_frame_effect(2-4) [OF assms(1)]
  have "take (length (ot_stack w)) (ot_stack w') = ot_stack w"
    using assms(2) h(2,3)
    by (simp add: session_frame_def) (metis le_add1 min.absorb1 take_take)
  then show ?thesis using assms(2) h by (auto simp: session_frame_def)
qed

lemma session_frame_io [simp]: "session_frame ts sp sp' (w\<lparr>w_io := s\<rparr>) w' = session_frame ts sp sp' w w'"
  by (simp add: session_frame_def)

text \<open>Induction over the messages of the stream, along the rounds of the loop.\<close>

lemma worker_loop_induct [consumes 2, case_names stop step]:
  assumes "worker_loop J ctx n sp w = Some (reason, n', sp', w')"
    and "decode_all decode_message (rx_bytes (io_rx (w_io w))) = (ms, rest)"
    and stop: "\<And>n w s. io_kept (w_io w) s \<Longrightarrow> w' = w\<lparr>w_io := s\<rparr> \<Longrightarrow> n' = n \<Longrightarrow>
      reason = end_reason (fr_status (stream_frame rest (rx_end (io_rx (w_io w))))) (io_errno s) \<Longrightarrow> P n sp' w []"
    and step: "\<And>n sp w s t i pl n1 sc w1 ms. io_kept (w_io w) s \<Longrightarrow> rx_end (io_rx (w_io w1)) = rx_end (io_rx (w_io w)) \<Longrightarrow>
      handle_frame J ctx \<lparr>fr_status = OK, fr_messageType = t, fr_messageId = i, fr_payload = pl\<rparr> n sp (w\<lparr>w_io := s\<rparr>) = Some (n1, sc, w1) \<Longrightarrow>
      P n1 (Some sc) w1 ms \<Longrightarrow> P n sp w ((t, i, pl) # ms)"
  shows "P n sp w ms"
  using assms(1,2)
proof (induction "length (rx_bytes (io_rx (w_io w)))" arbitrary: n sp w ms rule: less_induct)
  case less
  obtain f s where rf: "readFrame (w_io w) = (f, s)" by fastforce
  note rd = readFrame_decode [OF rf]
  show ?case
  proof (cases "fr_status f = OK")
    case False
    have "ms = []" "rest = rx_bytes (io_rx (w_io w))"
      using less.prems(2) rd(4) [OF False] by (simp_all add: frames.decode_all_unfold)
    moreover have "reason = end_reason (fr_status f) (io_errno s)" "n' = n" "sp' = sp" "w' = w\<lparr>w_io := s\<rparr>"
      using less.prems(1) worker_loop_stop [OF rf False] by auto
    ultimately show ?thesis using stop [OF rd(2)] rd(1) by simp
  next
    case True
    let ?m = "(fr_messageType f, fr_messageId f, fr_payload f)"
    obtain n1 sc w1 where h: "handle_frame J ctx \<lparr>fr_status = OK, fr_messageType = fr_messageType f,
        fr_messageId = fr_messageId f, fr_payload = fr_payload f\<rparr> n sp (w\<lparr>w_io := s\<rparr>) = Some (n1, sc, w1)"
      and l: "worker_loop J ctx n1 (Some sc) w1 = Some (reason, n', sp', w')"
      using rf True less.prems(1) by (rule worker_loop_step)
    have rx: "io_rx (w_io w1) = io_rx s"
      using handle_frame_effect(1) [OF h] reply_sent_io(1) by fastforce
    have d: "decode_message (rx_bytes (io_rx (w_io w))) = Some (?m, rx_bytes (io_rx s))" "rx_end (io_rx s) = rx_end (io_rx (w_io w))"
      using rd(3) [OF True] by auto
    obtain ms1 where ms: "ms = ?m # ms1" "decode_all decode_message (rx_bytes (io_rx (w_io w1))) = (ms1, rest)"
      using less.prems(2) d(1) by (subst (asm) frames.decode_all_unfold) (auto simp: rx Let_def split: prod.splits)
    have sh: "length (rx_bytes (io_rx (w_io w1))) < length (rx_bytes (io_rx (w_io w)))"
      using frames.decode_shrinks [OF d(1)] by (simp add: rx)
    show ?thesis
      unfolding ms(1) using rd(2) _ h less.hyps [OF sh l ms(2)] by (rule step) (simp add: rx d(2))
  qed
qed

lemma worker_loop_serves:
  assumes "worker_loop J ctx n sp w = Some (reason, n', sp', w')"
    and "decode_all decode_message (rx_bytes (io_rx (w_io w))) = (ms, rest)"
  shows "session_run J n w ms n' w' \<and> session_frame (map fst ms) sp sp' w w'
    \<and> reason = end_reason (fr_status (stream_frame rest (rx_end (io_rx (w_io w))))) (io_errno (w_io w'))"
  using assms
proof (induction rule: worker_loop_induct)
  case (stop n w s)
  then show ?case using serves_done by (force simp: session_run_def session_frame_def reply_frames_def io_kept_def)
next
  case (step n sp w s t i pl n1 sc w1 ms)
  have "session_run J n (w\<lparr>w_io := s\<rparr>) ((t, i, pl) # ms) n' w'" using step.hyps(3) step.IH by (blast intro: session_run_cons)
  then have "session_run J n w ((t, i, pl) # ms) n' w'" using step.hyps(1) by (simp add: session_run_def io_kept_def tx_ok_def)
  moreover have "session_frame (map fst ((t, i, pl) # ms)) sp sp' w w'"
    using session_frame_cons [OF step.hyps(3)] step.IH by simp
  ultimately show ?case using step.IH step.hyps(2) by simp
qed

subsection \<open>The whole connection\<close>

text \<open>The registry when a connection has ended: other threads' operations, then the node goes offline.\<close>

definition left_offline :: "string \<Rightarrow> registry \<Rightarrow> registry \<Rightarrow> bool" where
  "left_offline n r r' \<longleftrightarrow>
     (\<exists>ops t. r' = (if n = [] then run_registry ops r else setOffline t n (run_registry ops r)))"

lemma markOffline_effect:
  "left_offline n (w_registry w) (w_registry (markOfflineIfKnown n (interfere w)))"
  "core (markOfflineIfKnown n (interfere w)) = core (interfere w)\<lparr>w_registry := w_registry (markOfflineIfKnown n (interfere w))\<rparr>"
  "ot_stack (markOfflineIfKnown n (interfere w)) = ot_stack w"
proof -
  obtain ops where o: "w_registry (interfere w) = run_registry ops (w_registry w)" using interfere_history by blast
  show "left_offline n (w_registry w) (w_registry (markOfflineIfKnown n (interfere w)))"
    unfolding left_offline_def
    by (rule exI [of _ ops], rule exI [of _ "h_system (interfere w) (h_reads (interfere w))"])
       (simp add: markOfflineIfKnown_def world_setOffline_def system_now_def o)
  show "core (markOfflineIfKnown n (interfere w)) = core (interfere w)\<lparr>w_registry := w_registry (markOfflineIfKnown n (interfere w))\<rparr>"
    "ot_stack (markOfflineIfKnown n (interfere w)) = ot_stack w"
    by (simp_all add: markOfflineIfKnown_def world_setOffline_def system_now_def core_interfere)
qed

lemma emitDisconnection_effect:
  assumes "emitDisconnection J ctx t0 n sp reason w = Some w'"
  shows "core w' = core w \<and> ot_stack w' = ot_stack w"
proof (cases "sp = None")
  case True
  then show ?thesis using assms by (simp add: emitDisconnection_def)
next
  case False
  define w0 where "w0 = w\<lparr>h_reads := Suc (h_reads w)\<rparr>"
  obtain d where "with_span ''client_disconnection'' (disconnection_body J ctx d n reason) w0 = Some w'"
    using assms False by (auto simp: emitDisconnection_def steady_now_def w0_def Let_def)
  then have "core w' = core w0 \<and> ot_stack w' = ot_stack w0"
    by (rule with_span_effect)
       (auto simp: disconnection_body_def Let_def logged_def dest!: log_logged split: bind_splits)
  then show ?thesis by (simp add: w0_def)
qed

text \<open>The end of a connection: marking offline, the disconnection record, the span's destructor.\<close>

lemma connection_end_effect:
  assumes "emitDisconnection J ctx t0 n sp reason (markOfflineIfKnown n (interfere w)) = Some w1"
    and "w' = (case sp of None \<Rightarrow> w1 | Some sc \<Rightarrow> OtelScope_close sc w1)"
  shows "left_offline n (w_registry w) (w_registry w') \<and> w_io w' = w_io w \<and> w_active w' = w_active w
    \<and> w_closed w' = w_closed w \<and> mt_calls w' = mt_calls w
    \<and> ot_stack w' = (if sp = None then ot_stack w else butlast (ot_stack w))"
proof -
  let ?m = "markOfflineIfKnown n (interfere w)"
  have e: "core w1 = core ?m" "ot_stack w1 = ot_stack ?m" using emitDisconnection_effect [OF assms(1)] by auto
  have c: "core w' = core ?m" "ot_stack w' = (if sp = None then ot_stack w else butlast (ot_stack w))"
    using e markOffline_effect(3) by (auto simp: assms(2) OtelScope_close_eq split: option.splits)
  show ?thesis
    using markOffline_effect(1) [of n w] core_eqD [OF c(1)] c(2)
      arg_cong [OF markOffline_effect(2) [of n w], of w_io] arg_cong [OF markOffline_effect(2) [of n w], of w_active]
      arg_cong [OF markOffline_effect(2) [of n w], of w_closed] arg_cong [OF markOffline_effect(2) [of n w], of mt_calls]
    by simp
qed

lemma handleConnection_cases:
  assumes "handleConnection J None fd ctx w = Some w'" "0 \<le> fd"
  obtains reason n sp w1 w2 where
    "worker_loop J ctx (cc_nodeId ctx) None (w\<lparr>h_reads := Suc (h_reads w)\<rparr>) = Some (reason, n, sp, w1)"
    "emitDisconnection J ctx (h_steady w (h_reads w)) n (fail_span reason sp) reason (markOfflineIfKnown n (interfere w1)) = Some w2"
    "w' = teardown fd (case fail_span reason sp of None \<Rightarrow> w2 | Some sc \<Rightarrow> OtelScope_close sc w2)"
  using assms by (auto simp: handleConnection_def connection_body_def steady_now_def Let_def split: bind_splits)

lemma handleConnection_effect:
  assumes "handleConnection J None fd ctx w = Some w'" "0 \<le> fd"
    and d: "decode_all decode_message (rx_bytes (io_rx (w_io w))) = (ms, rest)"
  shows "\<exists>reps n r. serves J (w_interference w) (cc_nodeId ctx) (w_registry w) ms reps n r \<and> left_offline n r (w_registry w')
      \<and> (tx_ok (w_io w) \<longrightarrow> (\<exists>bs. reply_frames J reps = Some bs \<and> io_sent (w_io w') = io_sent (w_io w) @ bs))"
    and "w_active w' = w_active w - 1" "w_closed w' = w_closed w @ [fd]" "ot_stack w' = ot_stack w"
    and "\<exists>es. mt_calls w' = mt_calls w @ es \<and> map fst es = map (messageTypeIndex \<circ> fst) ms"
proof -
  define w0 where "w0 = w\<lparr>h_reads := Suc (h_reads w)\<rparr>"
  obtain reason n sp w1 w2 where l: "worker_loop J ctx (cc_nodeId ctx) None w0 = Some (reason, n, sp, w1)"
    and e: "emitDisconnection J ctx (h_steady w (h_reads w)) n (fail_span reason sp) reason (markOfflineIfKnown n (interfere w1)) = Some w2"
    and w': "w' = teardown fd (case fail_span reason sp of None \<Rightarrow> w2 | Some sc \<Rightarrow> OtelScope_close sc w2)"
    using handleConnection_cases [OF assms(1,2)] unfolding w0_def by blast
  have d0: "decode_all decode_message (rx_bytes (io_rx (w_io w0))) = (ms, rest)" using d by (simp add: w0_def)
  note ws = worker_loop_serves [OF l d0]
  note ce = connection_end_effect [OF e refl]
  have "butlast (ot_stack w1) = ot_stack w" if "ms \<noteq> []"
    using ws that by (auto simp: session_frame_def w0_def butlast_conv_take)
  moreover have "ot_stack w1 = ot_stack w" if "ms = []"
    using ws that by (auto simp: session_frame_def w0_def)
  ultimately show "ot_stack w' = ot_stack w"
    using ce ws by (auto simp: w' teardown_def session_frame_def)
  show "\<exists>reps n r. serves J (w_interference w) (cc_nodeId ctx) (w_registry w) ms reps n r \<and> left_offline n r (w_registry w')
      \<and> (tx_ok (w_io w) \<longrightarrow> (\<exists>bs. reply_frames J reps = Some bs \<and> io_sent (w_io w') = io_sent (w_io w) @ bs))"
    using ws ce by (auto simp: session_run_def w' teardown_def w0_def)
  show "w_active w' = w_active w - 1" "w_closed w' = w_closed w @ [fd]"
    "\<exists>es. mt_calls w' = mt_calls w @ es \<and> map fst es = map (messageTypeIndex \<circ> fst) ms"
    using ws ce assms(2) by (simp_all add: w' teardown_def session_frame_def w0_def)
qed

text \<open>A socket on which the timeout cannot be set: no frame is read and no request served.\<close>

lemma handleConnection_unconfigured:
  assumes "handleConnection J (Some err) fd ctx w = Some w'" "0 \<le> fd"
  shows "left_offline (cc_nodeId ctx) (w_registry w) (w_registry w')" "w_io w' = w_io w"
    "w_active w' = w_active w - 1" "w_closed w' = w_closed w @ [fd]" "ot_stack w' = ot_stack w" "mt_calls w' = mt_calls w"
proof -
  let ?w = "snd (applyReceiveTimeout (Some err) (w\<lparr>h_reads := Suc (h_reads w)\<rparr>))"
  obtain w1 where e: "emitDisconnection J ctx (h_steady w (h_reads w)) (cc_nodeId ctx) None SOCKET_CONFIG_ERROR
      (markOfflineIfKnown (cc_nodeId ctx) (interfere ?w)) = Some w1" and w': "w' = teardown fd w1"
    using assms by (auto simp: handleConnection_def connection_body_def steady_now_def applyReceiveTimeout_def Let_def split: bind_splits)
  have "w1 = (case None of None \<Rightarrow> w1 | Some sc \<Rightarrow> OtelScope_close sc w1)" by simp
  note ce = connection_end_effect [OF e this]
  show "left_offline (cc_nodeId ctx) (w_registry w) (w_registry w')" "w_io w' = w_io w"
    "w_active w' = w_active w - 1" "w_closed w' = w_closed w @ [fd]" "ot_stack w' = ot_stack w" "mt_calls w' = mt_calls w"
    using ce assms(2) by (simp_all add: w' teardown_def applyReceiveTimeout_def)
qed

subsection \<open>Consequences of the contract\<close>

definition wants_reply :: "message \<Rightarrow> bool" where
  "wants_reply m \<longleftrightarrow> fst m \<noteq> HEARTBEAT"

lemma request_reply: "request J (t, i, pl) n r rep n' r' \<Longrightarrow> rep = None \<longleftrightarrow> t = HEARTBEAT"
  by (auto elim: request_elim)

lemma serves_ids:
  "serves J os n r ms reps n' r' \<Longrightarrow> map fst reps = map (\<lambda>m. fst (snd m)) (filter wants_reply ms)"
proof (induction rule: serves.induct)
  case (serves_more t i pl n os r rep n1 r1 ms reps n2 r2)
  then show ?case
    using request_reply [OF serves_more.hyps(1)] by (cases rep) (auto simp: wants_reply_def)
qed simp

lemma request_wf: "request J m n r rep n' r' \<Longrightarrow> wf_registry r \<Longrightarrow> wf_registry r'"
proof (induction rule: request.induct)
  case (request_register i pl r rep r' n)
  then show ?case
    by (auto simp: register_spec_code Let_def inv_intros split: option.splits if_splits prod.splits dest: wf_registerNode)
       (metis snd_conv wf_registerNode)+
qed (simp_all add: inv_intros)

lemma serves_wf: "serves J os n r ms reps n' r' \<Longrightarrow> wf_registry r \<Longrightarrow> wf_registry r'"
  by (induction rule: serves.induct) (simp_all add: request_wf wf_run_registry)

lemma left_offline_wf: "left_offline n r r' \<Longrightarrow> wf_registry r \<Longrightarrow> wf_registry r'"
  by (auto simp: left_offline_def inv_intros wf_run_registry split: if_splits)

lemma left_offline_status:
  assumes "left_offline n r r'" "wf_registry r" "queryNode n r \<noteq> None"
  shows "\<exists>e. queryNode n r' = Some e \<and> ne_status e = OFFLINE"
proof -
  obtain ops t where o: "r' = (if n = [] then run_registry ops r else setOffline t n (run_registry ops r))"
    using assms(1) by (auto simp: left_offline_def)
  have w: "wf_registry (run_registry ops r)" using assms(2) by (rule wf_run_registry)
  have "n \<noteq> []" using assms(2,3) nreg.query_id by auto
  moreover have "queryNode n (run_registry ops r) \<noteq> None" using assms(2,3) by (rule run_registry_keeps)
  ultimately show ?thesis using nreg.query_offline [OF w] by (auto simp: o)
qed

text \<open>The node that a connection stands for after a sequence of requests: the last one a REGISTER named.\<close>

fun session_node :: "json_lib \<Rightarrow> string \<Rightarrow> message list \<Rightarrow> string" where
  "session_node J n [] = n"
| "session_node J n ((t, i, pl) # ms) =
     session_node J (if t = REGISTER then (case named_node J pl of Some k \<Rightarrow> k | None \<Rightarrow> n) else n) ms"

lemma request_node: "request J (t, i, pl) n r rep n' r' \<Longrightarrow> n' = (if t = REGISTER then (case named_node J pl of Some k \<Rightarrow> k | None \<Rightarrow> n) else n)"
  by (auto elim!: request_elim split: option.splits)

lemma serves_node: "serves J os n r ms reps n' r' \<Longrightarrow> n' = session_node J n ms"
proof (induction rule: serves.induct)
  case (serves_more t i pl n os r rep n1 r1 ms reps n2 r2)
  then show ?case using request_node [OF serves_more.hyps(1)] by simp
qed simp

lemma session_node_named:
  assumes "named_node J pl = Some k" "\<forall>(t, i', pl') \<in> set post. t = REGISTER \<longrightarrow> named_node J pl' = None"
  shows "session_node J n (pre @ (REGISTER, i, pl) # post) = k"
proof -
  have "session_node J m post = m" for m
    using assms(2) by (induction J m post rule: session_node.induct) (auto split: option.splits)
  then show ?thesis using assms(1) by (induction J n pre rule: session_node.induct) simp_all
qed

lemma left_offline_found:
  assumes "left_offline n r r'" "wf_registry r" "queryNode n r' = Some e"
  shows "ne_status e = OFFLINE"
proof -
  obtain ops t where o: "r' = (if n = [] then run_registry ops r else setOffline t n (run_registry ops r))"
    using assms(1) by (auto simp: left_offline_def)
  have w: "wf_registry (run_registry ops r)" using assms(2) by (rule wf_run_registry)
  have "n \<noteq> []" using assms(3) nreg.query_id [OF left_offline_wf [OF assms(1,2)]] by auto
  then show ?thesis using assms(3) nreg.query_offline [OF w] by (auto simp: o)
qed

lemma request_keeps:
  "request J m n r rep n' r' \<Longrightarrow> wf_registry r \<Longrightarrow> queryNode k r \<noteq> None \<Longrightarrow> queryNode k r' \<noteq> None"
proof (induction rule: request.induct)
  case (request_register i pl r rep r' n)
  then have "r' = r \<or> (\<exists>e. r' = snd (registerNode e r))"
    by (auto simp: register_spec_code Let_def split: option.splits if_splits prod.splits) (metis snd_conv)+
  then show ?case using request_register nreg.reg_keeps by auto
qed (simp_all add: nreg.seen_keeps)

lemma serves_keeps:
  "serves J os n r ms reps n' r' \<Longrightarrow> wf_registry r \<Longrightarrow> queryNode k r \<noteq> None \<Longrightarrow> queryNode k r' \<noteq> None"
proof (induction rule: serves.induct)
  case (serves_more t i pl n os r rep n1 r1 ms reps n2 r2)
  have w: "wf_registry (run_registry (next_batch os) r)" using serves_more.prems(1) by (rule wf_run_registry)
  show ?case
    using serves_more.IH [OF request_wf [OF serves_more.hyps(1) w]
        request_keeps [OF serves_more.hyps(1) w run_registry_keeps [OF serves_more.prems]]] .
qed simp

text \<open>A valid registration leaves its node in the registry, whether it is accepted or refused.\<close>

inductive_cases serves_cons: "serves J os n r (m # ms) reps n' r'"

lemma request_known:
  assumes "request J (REGISTER, i, pl) n r rep n' r'" "parse J pl = Some j" "registration j = Some e"
  shows "queryNode (ne_node_id e) r' \<noteq> None"
  using assms(1)
proof (rule request_elim)
  fix rep'
  assume "register_spec J i pl r = (rep', r')"
  then show ?thesis using assms(2,3) by (auto simp: register_spec_def queryNode_def update_conv' split: if_splits)
qed simp_all

lemma serves_known:
  assumes "parse J pl = Some j" "registration j = Some e"
  shows "serves J os n r (pre @ (REGISTER, i, pl) # post) reps n' r' \<Longrightarrow> wf_registry r \<Longrightarrow> queryNode (ne_node_id e) r' \<noteq> None"
proof (induction pre arbitrary: os n r reps)
  case Nil
  from Nil(1) [simplified] obtain rep n1 r1 reps' where s: "request J (REGISTER, i, pl) n (run_registry (next_batch os) r) rep n1 r1"
      "serves J (tl os) n1 r1 post reps' n' r'" by (rule serves_cons) blast
  show ?case
    using serves_keeps [OF s(2) request_wf [OF s(1) wf_run_registry [OF Nil(2)]] request_known [OF s(1) assms]] .
next
  case (Cons m pre)
  from Cons.prems(1) [simplified] obtain t i' pl' rep n1 r1 reps' where s: "request J (t, i', pl') n (run_registry (next_batch os) r) rep n1 r1"
      "serves J (tl os) n1 r1 (pre @ (REGISTER, i, pl) # post) reps' n' r'" by (rule serves_cons) blast
  show ?case using Cons.IH [OF s(2) request_wf [OF s(1) wf_run_registry [OF Cons.prems(2)]]] .
qed

lemma left_offline_keeps:
  "left_offline n r r' \<Longrightarrow> wf_registry r \<Longrightarrow> queryNode k r \<noteq> None \<Longrightarrow> queryNode k r' \<noteq> None"
  using run_registry_keeps nreg.offline_keeps [OF wf_run_registry] by (auto simp: left_offline_def split: if_splits)

lemma connection_keeps:
  assumes "handleConnection J None fd ctx w = Some w'" "0 \<le> fd" "wf_registry (w_registry w)"
    and "queryNode k (w_registry w) \<noteq> None"
  shows "queryNode k (w_registry w') \<noteq> None"
proof -
  obtain ms rest where d: "decode_all decode_message (rx_bytes (io_rx (w_io w))) = (ms, rest)" by fastforce
  obtain reps n r where s: "serves J (w_interference w) (cc_nodeId ctx) (w_registry w) ms reps n r" "left_offline n r (w_registry w')"
    using handleConnection_effect(1) [OF assms(1,2) d] by blast
  show ?thesis using left_offline_keeps [OF s(2) serves_wf [OF s(1) assms(3)] serves_keeps [OF s(1) assms(3,4)]] .
qed

end
