(* ===== verification/Tracing.thy ===== *)
theory Tracing
  imports ConnectionWorker
begin

text \<open>
  The trace of a connection: which spans \<^verbatim>\<open>src/connectionWorker.cpp\<close> and the handlers export, how
  they hang together, and what the spans at the end say about the way the connection ended.

  A handler opens one span with \<open>with_span\<close>; \<open>keeps_span\<close> says that the code inside exports nothing and
  changes only the attributes and the status of its span. \<open>traced\<close> is the invariant of the receive loop.
\<close>

subsection \<open>Code inside a span\<close>

definition same_span :: "OtelScope \<Rightarrow> OtelScope \<Rightarrow> bool" where
  "same_span a b \<longleftrightarrow> os_traceId a = os_traceId b \<and> os_spanId a = os_spanId b \<and> os_parentSpanId a = os_parentSpanId b \<and> os_name a = os_name b"

lemma same_span_refl [simp]: "same_span a a"
  by (simp add: same_span_def)

lemma same_span_trans: "same_span a b \<Longrightarrow> same_span b c \<Longrightarrow> same_span a c"
  by (simp add: same_span_def)

lemma same_span_update [simp]:
  "same_span a (setAttribute k v b) = same_span a b" "same_span a (recordError d b) = same_span a b"
  "same_span (setAttribute k v a) b = same_span a b" "same_span (recordError d a) b = same_span a b"
  by (simp_all add: same_span_def setAttribute_def recordError_def)

definition keeps_span :: "(OtelScope \<Rightarrow> 'a world_scheme \<Rightarrow> (OtelScope \<times> 'a world_scheme) option) \<Rightarrow> bool" where
  "keeps_span body \<longleftrightarrow> (\<forall>sc w sc' w'. body sc w = Some (sc', w') \<longrightarrow>
     same_span sc sc' \<and> ot_pending w' = ot_pending w \<and> ot_stack w' = ot_stack w)"

lemma keeps_spanI:
  "(\<And>sc w sc' w'. body sc w = Some (sc', w') \<Longrightarrow> same_span sc sc' \<and> ot_pending w' = ot_pending w \<and> ot_stack w' = ot_stack w) \<Longrightarrow> keeps_span body"
  by (simp add: keeps_span_def)

lemma keeps_spanD:
  "keeps_span body \<Longrightarrow> body sc w = Some (sc', w') \<Longrightarrow> same_span sc sc' \<and> ot_pending w' = ot_pending w \<and> ot_stack w' = ot_stack w"
  by (simp add: keeps_span_def)

lemma send_error_spans: "send_error J i c d w = Some w' \<Longrightarrow> ot_pending w' = ot_pending w \<and> ot_stack w' = ot_stack w"
  by (auto simp: send_error_def split: bind_splits)

lemma keeps_malformed: "keeps_span (register_malformed J i sid t d)"
  by (rule keeps_spanI) (auto simp: register_malformed_def Let_def logged_def dest!: log_logged send_error_spans split: bind_splits)

lemma keeps_finish: "keeps_span (register_finish J i sid n res)"
  by (rule keeps_spanI)
     (auto simp: register_finish_def Let_def logged_def simp del: append.simps dest!: log_logged send_error_spans split: bind_splits if_splits)

lemma keeps_query_fail: "keeps_span (query_fail J t0 i sid n c cn text)"
  by (rule keeps_spanI)
     (auto simp: query_fail_def Let_def logged_def set_duration_def steady_now_def dest!: log_logged send_error_spans split: bind_splits)

lemma keeps_query_found: "keeps_span (query_found J t0 i sid n e)"
  by (rule keeps_spanI) (auto simp: query_found_def Let_def logged_def set_duration_def steady_now_def dest!: log_logged split: bind_splits)

lemma keeps_register: "keeps_span (register_body J t0 i pl sid)"
  by (rule keeps_spanI)
     (auto simp: register_body_def Let_def set_duration_def steady_now_def case_prod_beta simp del: append.simps
       dest!: keeps_spanD [OF keeps_malformed] keeps_spanD [OF keeps_finish] split: option.splits if_splits)

lemma keeps_query: "keeps_span (query_body J t0 i pl sid)"
  by (rule keeps_spanI)
     (auto simp: query_body_def Let_def simp del: append.simps
       dest!: keeps_spanD [OF keeps_query_fail] keeps_spanD [OF keeps_query_found] split: option.splits if_splits)

lemma keeps_list: "keeps_span (list_body J t0 i sid)"
  by (rule keeps_spanI) (auto simp: list_body_def Let_def logged_def steady_now_def dest!: log_logged split: bind_splits)

lemma keeps_heartbeat: "keeps_span (heartbeat_body J n sid)"
  by (rule keeps_spanI)
     (auto simp: heartbeat_body_def world_updateLastSeen_def system_now_def Let_def logged_def case_prod_beta
       dest!: log_logged split: bind_splits if_splits)

subsection \<open>Spans of a connection\<close>

text \<open>A finished span below the open scope \<open>sc\<close>.\<close>

definition child_of :: "OtelScope \<Rightarrow> FinishedSpan \<Rightarrow> bool" where
  "child_of sc s \<longleftrightarrow> fs_traceId s = os_traceId sc \<and> fs_parentSpanId s = os_spanId sc \<and> hex_id 16 (fs_spanId s)"

lemma child_of_same: "same_span a b \<Longrightarrow> child_of a s = child_of b s"
  by (simp add: child_of_def same_span_def)

definition scope_ids :: "OtelScope \<Rightarrow> string \<times> string" where
  "scope_ids sc = (os_traceId sc, os_spanId sc)"

lemma scope_ids_same: "same_span a b \<Longrightarrow> scope_ids a = scope_ids b"
  by (simp add: scope_ids_def same_span_def)

lemma with_span_child:
  assumes "with_span name body w = Some w'" "keeps_span body" "ot_stack w = [scope_ids sc]"
  shows "\<exists>s. ot_pending w' = ot_pending w @ [s] \<and> fs_name s = name \<and> child_of sc s \<and> ot_stack w' = ot_stack w"
  using assms(1)
proof (rule with_span_cases)
  fix c w1 c' w2 t
  assume o: "opened name [] w c" and s: "ot_stack w1 = ot_stack w @ [(os_traceId c, os_spanId c)]" "ot_pending w1 = ot_pending w"
    and b: "body c w1 = Some (c', w2)"
    and e: "ot_stack w' = butlast (ot_stack w2)" "ot_pending w' = ot_pending w2 @ [finish_span c' (dec_of_int t)]"
  have "child_of sc (finish_span c' (dec_of_int t))" "fs_name (finish_span c' (dec_of_int t)) = name"
    using o keeps_spanD [OF assms(2) b] assms(3)
    by (simp_all add: opened_def child_of_def finish_span_def same_span_def parentSpanId_def scope_ids_def)
  then show ?thesis using keeps_spanD [OF assms(2) b] s e by simp
qed

text \<open>The spans a request leaves: one per known operation, none for an unknown type.\<close>

fun request_spans :: "MessageType \<Rightarrow> string list" where
  "request_spans REGISTER = [''register_node'']"
| "request_spans QUERY_NODE = [''query_node'']"
| "request_spans LIST_NODES = [''list_nodes'']"
| "request_spans HEARTBEAT = [''heartbeat'']"
| "request_spans _ = []"

definition spans_added :: "string list \<Rightarrow> OtelScope \<Rightarrow> 'a world_scheme \<Rightarrow> 'a world_scheme \<Rightarrow> bool" where
  "spans_added names sc w w' \<longleftrightarrow>
     ot_stack w' = [scope_ids sc] \<and> (\<exists>ss. ot_pending w' = ot_pending w @ ss \<and> map fs_name ss = names \<and> list_all (child_of sc) ss)"

lemma spans_added_trans:
  "spans_added as sc w w1 \<Longrightarrow> spans_added bs sc w1 w2 \<Longrightarrow> spans_added (as @ bs) sc w w2"
  by (auto simp: spans_added_def)

lemma spans_added_same: "same_span a b \<Longrightarrow> spans_added ns a w w' = spans_added ns b w w'"
  using child_of_same [of a b] by (simp add: spans_added_def scope_ids_same fun_eq_iff cong: list.pred_cong)

lemma with_span_added:
  assumes "with_span name body w = Some w'" "keeps_span body" "ot_stack w = [scope_ids sc]"
  shows "spans_added [name] sc w w'"
  using with_span_child [OF assms] assms(3) by (fastforce simp: spans_added_def)

subsection \<open>One request\<close>

lemma dispatch_spans:
  assumes "dispatch J ctx \<lparr>fr_status = OK, fr_messageType = t, fr_messageId = i, fr_payload = pl\<rparr> n sc w = Some (n', sc', w')"
    and "ot_stack w = [scope_ids sc]"
  shows "spans_added (request_spans t) sc w w'"
proof -
  let ?w = "w\<lparr>h_reads := Suc (h_reads w)\<rparr>"
  have w: "ot_stack ?w = [scope_ids sc]" "spans_added ns sc ?w w' = spans_added ns sc w w'" for ns
    using assms(2) by (simp_all add: spans_added_def)
  show ?thesis
  proof (cases t)
    case REGISTER
    then have h: "with_span ''register_node'' (register_body J (h_steady w (h_reads w)) i pl (cc_sessionId ctx)) ?w = Some w'"
      using assms(1) by (auto simp: dispatch_def RegisterHandler_handle_def steady_now_def Let_def split: bind_splits)
    show ?thesis using with_span_added [OF h keeps_register w(1)] w(2) REGISTER by simp
  next
    case QUERY_NODE
    then have h: "with_span ''query_node'' (query_body J (h_steady w (h_reads w)) i pl (cc_sessionId ctx)) ?w = Some w'"
      using assms(1) by (auto simp: dispatch_def QueryHandler_handle_def handleQueryNode_def steady_now_def split: bind_splits)
    show ?thesis using with_span_added [OF h keeps_query w(1)] w(2) QUERY_NODE by simp
  next
    case LIST_NODES
    then have h: "with_span ''list_nodes'' (list_body J (h_steady w (h_reads w)) i (cc_sessionId ctx)) ?w = Some w'"
      using assms(1) by (auto simp: dispatch_def QueryHandler_handle_def handleListNodes_def steady_now_def split: bind_splits)
    show ?thesis using with_span_added [OF h keeps_list w(1)] w(2) LIST_NODES by simp
  next
    case HEARTBEAT
    then have h: "with_span ''heartbeat'' (heartbeat_body J n (cc_sessionId ctx)) w = Some w'"
      using assms(1) by (auto simp: dispatch_def HeartbeatHandler_handle_def split: bind_splits)
    show ?thesis using with_span_added [OF h keeps_heartbeat assms(2)] HEARTBEAT by simp
  qed (use assms in \<open>auto simp: dispatch_def spans_added_def dest!: send_error_spans split: bind_splits\<close>)
qed

text \<open>A REGISTER whose payload is not JSON marks the span of the connection as failed.\<close>

definition unreadable :: "json_lib \<Rightarrow> message \<Rightarrow> bool" where
  "unreadable J = (\<lambda>(t, i, pl). t = REGISTER \<and> parse J pl = None)"

lemma dispatch_scope:
  assumes "dispatch J ctx \<lparr>fr_status = OK, fr_messageType = t, fr_messageId = i, fr_payload = pl\<rparr> n sc w = Some (n', sc', w')"
  shows "same_span sc sc' \<and> os_statusCode sc' = (if unreadable J (t, i, pl) then 2 else os_statusCode sc)"
  using assms
  by (cases t) (auto simp: dispatch_def track_span_def unreadable_def recordError_def same_span_def Let_def split: bind_splits)

text \<open>The root span of a connection.\<close>

definition root_scope :: "OtelScope \<Rightarrow> bool" where
  "root_scope sc \<longleftrightarrow> os_name sc = ''client_connection'' \<and> os_parentSpanId sc = [] \<and> hex_id 32 (os_traceId sc) \<and> hex_id 16 (os_spanId sc)"

lemma root_scope_same: "same_span a b \<Longrightarrow> root_scope a = root_scope b"
  by (simp add: root_scope_def same_span_def)

definition scope_status :: "OtelScope option \<Rightarrow> int" where
  "scope_status sp = (case sp of None \<Rightarrow> 0 | Some sc \<Rightarrow> os_statusCode sc)"

definition span_open :: "OtelScope option \<Rightarrow> 'a world_scheme \<Rightarrow> bool" where
  "span_open sp w \<longleftrightarrow> (case sp of None \<Rightarrow> ot_stack w = [] | Some sc \<Rightarrow> root_scope sc \<and> ot_stack w = [scope_ids sc])"

lemma ensureConnectionSpan_root:
  assumes "ensureConnectionSpan J ctx sp w = Some (sc, w')" "span_open sp w"
  shows "root_scope sc \<and> spans_added [] sc w w' \<and> os_statusCode sc = scope_status sp \<and> (sp = None \<or> sp = Some sc)"
proof (cases sp)
  case None
  obtain sc0 d where o: "OtelScope_connection (cc_sessionId ctx) (cc_clientIp ctx) w =
       (sc0, w\<lparr>h_draws := d, h_reads := Suc (h_reads w), ot_stack := ot_stack w @ [(os_traceId sc0, os_spanId sc0)]\<rparr>)"
    "opened ''client_connection'' [(''session.id'', StringValue (cc_sessionId ctx)), (''net.peer.ip'', StringValue (cc_clientIp ctx))] w sc0"
    unfolding OtelScope_connection_def by (rule scope_open_cases)
  have "root_scope sc0" "os_statusCode sc0 = 0" using o(2) assms(2) None by (simp_all add: opened_def root_scope_def span_open_def parentSpanId_def)
  moreover have "same_span sc0 sc \<and> os_statusCode sc = os_statusCode sc0 \<and> ot_stack w' = ot_stack w @ [scope_ids sc0] \<and> ot_pending w' = ot_pending w"
    using assms(1) o(1)
    by (auto simp: ensureConnectionSpan_def None Let_def logged_def scope_ids_def setAttribute_def same_span_def dest!: log_logged split: bind_splits)
  ultimately show ?thesis
    using assms(2) scope_ids_same [of sc0 sc] root_scope_same [of sc0 sc] by (simp add: None span_open_def spans_added_def scope_status_def)
next
  case (Some sc0)
  then show ?thesis using assms by (auto simp: ensureConnectionSpan_def span_open_def spans_added_def scope_status_def)
qed

lemma handle_frame_spans:
  assumes "handle_frame J ctx \<lparr>fr_status = OK, fr_messageType = t, fr_messageId = i, fr_payload = pl\<rparr> n sp w = Some (n', sc, w')"
    and "span_open sp w"
  shows "root_scope sc \<and> spans_added (request_spans t) sc w w'
    \<and> os_statusCode sc = (if unreadable J (t, i, pl) then 2 else scope_status sp) \<and> (\<forall>sc0. sp = Some sc0 \<longrightarrow> same_span sc0 sc)"
proof -
  let ?f = "\<lparr>fr_status = OK, fr_messageType = t, fr_messageId = i, fr_payload = pl\<rparr>"
  obtain sc1 w1 where e: "ensureConnectionSpan J ctx sp w = Some (sc1, w1)"
    using assms(1) by (auto simp: handle_frame_def split: bind_splits)
  define w2 where "w2 = interfere (w1\<lparr>h_reads := Suc (h_reads w1)\<rparr>)"
  obtain w3 el where d: "dispatch J ctx ?f n sc1 w2 = Some (n', sc, w3)"
    and w': "w' = recordMessage t el (w3\<lparr>h_reads := Suc (h_reads w3)\<rparr>)"
    using assms(1) e by (auto simp: handle_frame_def steady_now_def w2_def split: bind_splits)
  note en = ensureConnectionSpan_root [OF e assms(2)]
  have "spans_added [] sc1 w w2" using en by (simp add: spans_added_def w2_def)
  moreover have "spans_added (request_spans t) sc1 w2 w3" using dispatch_spans [OF d] calculation by (simp add: spans_added_def)
  ultimately have "spans_added (request_spans t) sc1 w w3" using spans_added_trans by fastforce
  then have "spans_added (request_spans t) sc1 w w'" by (simp add: w' recordMessage_def spans_added_def)
  then show ?thesis using en dispatch_scope [OF d] root_scope_same [of sc1 sc] spans_added_same [of sc1 sc] by auto
qed

subsection \<open>The loop\<close>

definition traced ::
  "json_lib \<Rightarrow> message list \<Rightarrow> OtelScope option \<Rightarrow> OtelScope option \<Rightarrow> 'a world_scheme \<Rightarrow> 'a world_scheme \<Rightarrow> bool" where
  "traced J ms sp sp' w w' \<longleftrightarrow>
     (case sp' of
        None \<Rightarrow> sp = None \<and> ms = [] \<and> ot_pending w' = ot_pending w \<and> ot_stack w' = []
      | Some sc \<Rightarrow>
          root_scope sc \<and> spans_added (concat (map (request_spans \<circ> fst) ms)) sc w w'
          \<and> os_statusCode sc = (if list_ex (unreadable J) ms then 2 else scope_status sp)
          \<and> (\<forall>sc0. sp = Some sc0 \<longrightarrow> same_span sc0 sc) \<and> (sp = None \<longrightarrow> ms \<noteq> []))"

lemma traced_cons:
  assumes "handle_frame J ctx \<lparr>fr_status = OK, fr_messageType = t, fr_messageId = i, fr_payload = pl\<rparr> n sp w = Some (n1, sc, w1)"
    and "span_open sp w" "traced J ms (Some sc) sp' w1 w'"
  shows "traced J ((t, i, pl) # ms) sp sp' w w'"
proof -
  note h = handle_frame_spans [OF assms(1,2)]
  obtain sc' where sp': "sp' = Some sc'" using assms(3) by (auto simp: traced_def split: option.splits)
  have s: "same_span sc sc'" using assms(3) by (auto simp: traced_def sp')
  have "spans_added (request_spans t) sc' w w1" using h spans_added_same [OF s] by blast
  then have "spans_added (concat (map (request_spans \<circ> fst) ((t, i, pl) # ms))) sc' w w'"
    using assms(3) spans_added_trans by (fastforce simp: traced_def sp')
  then show ?thesis using assms(3) h s by (auto simp: traced_def sp' scope_status_def intro: same_span_trans)
qed

lemma worker_loop_traced:
  assumes "worker_loop J ctx n sp w = Some (reason, n', sp', w')"
    and "decode_all decode_message (rx_bytes (io_rx (w_io w))) = (ms, rest)"
    and "span_open sp w"
  shows "traced J ms sp sp' w w'"
  using assms
proof (induction rule: worker_loop_induct)
  case (stop n w s)
  then show ?case by (auto simp: traced_def span_open_def spans_added_def scope_status_def split: option.splits)
next
  case (step n sp w s t i pl n1 sc w1 ms)
  have o: "span_open sp (w\<lparr>w_io := s\<rparr>)" using step.prems by (simp add: span_open_def split: option.splits)
  have "span_open (Some sc) w1" using handle_frame_spans [OF step.hyps(3) o] by (simp add: span_open_def spans_added_def)
  then have "traced J ((t, i, pl) # ms) sp sp' (w\<lparr>w_io := s\<rparr>) w'" using traced_cons [OF step.hyps(3) o] step.IH by blast
  then show ?case by (simp add: traced_def spans_added_def split: option.splits)
qed

subsection \<open>The end of the connection\<close>

lemma disconnection_span:
  assumes "emitDisconnection J ctx t0 n (Some sc) reason w = Some w'" "ot_stack w = [scope_ids sc]"
  shows "\<exists>s. ot_pending w' = ot_pending w @ [s] \<and> fs_name s = ''client_disconnection'' \<and> child_of sc s
    \<and> (''disconnect.reason'', StringValue (disconnectReasonToString reason)) \<in> set (fs_attributes s)
    \<and> fs_statusCode s = (if reason = CLEAN_DISCONNECT then 0 else 2)"
proof -
  obtain d where "with_span ''client_disconnection'' (disconnection_body J ctx d n reason) (w\<lparr>h_reads := Suc (h_reads w)\<rparr>) = Some w'"
    using assms(1) by (auto simp: emitDisconnection_def steady_now_def Let_def)
  then show ?thesis
  proof (rule with_span_cases)
    fix c w1 c' w2 t
    assume o: "opened ''client_disconnection'' [] (w\<lparr>h_reads := Suc (h_reads w)\<rparr>) c"
      and p: "ot_pending w1 = ot_pending (w\<lparr>h_reads := Suc (h_reads w)\<rparr>)"
      and b: "disconnection_body J ctx d n reason c w1 = Some (c', w2)" and e: "ot_pending w' = ot_pending w2 @ [finish_span c' (dec_of_int t)]"
    have "same_span c c' \<and> ot_pending w2 = ot_pending w1 \<and> os_statusCode c' = (if reason = CLEAN_DISCONNECT then os_statusCode c else 2)
      \<and> (''disconnect.reason'', StringValue (disconnectReasonToString reason)) \<in> set (os_attributes c')"
      using b by (auto simp: disconnection_body_def Let_def logged_def setAttribute_def recordError_def same_span_def
          dest!: log_logged split: bind_splits)
    then show ?thesis
      using o p e assms(2)
      by (simp add: opened_def child_of_def finish_span_def same_span_def parentSpanId_def scope_ids_def)
  qed
qed

text \<open>
  What a connection exports: nothing if no message arrived; otherwise one tree of spans with the
  connection at the root, one child for each request and one for the disconnection.
\<close>

definition connection_spans :: "json_lib \<Rightarrow> message list \<Rightarrow> DisconnectReason \<Rightarrow> FinishedSpan list \<Rightarrow> bool" where
  "connection_spans J ms reason spans \<longleftrightarrow>
     (if ms = [] then spans = []
      else \<exists>requests d root. spans = requests @ [d, root]
        \<and> fs_name root = ''client_connection'' \<and> fs_parentSpanId root = [] \<and> hex_id 32 (fs_traceId root) \<and> hex_id 16 (fs_spanId root)
        \<and> fs_statusCode root = (if reason \<noteq> CLEAN_DISCONNECT \<or> list_ex (unreadable J) ms then 2 else 0)
        \<and> map fs_name requests = concat (map (request_spans \<circ> fst) ms)
        \<and> fs_name d = ''client_disconnection'' \<and> fs_statusCode d = (if reason = CLEAN_DISCONNECT then 0 else 2)
        \<and> (''disconnect.reason'', StringValue (disconnectReasonToString reason)) \<in> set (fs_attributes d)
        \<and> list_all (\<lambda>s. fs_traceId s = fs_traceId root \<and> fs_parentSpanId s = fs_spanId root) (requests @ [d]))"

lemma fail_span_scope:
  assumes "fail_span reason (Some sc) = Some sc'"
  shows "same_span sc sc' \<and> os_statusCode sc' = (if reason \<noteq> CLEAN_DISCONNECT then 2 else os_statusCode sc)"
  using assms by (auto simp: fail_span_def setAttribute_def recordError_def same_span_def)

lemma connection_end_spans:
  assumes "emitDisconnection J ctx t0 n (fail_span reason (Some sc)) reason w1 = Some w2" "traced J ms None (Some sc) w w1"
  shows "\<exists>spans. ot_pending (case fail_span reason (Some sc) of None \<Rightarrow> w2 | Some c \<Rightarrow> OtelScope_close c w2) = ot_pending w @ spans
    \<and> connection_spans J ms reason spans"
proof -
  obtain sc' where sc': "fail_span reason (Some sc) = Some sc'" "same_span sc sc'"
    "os_statusCode sc' = (if reason \<noteq> CLEAN_DISCONNECT then 2 else os_statusCode sc)"
    using fail_span_scope [of reason sc] by (cases "fail_span reason (Some sc)") (auto simp: fail_span_def)
  have ms: "ms \<noteq> []" "root_scope sc'" "spans_added (concat (map (request_spans \<circ> fst) ms)) sc' w w1"
    "os_statusCode sc = (if list_ex (unreadable J) ms then 2 else 0)"
    using assms(2) root_scope_same [OF sc'(2)] spans_added_same [OF sc'(2), of _ w w1]
    by (simp_all add: traced_def scope_status_def)
  then obtain rs where rs: "ot_stack w1 = [scope_ids sc']" "ot_pending w1 = ot_pending w @ rs"
    "map fs_name rs = concat (map (request_spans \<circ> fst) ms)" "list_all (child_of sc') rs"
    by (auto simp: spans_added_def)
  obtain s where s: "ot_pending w2 = ot_pending w1 @ [s]" "fs_name s = ''client_disconnection''" "child_of sc' s"
    "(''disconnect.reason'', StringValue (disconnectReasonToString reason)) \<in> set (fs_attributes s)"
    "fs_statusCode s = (if reason = CLEAN_DISCONNECT then 0 else 2)"
    using disconnection_span [OF assms(1) [unfolded sc'(1)] rs(1)] by blast
  define root where "root = finish_span sc' (dec_of_int (h_system w2 (h_reads w2)))"
  have p: "ot_pending (case fail_span reason (Some sc) of None \<Rightarrow> w2 | Some c \<Rightarrow> OtelScope_close c w2) = ot_pending w @ rs @ [s, root]"
    by (simp add: sc'(1) OtelScope_close_eq s(1) rs(2) root_def)
  have "list_all (\<lambda>x. fs_traceId x = fs_traceId root \<and> fs_parentSpanId x = fs_spanId root) (rs @ [s])"
    using rs(4) s(3) by (auto simp: root_def finish_span_def child_of_def list_all_iff)
  moreover have "fs_name root = ''client_connection'' \<and> fs_parentSpanId root = [] \<and> hex_id 32 (fs_traceId root) \<and> hex_id 16 (fs_spanId root)"
    "fs_statusCode root = (if reason \<noteq> CLEAN_DISCONNECT \<or> list_ex (unreadable J) ms then 2 else 0)"
    using ms(2,4) sc'(3) by (simp_all add: root_def finish_span_def root_scope_def)
  ultimately have "connection_spans J ms reason (rs @ [s, root])"
    using ms(1) rs(3) s(2,4,5) unfolding connection_spans_def by auto
  then show ?thesis using p by blast
qed

lemma teardown_spans: "ot_pending (teardown fd w) = ot_pending w"
  by (simp add: teardown_def Let_def)

lemma markOffline_spans: "ot_pending (markOfflineIfKnown n w) = ot_pending w" "ot_stack (markOfflineIfKnown n w) = ot_stack w"
  by (simp_all add: markOfflineIfKnown_def world_setOffline_def system_now_def)

lemma connection_traced:
  assumes "handleConnection J None fd ctx w = Some w'" "0 \<le> fd" "ot_stack w = []"
    and d: "decode_all decode_message (rx_bytes (io_rx (w_io w))) = (ms, rest)"
  shows "\<exists>spans. ot_pending w' = ot_pending w @ spans
    \<and> connection_spans J ms (end_reason (fr_status (stream_frame rest (rx_end (io_rx (w_io w))))) (io_errno (w_io w'))) spans"
proof -
  let ?w = "w\<lparr>h_reads := Suc (h_reads w)\<rparr>"
  obtain reason n sp w1 w2 where l: "worker_loop J ctx (cc_nodeId ctx) None ?w = Some (reason, n, sp, w1)"
    and e: "emitDisconnection J ctx (h_steady w (h_reads w)) n (fail_span reason sp) reason (markOfflineIfKnown n (interfere w1)) = Some w2"
    and w': "w' = teardown fd (case fail_span reason sp of None \<Rightarrow> w2 | Some sc \<Rightarrow> OtelScope_close sc w2)"
    using handleConnection_cases [OF assms(1,2)] by blast
  let ?m = "markOfflineIfKnown n (interfere w1)"
  have d': "decode_all decode_message (rx_bytes (io_rx (w_io ?w))) = (ms, rest)" using d by simp
  have "w_io w' = w_io w1" using connection_end_effect [OF e refl] by (simp add: w' teardown_def Let_def)
  then have r: "end_reason (fr_status (stream_frame rest (rx_end (io_rx (w_io w))))) (io_errno (w_io w')) = reason"
    using worker_loop_serves [OF l d'] by simp
  have "traced J ms None sp ?w w1" using worker_loop_traced [OF l d'] assms(3) by (simp add: span_open_def)
  then have t: "traced J ms None sp w ?m" by (simp add: traced_def spans_added_def markOffline_spans split: option.splits)
  show ?thesis
  proof (cases sp)
    case None
    then have "w2 = ?m" "ms = []" "ot_pending ?m = ot_pending w" using e t by (simp_all add: emitDisconnection_def fail_span_def traced_def)
    then show ?thesis using None by (simp add: connection_spans_def w' teardown_spans fail_span_def)
  next
    case (Some sc)
    then show ?thesis using connection_end_spans [of J ctx _ n reason sc ?m w2 ms w] e t r by (simp add: w' teardown_spans)
  qed
qed

end
