(* ===== verification/HeartbeatMonitor.thy ===== *)
theory HeartbeatMonitor
  imports World
begin

text \<open>
  \<^verbatim>\<open>src/heartbeatMonitor.cpp\<close>: the periodic check that marks silent nodes offline. \<open>tick\<close> has the
  code's two phases: the candidates come from a snapshot of the registry, and each candidate is
  then marked in a critical section of its own; registry operations of other threads may take
  effect before each of these sections. \<open>monitor_run\<close> is the loop of the thread over the values of
  \<^verbatim>\<open>m_stop\<close> that its successive waits return with.
\<close>

definition is_stale :: "time_point \<Rightarrow> NodeEntry \<Rightarrow> bool" where
  "is_stale deadline e \<longleftrightarrow> ne_status e = ONLINE \<and> ne_last_seen_at e < deadline"

text \<open>\<^verbatim>\<open>m_intervalSecs * 2\<close> is a \<^verbatim>\<open>uint32_t\<close> product.\<close>

definition tick_deadline :: "u32 \<Rightarrow> time_point \<Rightarrow> time_point" where
  "tick_deadline intervalSecs now = now - int (unat (intervalSecs * 2)) * 1000000000"

lemma tick_deadline_eq: "tick_deadline n now = now - int (2 * unat n mod 2 ^ 32) * 10 ^ 9"
  by (simp add: tick_deadline_def unat_word_ariths mult.commute)

definition mark_body ::
  "json_lib \<Rightarrow> string \<Rightarrow> OtelScope \<Rightarrow> 'a world_scheme \<Rightarrow> (OtelScope \<times> 'a world_scheme) option" where
  "mark_body J nodeId span w = do {
     let span = setAttribute ''node.id'' (StringValue nodeId) span;
     let w = world_setOffline nodeId (interfere w);
     w \<leftarrow> logNodeOffline J (scope_base span) \<lparr>of_nodeId = nodeId\<rparr> w;
     Some (span, w)
   }"

fun tick_mark :: "json_lib \<Rightarrow> string list \<Rightarrow> 'a world_scheme \<Rightarrow> 'a world_scheme option" where
  "tick_mark J [] w = Some w"
| "tick_mark J (nodeId # rest) w = do {
     w \<leftarrow> with_span ''heartbeat_monitor_offline'' (mark_body J nodeId) w;
     tick_mark J rest w
   }"

definition tick :: "json_lib \<Rightarrow> u32 \<Rightarrow> 'a world_scheme \<Rightarrow> 'a world_scheme option" where
  "tick J intervalSecs w =
     (let (now, w) = system_now w;
          deadline = tick_deadline intervalSecs now;
          snapshot = listNodes (w_registry w);
          stale = map ne_node_id (filter (is_stale deadline) snapshot)
      in if stale = [] then Some w else tick_mark J stale w)"

fun monitor_run :: "json_lib \<Rightarrow> u32 \<Rightarrow> bool list \<Rightarrow> 'a world_scheme \<Rightarrow> 'a world_scheme option" where
  "monitor_run J intervalSecs [] w = Some w"
| "monitor_run J intervalSecs (m_stop # stops) w =
     (if m_stop then Some w else do { w \<leftarrow> tick J intervalSecs w; monitor_run J intervalSecs stops w })"

subsection \<open>Effect of a tick\<close>

text \<open>The registry sees one \<open>setOffline\<close> per candidate, after what other threads did before it.\<close>

fun tick_history :: "registry_op list list \<Rightarrow> (time_point \<times> string) list \<Rightarrow> registry_op list" where
  "tick_history batches [] = []"
| "tick_history [] ((t, k) # ms) = Op_setOffline t k # tick_history [] ms"
| "tick_history (b # bs) ((t, k) # ms) = b @ Op_setOffline t k # tick_history bs ms"

lemma mark_body_effect:
  assumes "mark_body J nodeId span w = Some (span', w')"
  shows "(\<exists>t. core w' = core w\<lparr>w_interference := w_interference (interfere w),
                                 w_registry := setOffline t nodeId (w_registry (interfere w))\<rparr>)
    \<and> ot_stack w' = ot_stack w"
proof -
  have "core w' = core (interfere w)\<lparr>w_registry := setOffline (h_system (interfere w) (h_reads (interfere w)))
      nodeId (w_registry (interfere w))\<rparr> \<and> ot_stack w' = ot_stack w"
    using assms
    by (auto simp: mark_body_def world_setOffline_def system_now_def Let_def logged_def
        dest!: log_logged split: bind_splits)
  then show ?thesis by (auto simp: core_interfere)
qed

lemma mark_effect:
  assumes "with_span name (mark_body J nodeId) w = Some w'"
  shows "(\<exists>t. core w' = core w\<lparr>w_interference := w_interference (interfere w),
                                 w_registry := setOffline t nodeId (w_registry (interfere w))\<rparr>)
    \<and> ot_stack w' = ot_stack w"
  using assms
proof (rule with_span_effect)
  fix sc w1 sc' w2
  assume c: "core w1 = core w" and b: "mark_body J nodeId sc w1 = Some (sc', w2)"
  have "w_registry (interfere w1) = w_registry (interfere w)" "w_interference (interfere w1) = w_interference (interfere w)"
    using core_eqD [OF c] by (auto simp: interfere_def split: list.splits)
  then show "(\<exists>t. core w2 = core w\<lparr>w_interference := w_interference (interfere w),
                                 w_registry := setOffline t nodeId (w_registry (interfere w))\<rparr>)
    \<and> ot_stack w2 = ot_stack w1"
    using mark_body_effect [OF b] c by simp
qed

lemma tick_mark_effect:
  assumes "tick_mark J ks w = Some w'"
  shows "(\<exists>ts. map snd ts = ks \<and> core w' = core w\<lparr>w_interference := drop (length ks) (w_interference w),
             w_registry := run_registry (tick_history (w_interference w) ts) (w_registry w)\<rparr>)
         \<and> ot_stack w' = ot_stack w"
  using assms
proof (induction ks arbitrary: w)
  case Nil
  then show ?case by (intro conjI exI [of _ "[]"]) simp_all
next
  case (Cons k ks)
  obtain w1 where w1: "with_span ''heartbeat_monitor_offline'' (mark_body J k) w = Some w1" "tick_mark J ks w1 = Some w'"
    using Cons.prems by (auto split: bind_splits)
  obtain t where c: "core w1 = core w\<lparr>w_interference := w_interference (interfere w),
                                 w_registry := setOffline t k (w_registry (interfere w))\<rparr>"
    and st: "ot_stack w1 = ot_stack w"
    using mark_effect [OF w1(1)] by blast
  obtain ts where ts: "map snd ts = ks"
      "core w' = core w1\<lparr>w_interference := drop (length ks) (w_interference w1),
             w_registry := run_registry (tick_history (w_interference w1) ts) (w_registry w1)\<rparr>"
      "ot_stack w' = ot_stack w1"
    using Cons.IH [OF w1(2)] by blast
  have f: "w_registry w1 = setOffline t k (w_registry (interfere w))" "w_interference w1 = w_interference (interfere w)"
    using arg_cong [OF c, of w_registry] arg_cong [OF c, of w_interference] by simp_all
  show ?case
  proof (intro conjI exI [of _ "(t, k) # ts"])
    show "core w' = core w\<lparr>w_interference := drop (length (k # ks)) (w_interference w),
             w_registry := run_registry (tick_history (w_interference w) ((t, k) # ts)) (w_registry w)\<rparr>"
      by (cases "w_interference w") (simp_all add: ts c f interfere_def run_registry_append)
  qed (simp_all add: ts st)
qed

lemma tick_history_nil: "tick_history [] ts = map (\<lambda>(t, k). Op_setOffline t k) ts"
  by (induction ts) auto

lemma run_offline: "run_registry (map (\<lambda>(t, k). Op_setOffline t k) ts) r = fold (\<lambda>(t, k). setOffline t k) ts r"
  by (induction ts arbitrary: r) auto

text \<open>The registry after a tick: the silent nodes of the snapshot are marked, between the operations of other threads.\<close>

definition stale_nodes :: "time_point \<Rightarrow> registry \<Rightarrow> string list" where
  "stale_nodes deadline r = map ne_node_id (filter (is_stale deadline) (listNodes r))"

lemma stale_nodes_query:
  "wf_registry r \<Longrightarrow> k \<in> set (stale_nodes deadline r) \<longleftrightarrow> (\<exists>e. queryNode k r = Some e \<and> is_stale deadline e)"
  using nreg.nodes_query [of r] nreg.query_id [of r] by (auto simp: stale_nodes_def)

lemma tick_registry:
  assumes "tick J n w = Some w'"
  shows "\<exists>ts. map snd ts = stale_nodes (tick_deadline n (h_system w (h_reads w))) (w_registry w)
    \<and> w_registry w' = run_registry (tick_history (w_interference w) ts) (w_registry w)"
proof -
  define w0 where "w0 = w\<lparr>h_reads := Suc (h_reads w)\<rparr>"
  define ks where "ks = stale_nodes (tick_deadline n (h_system w (h_reads w))) (w_registry w)"
  have m: "tick_mark J ks w0 = Some w'"
    using assms by (cases "ks = []") (auto simp: tick_def system_now_def w0_def ks_def stale_nodes_def Let_def)
  obtain ts where ts: "map snd ts = ks"
    "core w' = core w0\<lparr>w_interference := drop (length ks) (w_interference w0),
             w_registry := run_registry (tick_history (w_interference w0) ts) (w_registry w0)\<rparr>"
    using tick_mark_effect [OF m] by blast
  have "w_registry w' = run_registry (tick_history (w_interference w) ts) (w_registry w)"
    using arg_cong [OF ts(2), of w_registry] by (simp add: w0_def)
  then show ?thesis using ts(1) by (auto simp: ks_def)
qed

lemma tick_history_status:
  "wf_registry r \<Longrightarrow> list_all (list_all is_heartbeat_op) bs \<Longrightarrow>
   status_of k (run_registry (tick_history bs ts) r) =
     (if k \<in> snd ` set ts then map_option (\<lambda>_. OFFLINE) (status_of k r) else status_of k r)"
  by (induction bs ts arbitrary: r rule: tick_history.induct)
     (auto simp: run_registry_append heartbeats_keep_status status_setOffline wf_run_registry wf_setOffline option.map_comp comp_def)

text \<open>Heartbeats that arrive after the snapshot do not change what a tick marks.\<close>

lemma tick_heartbeats:
  assumes "tick J n w = Some w'" "wf_registry (w_registry w)" "list_all (list_all is_heartbeat_op) (w_interference w)"
  shows "status_of k (w_registry w') = map_option (\<lambda>e. if is_stale (tick_deadline n (h_system w (h_reads w))) e
     then OFFLINE else ne_status e) (queryNode k (w_registry w))"
proof -
  let ?ks = "stale_nodes (tick_deadline n (h_system w (h_reads w))) (w_registry w)"
  obtain ts where ts: "map snd ts = ?ks" "w_registry w' = run_registry (tick_history (w_interference w) ts) (w_registry w)"
    using tick_registry [OF assms(1)] by blast
  have "k \<in> snd ` set ts \<longleftrightarrow> k \<in> set ?ks" by (simp add: ts(1) [symmetric])
  then have "status_of k (w_registry w') =
      (if k \<in> set ?ks then map_option (\<lambda>_. OFFLINE) (status_of k (w_registry w)) else status_of k (w_registry w))"
    using tick_history_status [OF assms(2,3), of k ts] by (simp add: ts(2))
  then show ?thesis
    by (cases "queryNode k (w_registry w)") (auto simp: stale_nodes_query [OF assms(2)] status_of_def)
qed

text \<open>Without interference a tick marks exactly the silent nodes.\<close>

lemma tick_quiet:
  assumes "tick J n w = Some w'" "wf_registry (w_registry w)" "w_interference w = []"
  defines "deadline \<equiv> tick_deadline n (h_system w (h_reads w))"
  shows "\<exists>tm. queryNode k (w_registry w') =
     map_option (\<lambda>e. if is_stale deadline e then e\<lparr>ne_status := OFFLINE, ne_last_seen_at := tm\<rparr> else e)
       (queryNode k (w_registry w))"
proof -
  define ks where "ks = stale_nodes deadline (w_registry w)"
  obtain ts where ts: "map snd ts = ks" "w_registry w' = run_registry (tick_history (w_interference w) ts) (w_registry w)"
    using tick_registry [OF assms(1)] by (auto simp: ks_def deadline_def)
  have r: "w_registry w' = fold (\<lambda>(t, k). setOffline t k) ts (w_registry w)"
    using ts(2) assms(3) by (simp add: tick_history_nil run_offline)
  note ks = stale_nodes_query [OF assms(2), of k deadline, folded ks_def]
  have q: "queryNode k (w_registry w') = (if k \<in> set ks
      then map_option (\<lambda>x. x\<lparr>ne_status := OFFLINE,
             ne_last_seen_at := fst (last (filter (\<lambda>(t, k'). k' = k) ts))\<rparr>) (queryNode k (w_registry w))
      else queryNode k (w_registry w))"
    using nreg.fold_offline [OF assms(2), where ts = ts and k = k] by (simp add: r ts(1))
  show ?thesis
    by (rule exI [of _ "fst (last (filter (\<lambda>(t, k'). k' = k) ts))"])
       (cases "queryNode k (w_registry w)"; simp add: q ks)
qed

end
