(* ===== verification/SessionSafety.thy ===== *)
theory SessionSafety
  imports ConnectionWorker HeartbeatMonitor
begin

text \<open>
  When a session cannot bring the server down. In the model a log line or a reply that cannot be
  serialised, or a reply of 4 GiB, makes the handler \<^term>\<open>None\<close>. Here: for requests whose node
  identifiers survive sanitising as UTF-8, for a registry with UTF-8 entries and at most 3000
  nodes, every handler and the whole connection return.
\<close>

subsection \<open>Conditions\<close>

definition time_ok :: "time_point \<Rightarrow> bool" where
  "time_ok t \<longleftrightarrow> length (iso8601 t) \<le> 64"

definition entry_ok :: "NodeEntry \<Rightarrow> bool" where
  "entry_ok e \<longleftrightarrow> utf8 (ne_node_id e) \<and> utf8 (ne_bunker_name e) \<and> utf8 (ne_ip_address e)
     \<and> length (ne_node_id e) \<le> 65536 \<and> length (ne_bunker_name e) \<le> 65536 \<and> length (ne_ip_address e) \<le> 65536
     \<and> time_ok (ne_last_seen_at e)"

definition reg_ok :: "registry \<Rightarrow> bool" where
  "reg_ok r \<longleftrightarrow> (\<forall>e \<in> set (map snd r). entry_ok e)"

fun op_ok :: "registry_op \<Rightarrow> bool" where
  "op_ok (Op_register e) = entry_ok e"
| "op_ok (Op_setOffline t k) = time_ok t"
| "op_ok (Op_updateLastSeen t k) = time_ok t"

definition name_safe :: "json_lib \<Rightarrow> string \<Rightarrow> bool" where
  "name_safe J pl \<longleftrightarrow>
     (case parse J pl of
        None \<Rightarrow> True
      | Some j \<Rightarrow> (case json_get ''node_id'' j of Some (JString v) \<Rightarrow> safe_text v | _ \<Rightarrow> True))"

definition message_safe :: "json_lib \<Rightarrow> message \<Rightarrow> bool" where
  "message_safe J m \<longleftrightarrow> length (snd (snd m)) \<le> 65536 \<and> name_safe J (snd (snd m))"

definition stack_ok :: "'a otel_scheme \<Rightarrow> bool" where
  "stack_ok w \<longleftrightarrow> (\<forall>p \<in> set (ot_stack w). hex_id 32 (fst p) \<and> hex_id 16 (snd p))"

definition clock_ok :: "'a host_scheme \<Rightarrow> bool" where
  "clock_ok w \<longleftrightarrow> (\<forall>i. time_ok (h_system w i))"

subsection \<open>Spans and replies\<close>

definition scope_ok :: "OtelScope \<Rightarrow> bool" where
  "scope_ok sc \<longleftrightarrow> hex_id 32 (os_traceId sc) \<and> hex_id 16 (os_spanId sc)"

lemma scope_ok_attr [simp]:
  "scope_ok (setAttribute k v sc) = scope_ok sc" "scope_ok (recordError d sc) = scope_ok sc"
  by (simp_all add: scope_ok_def setAttribute_def recordError_def)

lemma scope_ok_base: "scope_ok sc \<Longrightarrow> safe_base (scope_base sc)"
  by (auto simp: scope_ok_def scope_base_def safe_base_def intro: safe_hex_id)

lemma opened_ok: "opened name attrs w sc \<Longrightarrow> stack_ok w \<Longrightarrow> scope_ok sc"
  by (auto simp: opened_def stack_ok_def scope_ok_def split: if_splits)

lemma stack_ok_core: "ot_stack w' = ot_stack w \<Longrightarrow> stack_ok w' = stack_ok w"
  by (simp add: stack_ok_def)

lemma with_span_returns:
  assumes "stack_ok w"
    and "\<And>sc w1. scope_ok sc \<Longrightarrow> core w1 = core w \<Longrightarrow> returns (body sc w1)"
  shows "returns (with_span name body w)"
  by (rule with_span_total) (rule assms(2), rule opened_ok, assumption, rule assms(1), assumption)

lemma json_laws_dump [simp, intro]: "json_laws J \<Longrightarrow> dump_law J"
  by (simp add: json_laws_def)

lemma dump_returns:
  assumes "json_laws J" "json_utf8 j"
  shows "returns (dump J j)"
  using assms unfolding json_laws_def dump_law_def returns_def by blast

lemma reply_total:
  assumes "json_laws J" "json_utf8 (snd rep)" "json_weight (snd rep) < 2 ^ 32 - 14"
  shows "returns (reply_frame J i rep)"
  unfolding reply_frame_def
proof (rule returns_bind)
  show "returns (dump J (snd rep))" using assms(1,2) by (rule dump_returns)
  fix body
  assume "dump J (snd rep) = Some body"
  then have "length body \<le> json_weight (snd rep)" using assms(1) by (auto simp: json_laws_def size_law_def)
  then have "length body < 2 ^ 32 - 14" using assms(3) by simp
  then show "returns (buildFrame (fst rep) i body)" by (simp add: buildFrame_eq)
qed

lemma error_reply_ok:
  assumes "utf8 d" "length d \<le> 70000"
  shows "json_utf8 (snd (error_reply i code d)) \<and> json_weight (snd (error_reply i code d)) < 2 ^ 32 - 14"
proof
  show "json_utf8 (snd (error_reply i code d))"
    unfolding error_reply_def using assms(1) by (auto simp: utf8_literal intro!: json_utf8_fields)
  have "json_weight (snd (error_reply i code d)) \<le> 4 + sum_list (map field_weight
      [(''ref_message_id'', JUInt (ucast i)), (''error_code'', JUInt (error_number code)),
       (''description'', JString d)])"
    unfolding error_reply_def snd_conv by (rule json_fields_weight)
  then show "json_weight (snd (error_reply i code d)) < 2 ^ 32 - 14"
    using assms(2) by (simp add: field_weight_def)
qed

lemma send_error_total:
  assumes "json_laws J" "utf8 d" "length d \<le> 70000"
  shows "returns (send_error J i code d w)"
  unfolding send_error_reply
  using assms(1) error_reply_ok [OF assms(2,3)] by (intro returns_bind reply_total) auto

subsection \<open>Names in payloads\<close>

lemma string_field:
  assumes "json_laws J" "parse J pl = Some j" "contains j k" "is_string (json_at j k)" "length pl \<le> 65536"
  shows "utf8 (get_string (json_at j k))" "length (get_string (json_at j k)) \<le> 65536"
proof -
  have f: "json_get k j = Some (JString (get_string (json_at j k)))"
    using assms(3,4) by (rule string_field_cases(2))
  have "json_utf8 j" using assms(1,2) by (auto simp: json_laws_def parse_law_def)
  then show "utf8 (get_string (json_at j k))" using json_utf8_get [OF _ f] by auto
  have "length (get_string (json_at j k)) \<le> length pl"
    using assms(1,2) f unfolding json_laws_def size_law_def by blast
  then show "length (get_string (json_at j k)) \<le> 65536" using assms(5) by simp
qed

lemma name_field:
  assumes "name_safe J pl" "parse J pl = Some j" "contains j FIELD_NODE_ID" "is_string (json_at j FIELD_NODE_ID)"
  shows "safe_text (get_string (json_at j FIELD_NODE_ID))"
  using assms(1,2) string_field_cases(2) [OF assms(3,4)] by (auto simp: name_safe_def FIELD_NODE_ID_def)

lemma node_text:
  assumes "utf8 v" "length v \<le> 65536" "list_all (\<lambda>c. of_char c < (128 :: nat)) (a @ b)" "length a + length b \<le> 4000"
  shows "utf8 (a @ v @ b)" "length (a @ v @ b) \<le> 70000"
  using assms utf8_literal [of a] utf8_literal [of b] by (auto intro!: utf8_append)

subsection \<open>REGISTER\<close>

lemma register_malformed_total:
  assumes "json_laws J" "safe_text sid" "scope_ok sc" "utf8 d" "length d \<le> 70000"
  shows "returns (register_malformed J i sid t d sc w)"
  unfolding register_malformed_def Let_def using assms
  by (intro returns_bind send_error_total log_total returns_Some scope_ok_base) (auto simp: safe_literal)

lemma ack_reply_total:
  assumes "json_laws J" "utf8 k" "length k \<le> 65536"
  shows "returns (reply_frame J i (ack_reply i k))"
proof (rule reply_total [OF assms(1)])
  show "json_utf8 (snd (ack_reply i k))"
    using assms(2) by (auto simp: ack_reply_def utf8_literal intro!: json_utf8_fields)
  have "json_weight (snd (ack_reply i k)) \<le> 4 + sum_list (map field_weight
      [(''ref_message_id'', JUInt (ucast i)), (''node_id'', JString k)])"
    unfolding ack_reply_def snd_conv by (rule json_fields_weight)
  then show "json_weight (snd (ack_reply i k)) < 2 ^ 32 - 14" using assms(3) by (simp add: field_weight_def)
qed

text \<open>Sending a reply in the two steps of the code: the text, then the frame.\<close>

lemma reply_steps:
  assumes "returns (reply_frame J i (t, j))" "\<And>frame. returns (f frame)"
  shows "returns (do { body \<leftarrow> dump J j; frame \<leftarrow> buildFrame t i body; f frame })"
  using assms by (cases "dump J j"; cases "buildFrame t i (the (dump J j))") (auto simp: reply_frame_def returns_def)

lemma register_finish_total:
  assumes "json_laws J" "safe_text sid" "safe_text k" "scope_ok sc" "utf8 k" "length k \<le> 65536"
  shows "returns (register_finish J i sid k res sc w)"
proof (cases "res = REG_OK")
  case True
  have "returns (reply_frame J i (ACK, json_fields [(''ref_message_id'', JUInt (ucast i)), (''node_id'', JString k)]))"
    using ack_reply_total [OF assms(1,5,6)] by (simp add: ack_reply_def)
  then show ?thesis
    unfolding register_finish_def Let_def buildAckPayload_def using True assms
    by simp (rule reply_steps; auto intro!: returns_bind log_total scope_ok_base)
next
  case False
  have d: "utf8 (''Node '' @ k @ '' already registered'')" "length (''Node '' @ k @ '' already registered'') \<le> 70000"
    using assms(5,6) by (intro node_text; simp)+
  show ?thesis
    unfolding register_finish_def Let_def using False assms d
    by (simp only: if_False) (intro returns_bind send_error_total log_total returns_Some scope_ok_base; auto simp: safe_literal)
qed

lemma register_body_total:
  assumes "json_laws J" "safe_text sid" "scope_ok sc" "length pl \<le> 65536" "name_safe J pl"
  shows "returns (register_body J t0 i pl sid sc w)"
proof (cases "parse J pl")
  case None
  then show ?thesis using assms by (auto simp: register_body_def Let_def utf8_literal intro!: register_malformed_total)
next
  case (Some j)
  show ?thesis
  proof (cases "register_invalid j")
    case True
    then show ?thesis using assms Some by (auto simp: register_body_def Let_def utf8_literal intro!: register_malformed_total)
  next
    case False
    then have v: "contains j FIELD_NODE_ID" "is_string (json_at j FIELD_NODE_ID)" by (auto simp: register_invalid_def)
    show ?thesis
      using False Some assms(3) string_field [OF assms(1) Some v assms(4)] name_field [OF assms(5) Some v] assms(1,2)
      by (auto simp: register_body_def Let_def set_duration_def steady_now_def split: prod.splits intro!: register_finish_total)
  qed
qed

lemma RegisterHandler_total:
  assumes "json_laws J" "safe_text sid" "stack_ok w" "length pl \<le> 65536" "name_safe J pl"
  shows "returns (RegisterHandler_handle J i pl sid w)"
  unfolding RegisterHandler_handle_def steady_now_def Let_def prod.case
  using assms by (intro with_span_returns register_body_total) (simp_all add: stack_ok_def)

subsection \<open>QUERY\_NODE and LIST\_NODES\<close>

lemma utf8_statusToString [simp]: "utf8 (statusToString st)" and length_statusToString: "length (statusToString st) \<le> 7"
  by (cases st; simp add: utf8_literal)+

lemma entryToJson_ok:
  assumes "entry_ok e"
  shows "json_utf8 (entryToJson e)" "json_weight (entryToJson e) \<le> 1181000"
proof -
  show "json_utf8 (entryToJson e)"
    unfolding entryToJson_def using assms
    by (intro json_utf8_fields) (auto simp: entry_ok_def utf8_literal FIELD_NODE_ID_def toIso8601_def)
  have "json_weight (entryToJson e) \<le> 4 + sum_list (map field_weight (
     [(FIELD_NODE_ID, JString (ne_node_id e)), (''bunker_name'', JString (ne_bunker_name e)),
      (''ip_address'', JString (ne_ip_address e)), (''capacity'', JUInt (ne_capacity e)),
      (''status'', JString (statusToString (ne_status e)))]
     @ (if ne_status e = OFFLINE then [(''last_seen_at'', JString (toIso8601 (ne_last_seen_at e)))] else [])))"
    unfolding entryToJson_def by (rule json_fields_weight)
  then show "json_weight (entryToJson e) \<le> 1181000"
    using assms length_statusToString [of "ne_status e"]
    by (simp add: field_weight_def entry_ok_def time_ok_def toIso8601_def FIELD_NODE_ID_def split: if_splits)
qed

lemma query_response_ok:
  assumes "entry_ok e"
  shows "json_utf8 (query_response i e)" "json_weight (query_response i e) < 2 ^ 32 - 14"
proof -
  show "json_utf8 (query_response i e)"
    unfolding query_response_def using assms
    by (intro json_utf8_fields) (auto simp: entry_ok_def utf8_literal FIELD_NODE_ID_def toIso8601_def)
  have "json_weight (query_response i e) \<le> 4 + sum_list (map field_weight (
     [(''ref_message_id'', JUInt (ucast i)),
      (FIELD_NODE_ID, JString (ne_node_id e)), (''bunker_name'', JString (ne_bunker_name e)),
      (''ip_address'', JString (ne_ip_address e)), (''capacity'', JUInt (ne_capacity e)),
      (''status'', JString (statusToString (ne_status e)))]
     @ (if ne_status e = OFFLINE then [(''last_seen_at'', JString (toIso8601 (ne_last_seen_at e)))] else [])))"
    unfolding query_response_def by (rule json_fields_weight)
  then show "json_weight (query_response i e) < 2 ^ 32 - 14"
    using assms length_statusToString [of "ne_status e"]
    by (simp add: field_weight_def entry_ok_def time_ok_def toIso8601_def FIELD_NODE_ID_def split: if_splits)
qed

lemma list_reply_total:
  assumes "json_laws J" "reg_ok r" "length r \<le> 3000"
  shows "returns (reply_frame J i (ACK, list_response i (listNodes r)))"
  unfolding list_response_spec
proof (rule reply_total [OF assms(1)])
  have e: "entry_ok x" if "x \<in> set (listNodes r)" for x using assms(2) that by (auto simp: reg_ok_def listNodes_def)
  then show "json_utf8 (snd (list_spec i r))"
    unfolding list_spec_code snd_conv by (intro json_utf8_fields) (auto simp: utf8_literal entryToJson_ok)
  have "sum_list (map (\<lambda>v. json_weight v + 1) (map entryToJson (listNodes r))) \<le> length r * 1181001"
    using sum_list_mono [of "listNodes r" "\<lambda>e. json_weight (entryToJson e) + 1" "\<lambda>_. 1181001"] entryToJson_ok(2) [OF e]
    by (simp add: o_def sum_list_triv listNodes_def)
  also have "\<dots> \<le> 3000 * 1181001" using assms(3) by simp
  finally have n: "sum_list (map (\<lambda>v. json_weight v + 1) (map entryToJson (listNodes r))) \<le> 3543003000" by simp
  have "json_weight (snd (list_spec i r)) \<le> 4 + sum_list (map field_weight
      [(''ref_message_id'', JUInt (ucast i)), (''nodes'', JArray (map entryToJson (listNodes r)))])"
    unfolding list_spec_code snd_conv by (rule json_fields_weight)
  then show "json_weight (snd (list_spec i r)) < 2 ^ 32 - 14"
    using n by (simp add: field_weight_def del: map_map)
qed

lemma query_fail_total:
  assumes "json_laws J" "safe_text sid" "safe_text k" "safe_text cn" "scope_ok sc" "utf8 d" "length d \<le> 70000"
  shows "returns (query_fail J t0 i sid k code cn d sc w)"
  unfolding query_fail_def Let_def set_duration_def steady_now_def prod.case using assms
  by (intro returns_bind send_error_total log_total returns_Some scope_ok_base) auto

lemma query_found_total:
  assumes "json_laws J" "safe_text sid" "safe_text k" "scope_ok sc" "entry_ok e"
  shows "returns (query_found J t0 i sid k e sc w)"
  unfolding query_found_def Let_def set_duration_def steady_now_def prod.case using assms
  by (intro reply_steps reply_total returns_bind log_total returns_Some scope_ok_base)
     (auto simp: query_response_ok query_response_ok(2) [simplified] safe_literal)

lemma query_entry_ok: "reg_ok r \<Longrightarrow> queryNode k r = Some e \<Longrightarrow> entry_ok e"
  unfolding reg_ok_def queryNode_def by (drule map_of_SomeD) auto

lemma option_case_returns:
  assumes "x = None \<Longrightarrow> returns n" "\<And>y. x = Some y \<Longrightarrow> returns (f y)"
  shows "returns (case x of None \<Rightarrow> n | Some y \<Rightarrow> f y)"
  using assms by (cases x) simp_all

lemma query_body_total:
  assumes "json_laws J" "safe_text sid" "scope_ok sc" "length pl \<le> 65536" "name_safe J pl" "reg_ok (w_registry w)"
  shows "returns (query_body J t0 i pl sid sc w)"
proof (cases "parse J pl")
  case None
  show ?thesis
    unfolding query_body_def None Let_def option.case
    by (rule query_fail_total) (use assms in \<open>simp_all add: utf8_literal safe_literal\<close>)
next
  case (Some j)
  let ?k = "get_string (json_at j FIELD_NODE_ID)"
  show ?thesis
  proof (cases "\<not> contains j FIELD_NODE_ID \<or> \<not> is_string (json_at j FIELD_NODE_ID)")
    case True
    show ?thesis
      unfolding query_body_def Some Let_def option.case if_P [OF True]
      by (rule query_fail_total) (use assms in \<open>simp_all add: utf8_literal safe_literal\<close>)
  next
    case False
    then have v: "utf8 ?k" "length ?k \<le> 65536" "safe_text ?k"
      using string_field [OF assms(1) Some _ _ assms(4)] name_field [OF assms(5) Some] by auto
    have d: "utf8 (''Node '' @ ?k @ '' not found'')" "length (''Node '' @ ?k @ '' not found'') \<le> 70000"
      using v by (intro node_text; simp)+
    show ?thesis
      unfolding query_body_def Some Let_def option.case if_not_P [OF False]
      by (rule option_case_returns; (rule query_fail_total query_found_total)?)
         (use assms(1-3) v d query_entry_ok [OF assms(6)] in \<open>simp_all add: safe_literal\<close>)
  qed
qed

lemma handleQueryNode_total:
  assumes "json_laws J" "safe_text sid" "stack_ok w" "length pl \<le> 65536" "name_safe J pl" "reg_ok (w_registry w)"
  shows "returns (handleQueryNode J i pl sid w)"
  unfolding handleQueryNode_def steady_now_def Let_def prod.case
proof (rule with_span_returns)
  show "stack_ok (w\<lparr>h_reads := Suc (h_reads w)\<rparr>)" using assms(3) by (simp add: stack_ok_def)
  fix sc and w1 :: "'a world_scheme"
  assume sc: "scope_ok sc" and c: "core w1 = core (w\<lparr>h_reads := Suc (h_reads w)\<rparr>)"
  have r: "w_registry w1 = w_registry w" using core_eqD(1) [of w1 w] c by simp
  show "returns (query_body J (h_steady w (h_reads w)) i pl sid sc w1)"
    using assms sc r by (intro query_body_total) simp_all
qed

lemma handleListNodes_total:
  assumes "json_laws J" "safe_text sid" "stack_ok w" "reg_ok (w_registry w)" "length (w_registry w) \<le> 3000"
  shows "returns (handleListNodes J i sid w)"
  unfolding handleListNodes_def steady_now_def Let_def prod.case
proof (rule with_span_returns)
  show "stack_ok (w\<lparr>h_reads := Suc (h_reads w)\<rparr>)" using assms(3) by (simp add: stack_ok_def)
  fix sc and w1 :: "'a world_scheme"
  assume sc: "scope_ok sc" and c: "core w1 = core (w\<lparr>h_reads := Suc (h_reads w)\<rparr>)"
  have r: "w_registry w1 = w_registry w" using core_eqD(1) [of w1 w] c by simp
  show "returns (list_body J (h_steady w (h_reads w)) i sid sc w1)"
    unfolding list_body_def Let_def steady_now_def prod.case using assms sc
    by (intro reply_steps returns_bind log_total returns_Some scope_ok_base) (simp_all add: list_reply_total r)
qed

subsection \<open>HEARTBEAT\<close>

lemma HeartbeatHandler_total:
  assumes "json_laws J" "safe_text sid" "safe_text k" "stack_ok w"
  shows "returns (HeartbeatHandler_handle J k sid w)"
  unfolding HeartbeatHandler_handle_def
proof (rule with_span_returns [OF assms(4)])
  fix sc and w1 :: "'a world_scheme"
  assume sc: "scope_ok sc"
  show "returns (heartbeat_body J k sid sc w1)"
    using assms sc
    by (auto simp: heartbeat_body_def Let_def split: prod.splits intro!: returns_bind log_total scope_ok_base)
qed

subsection \<open>The registry during a session\<close>

lemma time_ok_epoch [simp]: "time_ok 0"
  unfolding time_ok_def by code_simp

lemma reg_ok_update: "reg_ok r \<Longrightarrow> entry_ok e \<Longrightarrow> reg_ok (AList.update k e r)"
  by (induction r) (auto simp: reg_ok_def)

lemma reg_ok_append: "reg_ok r \<Longrightarrow> entry_ok e \<Longrightarrow> reg_ok (r @ [(k, e)])"
  by (auto simp: reg_ok_def)

lemma reg_ok_apply: "op_ok x \<Longrightarrow> reg_ok r \<Longrightarrow> reg_ok (apply_registry_op x r)"
  by (cases x)
     (auto simp: registerNode_def setOffline_def updateLastSeen_def entry_ok_def
       dest: query_entry_ok [unfolded queryNode_def] intro!: reg_ok_update reg_ok_append split: option.splits)

lemma reg_ok_run: "list_all op_ok xs \<Longrightarrow> reg_ok r \<Longrightarrow> reg_ok (run_registry xs r)"
  by (induction xs arbitrary: r) (simp_all add: reg_ok_apply)

lemma length_update: "length (AList.update k v r) \<le> Suc (length r)" "map_of r k \<noteq> None \<Longrightarrow> length (AList.update k v r) = length r"
  by (induction r) (auto split: if_splits)

lemma length_apply: "length (apply_registry_op x r) \<le> Suc (length r)"
  by (cases x) (auto simp: registerNode_def setOffline_def updateLastSeen_def length_update split: option.splits)

lemma length_run: "length (run_registry xs r) \<le> length r + length xs"
proof (induction xs arbitrary: r)
  case (Cons x xs)
  show ?case using Cons [of "apply_registry_op x r"] length_apply [of x r] by simp
qed simp

text \<open>
  What holds between two requests when at most \<open>k\<close> more requests come, and the number of nodes
  stays within bounds even if every one of them, and every operation of the other threads, adds
  one.
\<close>

definition session_ok :: "nat \<Rightarrow> string \<Rightarrow> 'a world_scheme \<Rightarrow> bool" where
  "session_ok k n w \<longleftrightarrow> stack_ok w \<and> clock_ok w \<and> safe_text n \<and> reg_ok (w_registry w)
     \<and> list_all op_ok (concat (w_interference w))
     \<and> length (w_registry w) + length (concat (w_interference w)) + k \<le> 3000"

lemma session_interfere: "session_ok k n w \<Longrightarrow> session_ok k n (interfere w)"
proof (cases "w_interference w")
  case (Cons xs rest)
  assume "session_ok k n w"
  then show ?thesis
    using length_run [of xs "w_registry w"]
    by (simp add: session_ok_def interfere_def Cons reg_ok_run stack_ok_def clock_ok_def)
qed (simp add: interfere_def)

lemma register_entry_ok:
  assumes "json_laws J" "parse J pl = Some j" "\<not> register_invalid j" "length pl \<le> 65536"
  shows "entry_ok (register_entry j)"
  using assms(3) string_field [OF assms(1,2) _ _ assms(4)]
  by (simp add: register_invalid_def entry_ok_def register_entry_def)

lemma request_ops:
  assumes "request J (t, i, pl) n r rep n' r'" "json_laws J" "length pl \<le> 65536" "t \<noteq> HEARTBEAT"
  shows "\<exists>xs. r' = run_registry xs r \<and> list_all op_ok xs \<and> length xs \<le> 1"
  using assms(1)
proof (cases rule: request.cases)
  case request_register
  show ?thesis
  proof (cases "\<exists>j. parse J pl = Some j \<and> \<not> register_invalid j")
    case True
    then obtain j where j: "parse J pl = Some j" "\<not> register_invalid j" by blast
    then have "r' = run_registry [Op_register (register_entry j)] r"
      using request_register by (simp add: register_spec_code Let_def split: prod.splits if_splits)
    then show ?thesis
      using register_entry_ok [OF assms(2) j assms(3)] by (intro exI [of _ "[Op_register (register_entry j)]"]) simp
  next
    case False
    then have "r' = run_registry [] r" using request_register by (auto simp: register_spec_code split: option.splits if_splits)
    then show ?thesis by (intro exI [of _ "[]"]) simp
  qed
qed (use assms(4) in \<open>auto intro: exI [of _ "[]"]\<close>)

lemma dispatch_ops:
  assumes "dispatch J ctx (\<lparr>fr_status = OK, fr_messageType = t, fr_messageId = i, fr_payload = pl\<rparr>) n sc w = Some (n', sc', w')"
    and "json_laws J" "length pl \<le> 65536" "clock_ok w"
  shows "\<exists>xs. w_registry w' = run_registry xs (w_registry w) \<and> list_all op_ok xs \<and> length xs \<le> 1"
proof (cases "t = HEARTBEAT")
  case True
  then have h: "HeartbeatHandler_handle J n (cc_sessionId ctx) w = Some w'"
    using assms(1) by (auto simp: dispatch_def split: bind_splits)
  obtain k where c: "core w' = core w\<lparr>w_registry := snd (updateLastSeen (h_system w k) n (w_registry w))\<rparr>"
    using HeartbeatHandler_effect [OF h] by blast
  show ?thesis
    using arg_cong [OF c, of w_registry] assms(4)
    by (intro exI [of _ "[Op_updateLastSeen (h_system w k) n]"]) (simp add: clock_ok_def)
next
  case False
  then show ?thesis using dispatch_effect [OF assms(1)] request_ops [OF _ assms(2,3)] by blast
qed

subsection \<open>One request\<close>

definition context_ok :: "ConnectionContext \<Rightarrow> bool" where
  "context_ok ctx \<longleftrightarrow> safe_text (cc_sessionId ctx) \<and> safe_text (cc_clientIp ctx)"

definition span_ok :: "OtelScope option \<Rightarrow> bool" where
  "span_ok sp \<longleftrightarrow> (case sp of None \<Rightarrow> True | Some sc \<Rightarrow> scope_ok sc)"

lemma dispatch_total:
  assumes "json_laws J" "context_ok ctx" "message_safe J (t, i, pl)" "session_ok k n w"
  shows "returns (dispatch J ctx (\<lparr>fr_status = OK, fr_messageType = t, fr_messageId = i, fr_payload = pl\<rparr>) n sc w)"
proof -
  have a: "safe_text (cc_sessionId ctx)" "length pl \<le> 65536" "name_safe J pl" "stack_ok w" "reg_ok (w_registry w)"
    "length (w_registry w) \<le> 3000" "safe_text n"
    using assms by (auto simp: context_ok_def message_safe_def session_ok_def)
  have u: "returns (send_error J i ERR_MALFORMED ''Unknown message type'' w)"
    by (rule send_error_total) (use assms(1) in \<open>simp_all add: utf8_literal\<close>)
  show ?thesis
    using RegisterHandler_total [OF assms(1) a(1,4,2,3), of i] handleQueryNode_total [OF assms(1) a(1,4,2,3,5), of i]
      handleListNodes_total [OF assms(1) a(1,4-6), of i] HeartbeatHandler_total [OF assms(1) a(1,7,4)] u
    by (cases t) (auto simp: dispatch_def QueryHandler_handle_def Let_def intro!: returns_bind)
qed

lemma track_node_safe: "name_safe J pl \<Longrightarrow> safe_text n \<Longrightarrow> safe_text (track_node J pl n)"
  using name_field [of J pl] by (auto simp: track_node_def FIELD_NODE_ID_def split: option.splits)

lemma dispatch_kept:
  assumes "dispatch J ctx (\<lparr>fr_status = OK, fr_messageType = t, fr_messageId = i, fr_payload = pl\<rparr>) n sc w = Some (n', sc', w')"
    and "json_laws J" "message_safe J (t, i, pl)" "session_ok (Suc k) n w" "scope_ok sc"
  shows "session_ok k n' w' \<and> scope_ok sc'"
proof -
  have m: "length pl \<le> 65536" "name_safe J pl" "clock_ok w" "safe_text n"
    using assms(3,4) by (auto simp: message_safe_def session_ok_def)
  obtain rep where d: "request J (t, i, pl) n (w_registry w) rep n' (w_registry w')"
    "core w' = core w\<lparr>w_registry := w_registry w', w_io := w_io w'\<rparr>" "ot_stack w' = ot_stack w"
    using dispatch_effect [OF assms(1)] by blast
  obtain xs where xs: "w_registry w' = run_registry xs (w_registry w)" "list_all op_ok xs" "length xs \<le> 1"
    using dispatch_ops [OF assms(1,2) m(1,3)] by blast
  have f: "h_system w' = h_system w" "w_interference w' = w_interference w"
    using arg_cong [OF d(2), of h_system] arg_cong [OF d(2), of w_interference] by simp_all
  have n: "safe_text n'" using d(1) m track_node_safe by (auto simp: track_node_named elim!: request_elim)
  have sc: "scope_ok sc'"
    using assms(1,5) by (cases t) (auto simp: dispatch_def track_span_def Let_def split: bind_splits)
  have "length (w_registry w') \<le> Suc (length (w_registry w))" using xs(1,3) length_run [of xs "w_registry w"] by simp
  then show ?thesis
    using assms(4) n sc xs by (simp add: session_ok_def stack_ok_def clock_ok_def d(3) f reg_ok_run)
qed

lemma ensureConnectionSpan_ok:
  assumes "json_laws J" "context_ok ctx" "stack_ok w" "span_ok sp"
  shows "\<exists>sc w'. ensureConnectionSpan J ctx sp w = Some (sc, w') \<and> scope_ok sc \<and> stack_ok w' \<and> core w' = core w"
proof (cases sp)
  case (Some sc)
  then show ?thesis using assms by (simp add: ensureConnectionSpan_def span_ok_def)
next
  case None
  obtain sc0 d where o: "OtelScope_connection (cc_sessionId ctx) (cc_clientIp ctx) w =
       (sc0, w\<lparr>h_draws := d, h_reads := Suc (h_reads w), ot_stack := ot_stack w @ [(os_traceId sc0, os_spanId sc0)]\<rparr>)"
    "scope_ok sc0"
    unfolding OtelScope_connection_def using assms(3) by (metis opened_ok scope_open_cases)
  define w1 where "w1 = w\<lparr>h_draws := d, h_reads := Suc (h_reads w), ot_stack := ot_stack w @ [(os_traceId sc0, os_spanId sc0)]\<rparr>"
  define sc where "sc = setAttribute ''result'' (StringValue ''OK'') (setAttribute ''session.id'' (StringValue (cc_sessionId ctx))
      (setAttribute ''operation.name'' (StringValue ''CLIENT_CONNECTION'') sc0))"
  have sc: "scope_ok sc" using o(2) by (simp add: sc_def)
  obtain w2 where l: "logConnected J (scope_base sc)
      \<lparr>cf_clientIp = cc_clientIp ctx, cf_sessionId = cc_sessionId ctx, cf_activeConnections = w_active w1\<rparr> w1 = Some w2"
    using log_total(1) [OF json_laws_dump [OF assms(1)] scope_ok_base [OF sc]] assms(2) unfolding context_ok_def returns_def by blast
  have "logged w1 w2" using l by (rule log_logged)
  then have f: "core w2 = core w" "ot_stack w2 = ot_stack w @ [(os_traceId sc0, os_spanId sc0)]"
    using logged_frame [of w1 w2] by (simp_all add: w1_def)
  have "ensureConnectionSpan J ctx sp w = Some (sc, w2)"
    using l by (simp add: ensureConnectionSpan_def None o(1) Let_def w1_def sc_def)
  then show ?thesis using f o(2) sc assms(3) by (auto simp: stack_ok_def scope_ok_def)
qed

lemma handle_frame_ok:
  assumes "json_laws J" "context_ok ctx" "message_safe J (t, i, pl)" "session_ok (Suc k) n w" "span_ok sp"
  shows "\<exists>n' sc w'. handle_frame J ctx \<lparr>fr_status = OK, fr_messageType = t, fr_messageId = i, fr_payload = pl\<rparr> n sp w
      = Some (n', sc, w') \<and> session_ok k n' w' \<and> scope_ok sc"
proof -
  obtain sc1 w1 where e: "ensureConnectionSpan J ctx sp w = Some (sc1, w1)" "scope_ok sc1" "stack_ok w1" "core w1 = core w"
    using ensureConnectionSpan_ok [OF assms(1,2) _ assms(5)] assms(4) unfolding session_ok_def by blast
  define w2 where "w2 = interfere (w1\<lparr>h_reads := Suc (h_reads w1)\<rparr>)"
  have "session_ok (Suc k) n (w1\<lparr>h_reads := Suc (h_reads w1)\<rparr>)"
    using assms(4) e(3) core_eqD [OF e(4)] by (simp add: session_ok_def stack_ok_def clock_ok_def)
  then have s: "session_ok (Suc k) n w2" unfolding w2_def by (rule session_interfere)
  obtain n' sc w3 where d: "dispatch J ctx (\<lparr>fr_status = OK, fr_messageType = t, fr_messageId = i, fr_payload = pl\<rparr>) n sc1 w2
      = Some (n', sc, w3)"
    using dispatch_total [OF assms(1-3) s] unfolding returns_def by (metis not_Some_eq prod_cases3)
  have "session_ok k n' w3 \<and> scope_ok sc" using dispatch_kept [OF d assms(1,3) s e(2)] .
  moreover have "handle_frame J ctx \<lparr>fr_status = OK, fr_messageType = t, fr_messageId = i, fr_payload = pl\<rparr> n sp w
      = Some (n', sc, recordMessage t (h_steady w3 (h_reads w3) - h_steady w1 (h_reads w1)) (w3\<lparr>h_reads := Suc (h_reads w3)\<rparr>))"
    using d by (simp add: handle_frame_def e(1) steady_now_def Let_def w2_def)
  ultimately show ?thesis by (auto simp: session_ok_def stack_ok_def clock_ok_def recordMessage_def)
qed

subsection \<open>The whole connection\<close>

lemma worker_loop_ok:
  assumes "json_laws J" "context_ok ctx" "decode_all decode_message (rx_bytes (io_rx (w_io w))) = (ms, rest)"
    and "list_all (message_safe J) ms" "session_ok (length ms) n w" "span_ok sp"
  shows "\<exists>reason n' sp' w'. worker_loop J ctx n sp w = Some (reason, n', sp', w') \<and> session_ok 0 n' w' \<and> span_ok sp'"
  using assms(3-)
proof (induction ms arbitrary: n sp w)
  case Nil
  obtain f s where rf: "readFrame (w_io w) = (f, s)" by fastforce
  have "fr_status f \<noteq> OK"
    using readFrame_decode(3) [OF rf] Nil(1)
    by (subst (asm) frames.decode_all_unfold) (auto simp: Let_def split: option.splits prod.splits)
  then show ?case
    using worker_loop_stop [OF rf] Nil by (simp add: session_ok_def stack_ok_def clock_ok_def)
next
  case (Cons m ms)
  obtain f s where rf: "readFrame (w_io w) = (f, s)" by fastforce
  note rd = readFrame_decode [OF rf]
  have ok: "fr_status f = OK"
    using rd(4) Cons.prems(1) by (subst (asm) frames.decode_all_unfold) (auto split: option.splits prod.splits)
  have m: "m = (fr_messageType f, fr_messageId f, fr_payload f)" "decode_all decode_message (rx_bytes (io_rx s)) = (ms, rest)"
    using rd(3) [OF ok] Cons.prems(1)
    by (subst (asm) frames.decode_all_unfold; auto simp: Let_def split: prod.splits)+
  have so: "session_ok (Suc (length ms)) n (w\<lparr>w_io := s\<rparr>)"
    using Cons.prems(3) by (simp add: session_ok_def stack_ok_def clock_ok_def)
  obtain n1 sc w1 where h: "handle_frame J ctx \<lparr>fr_status = OK, fr_messageType = fr_messageType f, fr_messageId = fr_messageId f,
      fr_payload = fr_payload f\<rparr> n sp (w\<lparr>w_io := s\<rparr>) = Some (n1, sc, w1)" "session_ok (length ms) n1 w1" "scope_ok sc"
    using handle_frame_ok [OF assms(1,2) _ so Cons.prems(4)] Cons.prems(2) unfolding m(1) list.pred_inject by blast
  have "io_rx (w_io w1) = io_rx s" using handle_frame_effect(1) [OF h(1)] reply_sent_io(1) by fastforce
  then have "\<exists>reason n' sp' w'. worker_loop J ctx n1 (Some sc) w1 = Some (reason, n', sp', w') \<and> session_ok 0 n' w' \<and> span_ok sp'"
    using Cons.prems(2) m(2) h(2,3) by (intro Cons.IH) (simp_all add: span_ok_def)
  moreover have "worker_loop J ctx n sp w = worker_loop J ctx n1 (Some sc) w1"
    using rf ok h(1) frame_status_record [OF ok] by (subst worker_loop.simps) simp
  ultimately show ?case by simp
qed

lemma emitDisconnection_total:
  assumes "json_laws J" "context_ok ctx" "safe_text n" "stack_ok w"
  shows "returns (emitDisconnection J ctx t0 n sp reason w)"
proof -
  have l: "safe_text (disconnectReasonToString reason)" by (cases reason) (simp_all add: safe_literal)
  have "returns (with_span ''client_disconnection'' (disconnection_body J ctx d n reason) (w\<lparr>h_reads := Suc (h_reads w)\<rparr>))" for d
    using assms l
    by (intro with_span_returns)
       (auto simp: stack_ok_def disconnection_body_def Let_def context_ok_def intro!: returns_bind log_total scope_ok_base)
  then show ?thesis by (simp add: emitDisconnection_def steady_now_def Let_def)
qed

lemma markOffline_stack: "stack_ok w \<Longrightarrow> stack_ok (markOfflineIfKnown n (interfere w))"
  by (simp add: stack_ok_def markOffline_effect(3))

lemma handleConnection_ok:
  assumes "json_laws J" "context_ok ctx" "decode_all decode_message (rx_bytes (io_rx (w_io w))) = (ms, rest)"
    and "list_all (message_safe J) ms" "session_ok (length ms) (cc_nodeId ctx) w"
  shows "returns (handleConnection J sockopt fd ctx w)"
proof -
  define w0 where "w0 = w\<lparr>h_reads := Suc (h_reads w)\<rparr>"
  have s0: "session_ok (length ms) (cc_nodeId ctx) w0"
    using assms(5) by (simp add: w0_def session_ok_def stack_ok_def clock_ok_def)
  have e: "returns (emitDisconnection J ctx t0 n sp reason (markOfflineIfKnown n (interfere w')))"
    if "session_ok k n w'" for t0 n sp reason k and w' :: "'a world_scheme"
    using that by (intro emitDisconnection_total assms(1,2) markOffline_stack) (simp_all add: session_ok_def)
  obtain reason n sp w1 where l: "worker_loop J ctx (cc_nodeId ctx) None w0 = Some (reason, n, sp, w1)" "session_ok 0 n w1"
    using worker_loop_ok [OF assms(1,2) _ assms(4) s0, of rest None] assms(3) by (auto simp: w0_def span_ok_def)
  have "returns (connection_body J sockopt ctx w)"
  proof (cases sockopt)
    case None
    then show ?thesis
      using e [OF l(2)] l(1) by (auto simp: connection_body_def steady_now_def w0_def Let_def intro!: returns_bind)
  next
    case (Some err)
    then show ?thesis
      by (simp add: connection_body_def steady_now_def applyReceiveTimeout_def emitDisconnection_def Let_def del: append.simps)
  qed
  then show ?thesis by (auto simp: handleConnection_def intro!: returns_bind)
qed

subsection \<open>The heartbeat monitor\<close>

lemma tick_mark_total:
  "json_laws J \<Longrightarrow> list_all safe_text ks \<Longrightarrow> stack_ok w \<Longrightarrow> returns (tick_mark J ks w)"
proof (induction ks arbitrary: w)
  case (Cons k ks)
  have "returns (with_span ''heartbeat_monitor_offline'' (mark_body J k) w)"
    using Cons.prems
    by (intro with_span_returns)
       (auto simp: mark_body_def Let_def split: prod.splits intro!: returns_bind log_total scope_ok_base)
  then obtain w1 where w1: "with_span ''heartbeat_monitor_offline'' (mark_body J k) w = Some w1" unfolding returns_def by blast
  have "stack_ok w1" using mark_effect [OF w1] Cons.prems(3) by (simp add: stack_ok_def)
  then show ?case using Cons w1 by simp
qed simp

lemma tick_total:
  assumes "json_laws J" "list_all (safe_text \<circ> ne_node_id) (listNodes (w_registry w))" "stack_ok w"
  shows "returns (tick J n w)"
  using assms
  by (auto simp: tick_def system_now_def Let_def list_all_iff stack_ok_def intro!: tick_mark_total)

subsection \<open>How a session brings the server down\<close>

text \<open>
  Sanitising cuts a text after 512 bytes, also in the middle of a character. The log line is then
  not UTF-8, serialising it throws, and nothing on the way up to the thread function catches it.
\<close>

lemma log_crash:
  assumes "dump_law J" "\<not> safe_text nid"
  shows "lg_minLevel w \<le> INFO \<Longrightarrow> logNodeRegistered J b \<lparr>nf_nodeId = nid, nf_sessionId = sid\<rparr> w = None"
    "logNodeRegisterError J b \<lparr>rf_nodeId = nid, rf_sessionId = sid, rf_reason = reason\<rparr> w = None"
  unfolding logNodeRegistered_def logNodeRegisterError_def
  using assms
  by (auto simp: safe_text_def text_field_def common_fields_def
      intro!: emit_crash [of _ _ "''node_id''" "sanitizeText nid"] dest: leD)

lemma register_finish_crash:
  assumes "dump_law J" "\<not> safe_text nid" "lg_minLevel w \<le> INFO"
  shows "register_finish J i sid nid res sc w = None"
proof -
  have l: "lg_minLevel (send_frame f w) \<le> INFO" for f using assms(3) by (simp add: send_frame_def)
  show ?thesis
  proof (rule ccontr)
    assume "register_finish J i sid nid res sc w \<noteq> None"
    then show False
      by (auto simp: register_finish_def Let_def log_crash(1) [OF assms(1,2) l] log_crash(2) [OF assms(1,2)]
          split: bind_splits if_splits)
  qed
qed

lemma RegisterHandler_crash:
  assumes "dump_law J" "parse J pl = Some j" "\<not> register_invalid j" "\<not> safe_text (ne_node_id (register_entry j))"
    and "lg_minLevel w \<le> INFO"
  shows "RegisterHandler_handle J i pl sid w = None"
proof (rule ccontr)
  assume "\<not> ?thesis"
  then obtain w' where "with_span ''register_node'' (register_body J (h_steady w (h_reads w)) i pl sid) (w\<lparr>h_reads := Suc (h_reads w)\<rparr>) = Some w'"
    by (auto simp: RegisterHandler_handle_def steady_now_def Let_def)
  then show False
  proof (rule with_span_cases)
    fix sc w1 sc' w2
    assume b: "register_body J (h_steady w (h_reads w)) i pl sid sc w1 = Some (sc', w2)"
      and c: "core w1 = core (w\<lparr>h_reads := Suc (h_reads w)\<rparr>)"
    have "lg_minLevel w1 \<le> INFO" using core_eqD(6) [of w1 w] c assms(5) by simp
    then show False
      using b assms(2-4) register_finish_crash [OF assms(1), of _ "w1\<lparr>w_registry := r, h_reads := Suc (h_reads w1)\<rparr>" for r]
      by (auto simp: register_body_def Let_def set_duration_def steady_now_def register_entry_def split: prod.splits)
  qed
qed

lemma handle_frame_crash:
  assumes "dump_law J" "parse J pl = Some j" "\<not> register_invalid j" "\<not> safe_text (ne_node_id (register_entry j))"
    and "lg_minLevel w \<le> INFO"
  shows "handle_frame J ctx \<lparr>fr_status = OK, fr_messageType = REGISTER, fr_messageId = i, fr_payload = pl\<rparr> n sp w = None"
proof (rule ccontr)
  assume "\<not> ?thesis"
  then obtain sc1 w1 w2 where e: "ensureConnectionSpan J ctx sp w = Some (sc1, w1)"
    and r: "RegisterHandler_handle J i pl (cc_sessionId ctx) (interfere (w1\<lparr>h_reads := Suc (h_reads w1)\<rparr>)) = Some w2"
    by (auto simp: handle_frame_def dispatch_def steady_now_def Let_def split: bind_splits)
  have "lg_minLevel (interfere (w1\<lparr>h_reads := Suc (h_reads w1)\<rparr>)) = lg_minLevel w1"
    by (simp add: interfere_def split: list.splits)
  also have "\<dots> = lg_minLevel w" using core_eqD(6) [OF ensureConnectionSpan_effect(1) [OF e]] .
  finally show False using RegisterHandler_crash [OF assms(1-4)] assms(5) r by (metis not_None_eq)
qed

end
