(* ===== verification/WorkQueue.thy ===== *)
theory WorkQueue
  imports Prelude "HOL-Library.Multiset"
begin

text \<open>
  \<^verbatim>\<open>src/workQueue.cpp\<close>: the queue between the acceptor and the worker threads. Each method runs
  under the queue's mutex and is one step. \<^verbatim>\<open>close\<close> calls are returned as the list of descriptors
  closed. \<^verbatim>\<open>dequeue\<close> waits on a condition variable until the queue is not empty or stopped;
  a call that has to wait is the outer \<^term>\<open>None\<close>.

  The locale \<open>handoff_queue\<close> is what the server's threads rely on.
\<close>

record AcceptedSocket =
  as_fd :: int
  as_ip :: string

record WorkQueue =
  m_queue :: "AcceptedSocket list"
  m_stopped :: bool

definition new_WorkQueue :: WorkQueue where
  "new_WorkQueue = \<lparr>m_queue = [], m_stopped = False\<rparr>"

definition enqueue :: "AcceptedSocket \<Rightarrow> WorkQueue \<Rightarrow> int list \<times> WorkQueue" where
  "enqueue socket q =
     (if m_stopped q then ([as_fd socket], q)
      else ([], q\<lparr>m_queue := m_queue q @ [socket]\<rparr>))"

definition dequeue :: "WorkQueue \<Rightarrow> (AcceptedSocket option \<times> WorkQueue) option" where
  "dequeue q =
     (if m_queue q \<noteq> [] \<or> m_stopped q
      then Some (case m_queue q of
                   socket # rest \<Rightarrow> (Some socket, q\<lparr>m_queue := rest\<rparr>)
                 | [] \<Rightarrow> (None, q))
      else None)"

text \<open>The loop of \<^verbatim>\<open>stop\<close> that closes and pops what is left.\<close>

fun drain :: "AcceptedSocket list \<Rightarrow> int list" where
  "drain [] = []"
| "drain (s # ss) = as_fd s # drain ss"

definition stop :: "WorkQueue \<Rightarrow> int list \<times> WorkQueue" where
  "stop q = (if m_stopped q then ([], q) else (drain (m_queue q), q\<lparr>m_stopped := True, m_queue := []\<rparr>))"

definition queue_size :: "WorkQueue \<Rightarrow> nat" where
  "queue_size q = length (m_queue q)"

definition isStopped :: "WorkQueue \<Rightarrow> bool" where
  "isStopped q = m_stopped q"

text \<open>A stopped queue stays empty.\<close>

definition wf_queue :: "WorkQueue \<Rightarrow> bool" where
  "wf_queue q \<longleftrightarrow> (m_stopped q \<longrightarrow> m_queue q = [])"

text \<open>Histories of calls, with the sockets handed to consumers and the descriptors closed.\<close>

datatype queue_op = Q_enqueue AcceptedSocket | Q_dequeue | Q_stop

fun run_queue :: "queue_op list \<Rightarrow> WorkQueue \<Rightarrow> AcceptedSocket list \<times> int list \<times> WorkQueue" where
  "run_queue [] q = ([], [], q)"
| "run_queue (Q_enqueue s # ops) q =
     (let (c, q1) = enqueue s q; (hs, cs, q2) = run_queue ops q1 in (hs, c @ cs, q2))"
| "run_queue (Q_dequeue # ops) q =
     (case dequeue q of
        None \<Rightarrow> run_queue ops q
      | Some (None, q1) \<Rightarrow> run_queue ops q1
      | Some (Some s, q1) \<Rightarrow> (let (hs, cs, q2) = run_queue ops q1 in (s # hs, cs, q2)))"
| "run_queue (Q_stop # ops) q =
     (let (c, q1) = stop q; (hs, cs, q2) = run_queue ops q1 in (hs, c @ cs, q2))"

definition enqueued :: "queue_op list \<Rightarrow> AcceptedSocket list" where
  "enqueued ops = List.map_filter (\<lambda>x. case x of Q_enqueue s \<Rightarrow> Some s | _ \<Rightarrow> None) ops"

subsection \<open>The interface\<close>

locale handoff_queue =
  fixes enq :: "AcceptedSocket \<Rightarrow> 'q \<Rightarrow> int list \<times> 'q"
    and deq :: "'q \<Rightarrow> (AcceptedSocket option \<times> 'q) option"
    and halt :: "'q \<Rightarrow> int list \<times> 'q"
    and contents :: "'q \<Rightarrow> AcceptedSocket list"
    and stopped :: "'q \<Rightarrow> bool"
    and invar :: "'q \<Rightarrow> bool"
  assumes enq_open: "\<not> stopped q \<Longrightarrow> \<exists>q'. enq s q = ([], q') \<and> contents q' = contents q @ [s] \<and> \<not> stopped q'"
    and enq_stopped: "stopped q \<Longrightarrow> enq s q = ([as_fd s], q)"
    and deq_blocks: "deq q = None \<longleftrightarrow> contents q = [] \<and> \<not> stopped q"
    and deq_first: "deq q = Some (Some s, q') \<Longrightarrow> contents q = s # contents q' \<and> stopped q' = stopped q"
    and deq_none: "deq q = Some (None, q') \<Longrightarrow> contents q = [] \<and> stopped q \<and> q' = q"
    and halt_open: "\<not> stopped q \<Longrightarrow> \<exists>q'. halt q = (map as_fd (contents q), q') \<and> contents q' = [] \<and> stopped q'"
    and halt_stopped: "stopped q \<Longrightarrow> halt q = ([], q)"
    and stopped_empty: "invar q \<Longrightarrow> stopped q \<Longrightarrow> contents q = []"
    and invar_enq: "invar q \<Longrightarrow> invar (snd (enq s q))"
    and invar_deq: "invar q \<Longrightarrow> deq q = Some (r, q') \<Longrightarrow> invar q'"
    and invar_halt: "invar q \<Longrightarrow> invar (snd (halt q))"
begin

text \<open>After a stop nobody waits any more, and everybody is told to leave.\<close>

lemma deq_after_halt:
  assumes "invar q"
  shows "deq (snd (halt q)) = Some (None, snd (halt q))"
proof -
  have s: "stopped (snd (halt q))"
    using halt_open [of q] halt_stopped [of q] by (cases "stopped q") auto
  then have e: "contents (snd (halt q)) = []"
    using stopped_empty [OF invar_halt [OF assms]] by simp
  obtain r q' where d: "deq (snd (halt q)) = Some (r, q')"
    using deq_blocks [of "snd (halt q)"] s by fastforce
  show ?thesis
    using deq_first [of "snd (halt q)"] deq_none [of "snd (halt q)"] d e by (cases r) auto
qed

lemma deq_fifo:
  assumes "contents q = s # ss"
  shows "\<exists>q'. deq q = Some (Some s, q') \<and> contents q' = ss"
proof -
  obtain r q' where d: "deq q = Some (r, q')"
    using deq_blocks [of q] assms by fastforce
  show ?thesis
    using deq_first [of q] deq_none [of q q'] d assms by (cases r) fastforce+
qed

end

lemma drain_eq: "drain ss = map as_fd ss"
  by (induction ss) simp_all

interpretation wq: handoff_queue enqueue dequeue stop m_queue m_stopped wf_queue
  by unfold_locales
     (auto simp: enqueue_def dequeue_def stop_def drain_eq wf_queue_def split: list.splits if_splits)

subsection \<open>Conservation\<close>

text \<open>
  Every socket put into the queue is handed to exactly one consumer, closed, or still queued: the
  descriptors of the three groups together are those enqueued, as multisets.
\<close>

lemma enqueued_simps [simp]:
  "enqueued [] = []"
  "enqueued (Q_enqueue s # ops) = s # enqueued ops"
  "enqueued (Q_dequeue # ops) = enqueued ops"
  "enqueued (Q_stop # ops) = enqueued ops"
  by (simp_all add: enqueued_def)

lemma run_queue_conserves:
  assumes "run_queue ops q = (hs, cs, q')"
  shows "mset (map as_fd (m_queue q)) + mset (map as_fd (enqueued ops)) =
    mset (map as_fd hs) + mset cs + mset (map as_fd (m_queue q'))"
  using assms
proof (induction ops arbitrary: q hs cs q')
  case Nil
  then show ?case by simp
next
  case (Cons x ops)
  note step = Cons.IH [symmetric]
  show ?case
  proof (cases x)
    case (Q_enqueue s)
    obtain hs1 cs1 q1 where r: "run_queue ops (snd (enqueue s q)) = (hs1, cs1, q1)"
      by (rule prod_cases3)
    show ?thesis
      using Cons.prems step [OF r] r by (cases "m_stopped q") (auto simp: Q_enqueue enqueue_def)
  next
    case Q_dequeue
    show ?thesis
    proof (cases "m_queue q")
      case Nil
      then show ?thesis
        using Cons.prems Cons.IH [of q hs cs q'] by (cases "m_stopped q") (auto simp: Q_dequeue dequeue_def)
    next
      case (Cons s ss)
      obtain hs1 cs1 q1 where r: "run_queue ops (q\<lparr>m_queue := ss\<rparr>) = (hs1, cs1, q1)"
        by (rule prod_cases3)
      show ?thesis
        using \<open>run_queue (x # ops) q = (hs, cs, q')\<close> step [OF r] r by (auto simp: Q_dequeue dequeue_def Cons)
    qed
  next
    case Q_stop
    obtain hs1 cs1 q1 where r: "run_queue ops (snd (stop q)) = (hs1, cs1, q1)"
      by (rule prod_cases3)
    show ?thesis
      using Cons.prems step [OF r] r by (cases "m_stopped q") (auto simp: Q_stop stop_def drain_eq ac_simps)
  qed
qed

text \<open>Until it is stopped the queue hands the sockets over in the order in which they came.\<close>

lemma run_queue_fifo:
  assumes "run_queue ops q = (hs, cs, q')" "Q_stop \<notin> set ops" "\<not> m_stopped q"
  shows "hs @ m_queue q' = m_queue q @ enqueued ops \<and> cs = []"
  using assms
proof (induction ops arbitrary: q hs cs q')
  case Nil
  then show ?case by simp
next
  case (Cons x ops)
  show ?case
  proof (cases x)
    case (Q_enqueue s)
    have "run_queue ops (q\<lparr>m_queue := m_queue q @ [s]\<rparr>) = (hs, cs, q')"
      using Cons.prems by (auto simp: Q_enqueue enqueue_def split: prod.splits)
    from Cons.IH [OF this] show ?thesis using Cons.prems by (simp add: Q_enqueue)
  next
    case Q_dequeue
    show ?thesis
    proof (cases "m_queue q")
      case Nil
      then have "run_queue ops q = (hs, cs, q')"
        using Cons.prems by (auto simp: Q_dequeue dequeue_def)
      from Cons.IH [OF this] show ?thesis using Cons.prems by (simp add: Q_dequeue)
    next
      case q: (Cons s ss)
      obtain hs1 where "run_queue ops (q\<lparr>m_queue := ss\<rparr>) = (hs1, cs, q')" and "hs = s # hs1"
        using Cons.prems by (auto simp: Q_dequeue dequeue_def q split: prod.splits)
      with Cons.IH [OF this(1)] show ?thesis using Cons.prems by (simp add: Q_dequeue q)
    qed
  next
    case Q_stop
    then show ?thesis using Cons.prems by simp
  qed
qed

lemma run_queue_stopped:
  "run_queue ops q = (hs, cs, q') \<Longrightarrow> m_queue q = [] \<Longrightarrow> m_stopped q \<Longrightarrow> hs = [] \<and> m_queue q' = [] \<and> m_stopped q'"
proof (induction ops arbitrary: q hs cs)
  case (Cons x ops)
  show ?case
    using Cons by (cases x) (auto simp: enqueue_def dequeue_def stop_def split: prod.splits)
qed simp

section \<open>Properties\<close>

text \<open>
  C32. The work queue neither loses nor duplicates a socket: over any history of calls, what was in
  the queue and what was enqueued is what was handed to workers, what was closed and what is
  still queued.
\<close>

theorem queue_conserves:
  assumes "run_queue ops q = (hs, cs, q')"
  shows "mset (map as_fd (m_queue q)) + mset (map as_fd (enqueued ops)) =
    mset (map as_fd hs) + mset cs + mset (map as_fd (m_queue q'))"
  using assms by (rule run_queue_conserves)

lemma queue_conserves_witness:
  "run_queue [Q_enqueue \<lparr>as_fd = 4, as_ip = []\<rparr>, Q_stop, Q_enqueue \<lparr>as_fd = 5, as_ip = []\<rparr>] new_WorkQueue
     = ([], [4, 5], \<lparr>m_queue = [], m_stopped = True\<rparr>) \<and> {#4, 5 :: int#} = mset [4, 5]"
proof -
  have r: "run_queue [Q_enqueue \<lparr>as_fd = 4, as_ip = []\<rparr>, Q_stop, Q_enqueue \<lparr>as_fd = 5, as_ip = []\<rparr>] new_WorkQueue
     = ([], [4, 5], \<lparr>m_queue = [], m_stopped = True\<rparr>)"
    by (simp add: new_WorkQueue_def enqueue_def stop_def)
  then show ?thesis using queue_conserves [OF r] by simp
qed

text \<open>
  Sockets are handed over in the order they were enqueued: as long as the queue is not
  stopped, those handed out followed by those still queued are those queued before followed by
  those enqueued, and nothing is closed.
\<close>

theorem queue_fifo:
  assumes "run_queue ops q = (hs, cs, q')" "Q_stop \<notin> set ops" "\<not> m_stopped q"
  shows "hs @ m_queue q' = m_queue q @ enqueued ops \<and> cs = []"
  using assms by (rule run_queue_fifo)

lemma queue_fifo_witness:
  "\<exists>hs cs q'. run_queue [Q_enqueue \<lparr>as_fd = 4, as_ip = []\<rparr>, Q_dequeue, Q_enqueue \<lparr>as_fd = 5, as_ip = []\<rparr>] new_WorkQueue = (hs, cs, q')
     \<and> map as_fd (hs @ m_queue q') = [4, 5]"
proof -
  obtain hs cs q' where r: "run_queue [Q_enqueue \<lparr>as_fd = 4, as_ip = []\<rparr>, Q_dequeue, Q_enqueue \<lparr>as_fd = 5, as_ip = []\<rparr>] new_WorkQueue
      = (hs, cs, q')" by (metis prod_cases3)
  have "hs @ m_queue q' = m_queue new_WorkQueue
      @ enqueued [Q_enqueue \<lparr>as_fd = 4, as_ip = []\<rparr>, Q_dequeue, Q_enqueue \<lparr>as_fd = 5, as_ip = []\<rparr>]"
    using queue_fifo [OF r] by (simp add: new_WorkQueue_def)
  then have "map as_fd (hs @ m_queue q') = [4, 5]" by (simp only:) (simp add: new_WorkQueue_def)
  then show ?thesis using r by (intro exI conjI)
qed

text \<open>
  C33. Stopping releases everybody: after \<^verbatim>\<open>stop\<close> every waiting socket has been closed and a worker that asks
  for a socket is told at once that there is none, whatever happens to the queue afterwards.
\<close>

theorem stop_releases_workers:
  assumes "wf_queue q" "\<not> m_stopped q" "run_queue ops (snd (stop q)) = (hs, cs, q')"
  shows "fst (stop q) = map as_fd (m_queue q) \<and> hs = [] \<and> dequeue q' = Some (None, q')"
proof -
  have "hs = [] \<and> m_queue q' = [] \<and> m_stopped q'"
    using assms(2) by (intro run_queue_stopped [OF assms(3)]) (simp_all add: stop_def)
  then show ?thesis
    using assms by (auto simp: stop_def drain_eq dequeue_def)
qed

lemma stop_releases_workers_witness:
  "\<exists>hs cs q'. run_queue [Q_enqueue \<lparr>as_fd = 5, as_ip = []\<rparr>] (snd (stop new_WorkQueue)) = (hs, cs, q') \<and> dequeue q' = Some (None, q')"
proof -
  obtain hs cs q' where r: "run_queue [Q_enqueue \<lparr>as_fd = 5, as_ip = []\<rparr>] (snd (stop new_WorkQueue)) = (hs, cs, q')" by (metis prod_cases3)
  have "wf_queue new_WorkQueue" "\<not> m_stopped new_WorkQueue" by (simp_all add: wf_queue_def new_WorkQueue_def)
  then show ?thesis using r stop_releases_workers [OF _ _ r] by blast
qed

end
