(* ===== verification/SessionManager.thy ===== *)
theory SessionManager
  imports Prelude
begin

text \<open>
  \<^verbatim>\<open>src/sessionManager.cpp\<close>: two atomic counters. Each call is one \<^verbatim>\<open>fetch_add\<close>, so calls from any
  number of threads are a sequence of steps; the counters wrap at their width.
\<close>

definition SESSION_ID_HEX_WIDTH :: nat where "SESSION_ID_HEX_WIDTH = 16"

record SessionManager =
  m_sessionCounter :: u64
  m_messageCounter :: u32

definition new_SessionManager :: SessionManager where
  "new_SessionManager = \<lparr>m_sessionCounter = 0, m_messageCounter = 0\<rparr>"

definition nextSessionId :: "SessionManager \<Rightarrow> string \<times> SessionManager" where
  "nextSessionId m =
     (let id = m_sessionCounter m + 1
      in (hex_setw SESSION_ID_HEX_WIDTH (unat id), m\<lparr>m_sessionCounter := id\<rparr>))"

definition nextMessageId :: "SessionManager \<Rightarrow> u32 \<times> SessionManager" where
  "nextMessageId m = (let id = m_messageCounter m + 1 in (id, m\<lparr>m_messageCounter := id\<rparr>))"

text \<open>The identifiers handed out by \<open>k\<close> calls in a row.\<close>

fun session_ids :: "nat \<Rightarrow> SessionManager \<Rightarrow> string list" where
  "session_ids 0 m = []"
| "session_ids (Suc k) m = (let (s, m') = nextSessionId m in s # session_ids k m')"

lemma session_ids_eq:
  "session_ids k m = map (\<lambda>i. hex_setw 16 (unat (m_sessionCounter m + 1 + word_of_nat i))) [0..<k]"
proof (induction k arbitrary: m)
  case (Suc k)
  have "[0..<Suc k] = 0 # map Suc [0..<k]" by (simp add: upt_conv_Cons map_Suc_upt del: upt_Suc)
  then show ?case
    by (simp add: Suc.IH nextSessionId_def Let_def SESSION_ID_HEX_WIDTH_def ac_simps)
qed simp

lemma word_of_nat_inj64: "(word_of_nat i :: u64) = word_of_nat j \<Longrightarrow> i < 2 ^ 64 \<Longrightarrow> j < 2 ^ 64 \<Longrightarrow> i = j"
proof -
  assume "(word_of_nat i :: u64) = word_of_nat j" and ij: "i < 2 ^ 64" "j < 2 ^ 64"
  then have "unat (word_of_nat i :: u64) = unat (word_of_nat j :: u64)" by simp
  with ij show "i = j" by (simp add: unat_of_nat take_bit_nat_eq_self)
qed

lemma session_id_shape: "length (fst (nextSessionId m)) = 16" "c \<in> set (fst (nextSessionId m)) \<Longrightarrow> is_digit_in 16 c"
proof -
  have "unat (m_sessionCounter m + 1) < 16 ^ 16" using unsigned_less [of "m_sessionCounter m + 1"] by simp
  then show "length (fst (nextSessionId m)) = 16"
    by (simp add: nextSessionId_def Let_def SESSION_ID_HEX_WIDTH_def length_hex_setw)
  show "c \<in> set (fst (nextSessionId m)) \<Longrightarrow> is_digit_in 16 c"
    by (auto simp: nextSessionId_def Let_def intro: set_hex_setw)
qed

lemma session_ids_distinct:
  assumes "k \<le> 2 ^ 64"
  shows "distinct (session_ids k m)"
proof -
  have "inj_on (\<lambda>i. hex_setw 16 (unat (m_sessionCounter m + 1 + word_of_nat i))) {0..<k}"
  proof (rule inj_onI)
    fix i j
    assume ij: "i \<in> {0..<k}" "j \<in> {0..<k}"
      and "hex_setw 16 (unat (m_sessionCounter m + 1 + word_of_nat i)) =
           hex_setw 16 (unat (m_sessionCounter m + 1 + word_of_nat j))"
    then have "(word_of_nat i :: u64) = word_of_nat j"
      by (auto dest!: hex_setw_inject simp flip: word_unat_eq_iff)
    then show "i = j"
      using ij assms by (intro word_of_nat_inj64) auto
  qed
  then show ?thesis by (simp add: session_ids_eq distinct_map)
qed

text \<open>The sixteen digits, written out.\<close>

lemma hex_digit_set: "is_digit_in 16 c \<Longrightarrow> c \<in> set ''0123456789abcdef''"
proof -
  have "list_all (\<lambda>d. digit_char d \<in> set ''0123456789abcdef'') [0..<16]" by code_simp
  then show "is_digit_in 16 c \<Longrightarrow> c \<in> set ''0123456789abcdef''" unfolding is_digit_in_def list_all_iff by fastforce
qed

lemma session_ids_shape: "s \<in> set (session_ids k m) \<Longrightarrow> length s = 16 \<and> set s \<subseteq> set ''0123456789abcdef''"
proof (induction k arbitrary: m)
  case (Suc k)
  have "session_ids (Suc k) m = fst (nextSessionId m) # session_ids k (snd (nextSessionId m))" by (simp add: split_beta)
  then consider "s = fst (nextSessionId m)" | "s \<in> set (session_ids k (snd (nextSessionId m)))" using Suc.prems by auto
  then show ?case using Suc.IH session_id_shape [where m = m] hex_digit_set by cases blast+
qed simp

section \<open>Properties\<close>

text \<open>
  C31. Session identifiers are unique: up to \<open>2 ^ 64\<close> successive identifiers are pairwise different,
  from whatever value the counter starts, although it wraps; each is 16 characters long and consists of the hexadecimal
  digits 0 to 9 and a to f.
\<close>

theorem session_ids_unique:
  assumes "k \<le> 2 ^ 64"
  shows "distinct (session_ids k m) \<and> length (fst (nextSessionId m)) = 16
    \<and> (\<forall>s \<in> set (session_ids k m). length s = 16 \<and> set s \<subseteq> set ''0123456789abcdef'')"
  using session_ids_distinct [OF assms] session_id_shape(1) session_ids_shape by blast

lemma session_ids_unique_witness:
  "distinct (session_ids 3 new_SessionManager) \<and> list_all (\<lambda>s. length s = 16) (session_ids 3 new_SessionManager)"
  using session_ids_unique [of 3 new_SessionManager] by (simp add: list_all_iff del: session_ids.simps)

end
