(* ===== verification/ServerConfig.thy ===== *)
theory ServerConfig
  imports Prelude
begin

text \<open>
  \<^verbatim>\<open>src/serverConfig.cpp\<close>: the configuration read from the environment. The environment is a
  function from names to values. \<^verbatim>\<open>std::stoul\<close> is modelled as the standard defines it through
  \<^verbatim>\<open>strtoul\<close> in base 10: leading white space, an optional sign, digits; \<^verbatim>\<open>invalid_argument\<close> without
  digits, \<^verbatim>\<open>out_of_range\<close> above \<^verbatim>\<open>ULONG_MAX\<close>, and a minus sign negates modulo \<open>2 ^ 64\<close>. The \<^verbatim>\<open>WARN\<close>
  lines for standard error are returned as a list of texts.
\<close>

record ServerConfig =
  m_port :: u16
  m_metricsPort :: u16
  m_idleTimeoutSecs :: u32
  m_threadPoolSize :: u32
  m_maxClients :: u32
  m_heartbeatIntervalSecs :: u32

definition DEFAULT_PORT :: u16 where "DEFAULT_PORT = 9026"
definition DEFAULT_METRICS_PORT :: u16 where "DEFAULT_METRICS_PORT = 9464"
definition DEFAULT_IDLE_TIMEOUT :: u32 where "DEFAULT_IDLE_TIMEOUT = 30"
definition DEFAULT_THREAD_POOL_SIZE :: u32 where "DEFAULT_THREAD_POOL_SIZE = 16"
definition DEFAULT_MAX_CLIENTS :: u32 where "DEFAULT_MAX_CLIENTS = 10000"
definition DEFAULT_HEARTBEAT_INTERVAL :: u32 where "DEFAULT_HEARTBEAT_INTERVAL = 5"

subsection \<open>std::stoul\<close>

text \<open>Value and number of characters consumed; \<^term>\<open>None\<close> where \<^verbatim>\<open>stoul\<close> throws.\<close>

definition stoul :: "string \<Rightarrow> (u64 \<times> nat) option" where
  "stoul str =
     (let body = dropWhile isspace str;
          (neg, rest) = strip_sign body;
          digits = takeWhile isdigit rest;
          magnitude = undigits 10 digits
      in if digits = [] then None
         else if magnitude \<ge> 2 ^ 64 then None
         else Some (if neg then - word_of_nat magnitude else word_of_nat magnitude,
                    length str - length (dropWhile isdigit rest)))"

subsection \<open>Parsing the environment\<close>

definition readUnsignedLong :: "environment \<Rightarrow> string \<Rightarrow> u64 option" where
  "readUnsignedLong env name =
     (case env name of
        None \<Rightarrow> None
      | Some raw \<Rightarrow>
          (if raw = [] then None
           else (case stoul raw of
                   None \<Rightarrow> None
                 | Some (val, pos) \<Rightarrow> (if pos \<noteq> length raw then None else Some val))))"

record 'a ParseRange =
  pr_min :: 'a
  pr_max :: 'a
  pr_default :: 'a

definition warn_not_number :: "string \<Rightarrow> nat \<Rightarrow> string" where
  "warn_not_number name d = ''[WARN] serverConfig: '' @ name @ '' is not a valid number '' @ EM_DASH @ '' using default '' @ dec_of_nat d"

definition warn_out_of_range :: "string \<Rightarrow> nat \<Rightarrow> string \<Rightarrow> nat \<Rightarrow> string" where
  "warn_out_of_range name raw limits d = ''[WARN] serverConfig: '' @ name @ ''='' @ dec_of_nat raw @ '' out of range '' @ limits
     @ EM_DASH @ '' using default '' @ dec_of_nat d"

definition parseEnv ::
  "environment \<Rightarrow> string \<Rightarrow> ('a :: len) word ParseRange \<Rightarrow> 'a word \<times> string list" where
  "parseEnv env name bounds =
     (case readUnsignedLong env name of
        None \<Rightarrow> (pr_default bounds, if env name \<noteq> None then [warn_not_number name (unat (pr_default bounds))] else [])
      | Some raw \<Rightarrow>
          (if raw < ucast (pr_min bounds) \<or> raw > ucast (pr_max bounds)
           then (pr_default bounds, [warn_out_of_range name (unat raw)
             (''['' @ dec_of_nat (unat (pr_min bounds)) @ '', '' @ dec_of_nat (unat (pr_max bounds)) @ ''] '') (unat (pr_default bounds))])
           else (ucast raw, [])))"

definition parseMetricsPort :: "environment \<Rightarrow> u16 \<times> string list" where
  "parseMetricsPort env =
     (case readUnsignedLong env ''EOP_METRICS_PORT'' of
        None \<Rightarrow> (DEFAULT_METRICS_PORT,
                 if env ''EOP_METRICS_PORT'' \<noteq> None
                 then [warn_not_number ''EOP_METRICS_PORT'' (unat DEFAULT_METRICS_PORT)] else [])
      | Some raw \<Rightarrow>
          (if raw > ucast (65535 :: u16)
           then (DEFAULT_METRICS_PORT, [warn_out_of_range ''EOP_METRICS_PORT'' (unat raw) [] (unat DEFAULT_METRICS_PORT)])
           else (ucast raw, [])))"

definition range_of :: "'a \<Rightarrow> 'a \<Rightarrow> 'a \<Rightarrow> 'a ParseRange" where
  "range_of lo hi d = \<lparr>pr_min = lo, pr_max = hi, pr_default = d\<rparr>"

definition fromEnv :: "environment \<Rightarrow> ServerConfig \<times> string list" where
  "fromEnv env =
     (let (port, w1) = parseEnv env ''EOP_PORT'' (range_of 1 65535 DEFAULT_PORT);
          (metrics, w2) = parseMetricsPort env;
          (idle, w3) = parseEnv env ''EOP_IDLE_TIMEOUT'' (range_of 1 3600 DEFAULT_IDLE_TIMEOUT);
          (pool, w4) = parseEnv env ''EOP_THREAD_POOL_SIZE'' (range_of 1 256 DEFAULT_THREAD_POOL_SIZE);
          (clients, w5) = parseEnv env ''EOP_MAX_CLIENTS'' (range_of 1 100000 DEFAULT_MAX_CLIENTS);
          (interval, w6) = parseEnv env ''EOP_HEARTBEAT_INTERVAL'' (range_of 1 300 DEFAULT_HEARTBEAT_INTERVAL)
      in (\<lparr>m_port = port, m_metricsPort = metrics, m_idleTimeoutSecs = idle, m_threadPoolSize = pool,
           m_maxClients = clients, m_heartbeatIntervalSecs = interval\<rparr>,
          w1 @ w2 @ w3 @ w4 @ w5 @ w6))"

text \<open>The documented ranges of \<^verbatim>\<open>include/serverConfig.hpp\<close>.\<close>

definition valid_config :: "ServerConfig \<Rightarrow> bool" where
  "valid_config c \<longleftrightarrow> 1 \<le> unat (m_port c)
     \<and> 1 \<le> unat (m_idleTimeoutSecs c) \<and> unat (m_idleTimeoutSecs c) \<le> 3600
     \<and> 1 \<le> unat (m_threadPoolSize c) \<and> unat (m_threadPoolSize c) \<le> 256
     \<and> 1 \<le> unat (m_maxClients c) \<and> unat (m_maxClients c) \<le> 100000
     \<and> 1 \<le> unat (m_heartbeatIntervalSecs c) \<and> unat (m_heartbeatIntervalSecs c) \<le> 300"

subsection \<open>Lemmas\<close>

text \<open>A value accepted by the range check survives the narrowing cast.\<close>

lemma parseEnv_range:
  fixes bounds :: "('a :: len) word ParseRange"
  assumes "LENGTH('a) \<le> 64" "pr_min bounds \<le> pr_default bounds" "pr_default bounds \<le> pr_max bounds"
  shows "pr_min bounds \<le> fst (parseEnv env name bounds) \<and> fst (parseEnv env name bounds) \<le> pr_max bounds"
proof (cases "readUnsignedLong env name")
  case None
  then show ?thesis using assms by (simp add: parseEnv_def)
next
  case (Some raw)
  have u: "unat (ucast w :: u64) = unat w" for w :: "'a word"
  proof -
    have "(2 :: nat) ^ LENGTH('a) \<le> 2 ^ 64" using assms(1) by (intro power_increasing) auto
    then have "unat w < 2 ^ 64" using unsigned_less [of w, where 'a = nat] by linarith
    then show ?thesis by (simp add: unsigned_ucast_eq take_bit_nat_eq_self)
  qed
  show ?thesis
  proof (cases "raw < ucast (pr_min bounds) \<or> raw > ucast (pr_max bounds)")
    case True
    then show ?thesis using assms Some by (simp add: parseEnv_def)
  next
    case False
    then have b: "unat (pr_min bounds) \<le> unat raw" "unat raw \<le> unat (pr_max bounds)"
      by (auto simp: not_less word_le_nat_alt u)
    then have "unat raw < 2 ^ LENGTH('a)" using unsigned_less [of "pr_max bounds", where 'a = nat] by linarith
    then have "unat (ucast raw :: 'a word) = unat raw" by (simp add: unsigned_ucast_eq take_bit_nat_eq_self)
    then show ?thesis
      using False Some b by (simp add: parseEnv_def word_le_nat_alt)
  qed
qed

lemma valid_config_fromEnv: "valid_config (fst (fromEnv env))"
proof -
  have port: "1 \<le> fst (parseEnv env ''EOP_PORT'' (range_of 1 65535 DEFAULT_PORT))"
    using parseEnv_range [of "range_of 1 65535 DEFAULT_PORT" env] by (simp add: range_of_def DEFAULT_PORT_def)
  have r32: "1 \<le> fst (parseEnv env name (range_of 1 hi d)) \<and> fst (parseEnv env name (range_of 1 hi d)) \<le> hi"
    if "1 \<le> d" "d \<le> hi" for name and hi d :: u32
    using parseEnv_range [of "range_of 1 hi d" env name] that by (simp add: range_of_def)
  show ?thesis
    using port r32 [of DEFAULT_IDLE_TIMEOUT 3600 "''EOP_IDLE_TIMEOUT''"]
      r32 [of DEFAULT_THREAD_POOL_SIZE 256 "''EOP_THREAD_POOL_SIZE''"]
      r32 [of DEFAULT_MAX_CLIENTS 100000 "''EOP_MAX_CLIENTS''"]
      r32 [of DEFAULT_HEARTBEAT_INTERVAL 300 "''EOP_HEARTBEAT_INTERVAL''"]
    by (simp add: fromEnv_def valid_config_def word_le_nat_alt split_beta Let_def DEFAULT_IDLE_TIMEOUT_def
        DEFAULT_THREAD_POOL_SIZE_def DEFAULT_MAX_CLIENTS_def DEFAULT_HEARTBEAT_INTERVAL_def)
qed

text \<open>
  The contract of one variable, independent of the reading code: the decimal number that a text is, blanks in front and one sign
  allowed, every other character a digit, below \<open>2 ^ 64\<close>, where a minus sign takes the complement to \<open>2 ^ 64\<close>;
  the value of the variable if it is such a number within the bounds, otherwise the default; and whether it is set but ignored.
\<close>

definition decimal_text :: "string \<Rightarrow> nat option" where
  "decimal_text s =
     (let t = dropWhile (\<lambda>c. c \<in> {CHR '' '', CHR 9, CHR 10, CHR 11, CHR 12, CHR 13}) s;
          (sign, ds) = (case t of c # cs \<Rightarrow> (if c \<in> {CHR ''+'', CHR ''-''} then (c, cs) else (CHR ''+'', t))
                        | [] \<Rightarrow> (CHR ''+'', []));
          v = foldl (\<lambda>v c. 10 * v + (of_char c - 48)) 0 ds
      in if ds \<noteq> [] \<and> set ds \<subseteq> set ''0123456789'' \<and> v < 2 ^ 64
         then Some (if sign = CHR ''-'' then (2 ^ 64 - v) mod 2 ^ 64 else v) else None)"

definition setting :: "environment \<Rightarrow> string \<Rightarrow> nat \<Rightarrow> nat \<Rightarrow> nat \<Rightarrow> nat" where
  "setting env name lo hi d =
     (case Option.bind (env name) decimal_text of
        Some n \<Rightarrow> (if lo \<le> n \<and> n \<le> hi then n else d)
      | None \<Rightarrow> d)"

definition ignored :: "environment \<Rightarrow> string \<times> nat \<times> nat \<Rightarrow> bool" where
  "ignored env = (\<lambda>(name, lo, hi). env name \<noteq> None \<and>
     (case Option.bind (env name) decimal_text of Some n \<Rightarrow> \<not> (lo \<le> n \<and> n \<le> hi) | None \<Rightarrow> True))"

text \<open>The reading code returns this number.\<close>

lemma char_among: "c \<in> set cs \<longleftrightarrow> (of_char c :: nat) \<in> of_char ` set cs"
  by (auto simp: inj_image_mem_iff inj_on_def)

lemma isdigit_set: "isdigit c \<longleftrightarrow> c \<in> set ''0123456789''"
proof -
  have "48 \<le> n \<and> n \<le> 57 \<longleftrightarrow> n \<in> {48, 49, 50, 51, 52, 53, 54, 55, 56, 57}" for n :: nat by (simp, presburger)
  then show ?thesis unfolding isdigit_def char_among by simp
qed

lemma isspace_set: "isspace c \<longleftrightarrow> c \<in> {CHR '' '', CHR 9, CHR 10, CHR 11, CHR 12, CHR 13}"
proof -
  have "n = 32 \<or> 9 \<le> n \<and> n \<le> 13 \<longleftrightarrow> n \<in> {32, 9, 10, 11, 12, 13}" for n :: nat by (simp, presburger)
  then show ?thesis unfolding isspace_def using char_among [of c "[CHR '' '', CHR 9, CHR 10, CHR 11, CHR 12, CHR 13]"] by simp
qed

lemma undigits_decimal: "set ds \<subseteq> set ''0123456789'' \<Longrightarrow> undigits 10 ds = foldl (\<lambda>v c. 10 * v + (of_char c - 48)) 0 ds"
  by (induction ds rule: rev_induct) (auto simp: undigits_def digit_val_def)

lemma word_of_complement: "v < 2 ^ 64 \<Longrightarrow> (word_of_nat ((2 ^ 64 - v) mod 2 ^ 64) :: u64) = - word_of_nat v"
  by (cases "v = 0") (simp_all add: of_nat_diff)

lemma stoul_decimal_text:
  assumes "s \<noteq> []"
  shows "(case stoul s of None \<Rightarrow> None | Some (val, pos) \<Rightarrow> (if pos \<noteq> length s then None else Some val)) =
    map_option word_of_nat (decimal_text s)"
proof -
  define t where "t = dropWhile isspace s"
  obtain neg ds where sg: "strip_sign t = (neg, ds)" by fastforce
  have t: "dropWhile (\<lambda>c. c \<in> {CHR '' '', CHR 9, CHR 10, CHR 11, CHR 12, CHR 13}) s = t"
    unfolding t_def isspace_set by (rule refl)
  have sg': "(case t of c # cs \<Rightarrow> (if c \<in> {CHR ''+'', CHR ''-''} then (c, cs) else (CHR ''+'', t)) | [] \<Rightarrow> (CHR ''+'', []))
      = (if neg then CHR ''-'' else CHR ''+'', ds)"
    using sg by (cases t) (auto split: if_splits)
  have w: "map_option word_of_nat (if b then Some (if neg then (2 ^ 64 - v) mod 2 ^ 64 else v) else None) =
      (if b then Some (if neg then - word_of_nat v else (word_of_nat v :: u64)) else None)" if "b \<longrightarrow> v < 2 ^ 64" for b v
    using that word_of_complement [of v] by auto
  have p: "length s - length (dropWhile isdigit ds) = length s \<longleftrightarrow> dropWhile isdigit ds = []"
    using assms by (cases s; cases "dropWhile isdigit ds") (simp_all del: dropWhile_eq_Nil_conv)
  have D: "set ds \<subseteq> set ''0123456789'' \<longleftrightarrow> dropWhile isdigit ds = []"
    unfolding dropWhile_eq_Nil_conv isdigit_set by blast
  show ?thesis
  proof (cases "dropWhile isdigit ds = []")
    case True
    then have d: "takeWhile isdigit ds = ds" by (metis append_Nil2 takeWhile_dropWhile_id)
    have v: "undigits 10 ds = foldl (\<lambda>v c. 10 * v + (of_char c - 48)) 0 ds" using True D undigits_decimal by blast
    have n: "(if neg then CHR ''-'' else CHR ''+'') = CHR ''-'' \<longleftrightarrow> neg" by simp
    show ?thesis
      unfolding stoul_def decimal_text_def t t_def [symmetric] Let_def sg sg' split d D n v using True
      by (subst w) (simp_all add: not_le p)
  next
    case False
    then show ?thesis
      unfolding stoul_def decimal_text_def t t_def [symmetric] Let_def sg sg' split D by (simp add: p del: dropWhile_eq_Nil_conv)
  qed
qed

lemma readUnsignedLong_decimal_text: "readUnsignedLong env name = map_option word_of_nat (Option.bind (env name) decimal_text)"
proof (cases "env name")
  case None
  then show ?thesis by (simp add: readUnsignedLong_def)
next
  case (Some s)
  have "decimal_text [] = None" by (simp add: decimal_text_def)
  then show ?thesis using Some stoul_decimal_text [of s] by (cases "s = []") (simp_all add: readUnsignedLong_def)
qed

lemma decimal_text_bound: "decimal_text s = Some n \<Longrightarrow> unat (word_of_nat n :: u64) = n"
proof -
  assume a: "decimal_text s = Some n"
  have m: "x mod 2 ^ 64 < 2 ^ 64" for x :: nat by simp
  have "n < 2 ^ 64" using a unfolding decimal_text_def Let_def split_beta by (auto simp only: option.inject option.distinct split: if_splits intro: m)
  then show ?thesis by (simp add: unat_of_nat take_bit_nat_eq_self)
qed

lemma setting_code: "setting env name lo hi d =
    (case readUnsignedLong env name of Some raw \<Rightarrow> (if lo \<le> unat raw \<and> unat raw \<le> hi then unat raw else d) | None \<Rightarrow> d)"
  by (auto simp: setting_def readUnsignedLong_decimal_text decimal_text_bound split: option.split Option.bind_splits)

lemma ignored_code: "ignored env (name, lo, hi) \<longleftrightarrow> env name \<noteq> None \<and>
    (case readUnsignedLong env name of Some raw \<Rightarrow> \<not> (lo \<le> unat raw \<and> unat raw \<le> hi) | None \<Rightarrow> True)"
  by (auto simp: ignored_def readUnsignedLong_decimal_text decimal_text_bound split: option.split Option.bind_splits)

lemma unat_ucast_narrow: "unat (x :: u64) \<le> unat (y :: 'a :: len word) \<Longrightarrow> unat (ucast x :: 'a word) = unat x"
proof -
  assume "unat x \<le> unat y"
  then have "unat x < 2 ^ LENGTH('a)" using unsigned_less [of y, where 'a = nat] by linarith
  then show ?thesis by (simp add: unsigned_ucast_eq take_bit_nat_eq_self)
qed

lemma unat_ucast_wide: "LENGTH('a) \<le> 64 \<Longrightarrow> unat (ucast (x :: 'a :: len word) :: u64) = unat x"
proof -
  assume "LENGTH('a) \<le> 64"
  then have "(2 :: nat) ^ LENGTH('a) \<le> 2 ^ 64" by (intro power_increasing) auto
  then have "unat x < 2 ^ 64" using unsigned_less [of x, where 'a = nat] by linarith
  then show ?thesis by (simp add: unsigned_ucast_eq take_bit_nat_eq_self)
qed

lemma read_unset: "env name = None \<Longrightarrow> readUnsignedLong env name = None"
  by (simp add: readUnsignedLong_def)

lemma parseEnv_setting:
  fixes lo hi d :: "'a :: len word"
  assumes "LENGTH('a) \<le> 64"
  shows "unat (fst (parseEnv env name (range_of lo hi d))) = setting env name (unat lo) (unat hi) (unat d)"
    "length (snd (parseEnv env name (range_of lo hi d))) = (if ignored env (name, unat lo, unat hi) then 1 else 0)"
  using unat_ucast_wide [OF assms, of lo] unat_ucast_wide [OF assms, of hi] unat_ucast_narrow [of _ hi] read_unset [of env name]
  by (auto simp: parseEnv_def setting_code ignored_code range_of_def word_less_nat_alt not_less split: option.split)

lemma parseMetricsPort_setting:
  "unat (fst (parseMetricsPort env)) = setting env ''EOP_METRICS_PORT'' 0 65535 9464"
  "length (snd (parseMetricsPort env)) = (if ignored env (''EOP_METRICS_PORT'', 0, 65535) then 1 else 0)"
  using unat_ucast_narrow [of _ "65535 :: u16"] read_unset [of env "''EOP_METRICS_PORT''"]
  by (auto simp: parseMetricsPort_def setting_code ignored_code DEFAULT_METRICS_PORT_def word_less_nat_alt not_less split: option.split)

definition config_variables :: "(string \<times> nat \<times> nat) list" where
  "config_variables = [(''EOP_PORT'', 1, 65535), (''EOP_METRICS_PORT'', 0, 65535), (''EOP_IDLE_TIMEOUT'', 1, 3600),
     (''EOP_THREAD_POOL_SIZE'', 1, 256), (''EOP_MAX_CLIENTS'', 1, 100000), (''EOP_HEARTBEAT_INTERVAL'', 1, 300)]"

text \<open>A plain decimal numeral is read as the number it denotes.\<close>

lemma digit10: "is_digit_in 10 c \<Longrightarrow> isdigit c \<and> \<not> isspace c \<and> c \<noteq> CHR ''-'' \<and> c \<noteq> CHR ''+''"
proof -
  assume "is_digit_in 10 c"
  then obtain d :: nat where d: "d < 10" "c = digit_char d" by (auto simp: is_digit_in_def)
  then have oc: "of_char c = 48 + d" by (simp add: digit_char_def of_char_of)
  then have "c \<noteq> CHR ''-''" "c \<noteq> CHR ''+''" by auto
  with oc d show ?thesis by (simp add: isdigit_def isspace_def)
qed

lemma digits_in_nonempty: "digits_in b n \<noteq> []"
  by (subst digits_in.simps) simp

lemma stoul_decimal:
  assumes "n < 2 ^ 64"
  shows "stoul (dec_of_nat n) = Some (word_of_nat n, length (dec_of_nat n))"
proof -
  let ?s = "dec_of_nat n"
  have all: "\<forall>c \<in> set ?s. isdigit c \<and> \<not> isspace c \<and> c \<noteq> CHR ''-'' \<and> c \<noteq> CHR ''+''"
    unfolding dec_of_nat_def using set_digits [of 10 _ n] digit10 by fastforce
  have ne: "?s \<noteq> []" by (simp add: dec_of_nat_def digits_in_nonempty)
  have d: "dropWhile isspace ?s = ?s" using all ne by (cases ?s) auto
  have sg: "strip_sign ?s = (False, ?s)" using all ne by (cases ?s) auto
  have tw: "takeWhile isdigit ?s = ?s" "dropWhile isdigit ?s = []" using all by auto
  have v: "undigits 10 ?s = n" by (simp add: dec_of_nat_def undigits_digits)
  show ?thesis
    using assms ne unfolding stoul_def Let_def d sg split tw v by simp
qed

lemma readUnsignedLong_decimal:
  "env name = Some (dec_of_nat n) \<Longrightarrow> n < 2 ^ 64 \<Longrightarrow> readUnsignedLong env name = Some (word_of_nat n)"
  by (simp add: readUnsignedLong_def stoul_decimal) (simp add: dec_of_nat_def digits_in_nonempty)

section \<open>Properties\<close>

text \<open>
  C34. Whatever the environment holds, the configuration is within the documented ranges. Each
  field is the number in its variable if the whole text, but for blanks in front and a sign, is one in decimal and it is within the range,
  unchanged by the narrowing to the type of the field, and the default otherwise; and there is one warning for each variable that is
  set but ignored. A minus sign counts modulo \<open>2 ^ 64\<close>, so a negative text may be taken for a number in the range.
\<close>

theorem config_in_range:
  "valid_config (fst (fromEnv env))
   \<and> unat (m_port (fst (fromEnv env))) = setting env ''EOP_PORT'' 1 65535 9026
   \<and> unat (m_metricsPort (fst (fromEnv env))) = setting env ''EOP_METRICS_PORT'' 0 65535 9464
   \<and> unat (m_idleTimeoutSecs (fst (fromEnv env))) = setting env ''EOP_IDLE_TIMEOUT'' 1 3600 30
   \<and> unat (m_threadPoolSize (fst (fromEnv env))) = setting env ''EOP_THREAD_POOL_SIZE'' 1 256 16
   \<and> unat (m_maxClients (fst (fromEnv env))) = setting env ''EOP_MAX_CLIENTS'' 1 100000 10000
   \<and> unat (m_heartbeatIntervalSecs (fst (fromEnv env))) = setting env ''EOP_HEARTBEAT_INTERVAL'' 1 300 5
   \<and> length (snd (fromEnv env)) = length (filter (ignored env) config_variables)"
  using valid_config_fromEnv [of env]
  by (simp add: fromEnv_def split_beta Let_def parseEnv_setting parseMetricsPort_setting config_variables_def DEFAULT_PORT_def
      DEFAULT_IDLE_TIMEOUT_def DEFAULT_THREAD_POOL_SIZE_def DEFAULT_MAX_CLIENTS_def DEFAULT_HEARTBEAT_INTERVAL_def)

text \<open>A port number written in decimal is the port that the server uses, without a warning.\<close>

theorem config_port_decimal:
  assumes "env ''EOP_PORT'' = Some (dec_of_nat n)" "1 \<le> n" "n \<le> 65535"
  shows "unat (m_port (fst (fromEnv env))) = n \<and> snd (parseEnv env ''EOP_PORT'' (range_of 1 (65535 :: u16) DEFAULT_PORT)) = []"
proof -
  have r: "readUnsignedLong env ''EOP_PORT'' = Some (word_of_nat n)"
    using assms(1,3) by (intro readUnsignedLong_decimal) simp_all
  have u: "unat (word_of_nat n :: u64) = n" using assms(3) by (simp add: unat_of_nat take_bit_nat_eq_self)
  have "\<not> (word_of_nat n :: u64) < 1" "\<not> (word_of_nat n :: u64) > 65535"
    using assms(2,3) u by (simp_all add: word_less_nat_alt)
  moreover have "unat (ucast (word_of_nat n :: u64) :: u16) = n"
    using assms(3) u by (simp add: unsigned_ucast_eq take_bit_nat_eq_self)
  ultimately show ?thesis by (simp add: fromEnv_def parseEnv_def r range_of_def Let_def split: prod.splits)
qed

lemma config_port_decimal_witness: "unat (m_port (fst (fromEnv (\<lambda>_. Some ''8080'')))) = 8080"
proof -
  have "dec_of_nat 8080 = ''8080''" by (simp add: dec_of_nat_def digits_in.simps digit_char_def) code_simp
  then show ?thesis using config_port_decimal [of "\<lambda>_. Some ''8080''" 8080] by simp
qed

text \<open>
  A negative number passes the range check when it wraps into the range: the port
  \<^verbatim>\<open>-18446744073709551615\<close> is taken for port 1.
\<close>

theorem config_negative_wraps:
  assumes "env ''EOP_PORT'' = Some ''-18446744073709551615''"
  shows "m_port (fst (fromEnv env)) = 1"
proof -
  have "stoul ''-18446744073709551615'' = Some (1, 21)"
    by (simp add: stoul_def isdigit_def isspace_def undigits_def digit_val_def)
  then have "readUnsignedLong env ''EOP_PORT'' = Some 1" by (simp add: readUnsignedLong_def assms)
  then show ?thesis by (simp add: fromEnv_def parseEnv_def range_of_def Let_def split: prod.splits)
qed

lemma config_negative_wraps_witness: "m_port (fst (fromEnv (\<lambda>_. Some ''-18446744073709551615''))) = 1"
  by (rule config_negative_wraps) simp

end
