(* ===== verification/SocketAcceptor.thy ===== *)
theory SocketAcceptor
  imports ConnectionWorker WorkQueue SessionManager ServerConfig
begin

text \<open>
  \<^verbatim>\<open>src/socketAcceptor.cpp\<close> and the callback \<^verbatim>\<open>onAccept\<close> of \<^verbatim>\<open>src/app/main.cpp\<close>, as the acceptor
  thread executes them. \<open>server\<close> is the state of the process: what a worker sees (theory
  \<open>World\<close>), the work queue, the session counters, and the kernel's side of every descriptor. What
  \<^verbatim>\<open>socket\<close>, \<^verbatim>\<open>bind\<close>, \<^verbatim>\<open>listen\<close> and \<^verbatim>\<open>accept\<close> answer are arguments; \<open>errmsg\<close> is the text that
  \<^verbatim>\<open>std::system_category().message\<close> gives for an \<^verbatim>\<open>errno\<close>.
\<close>

record server =
  sv_world :: world
  sv_queue :: WorkQueue
  sv_session :: SessionManager
  sv_sockets :: "int \<Rightarrow> io"

subsection \<open>Starting\<close>

datatype start_outcome =
  SocketFails errno | ReuseFails errno | BindFails errno | ListenFails errno | Listening

definition acceptor_start ::
  "json_lib \<Rightarrow> (errno \<Rightarrow> string) \<Rightarrow> u16 \<Rightarrow> start_outcome \<Rightarrow> 'a world_scheme \<Rightarrow> (bool \<times> 'a world_scheme) option" where
  "acceptor_start J errmsg port outcome w =
     (case outcome of
        SocketFails e \<Rightarrow> do { w \<leftarrow> log_plain J ERROR (''socket() failed: '' @ errmsg e) w; Some (False, w) }
      | ReuseFails e \<Rightarrow> do {
          w \<leftarrow> log_plain J ERROR (''setsockopt(SO_REUSEADDR) failed: '' @ errmsg e) w; Some (False, w) }
      | BindFails e \<Rightarrow> do {
          w \<leftarrow> (if e = EADDRINUSE
               then log_plain J ERROR (''Port '' @ dec_of_nat (unat port) @ '' is already in use (EADDRINUSE)'') w
               else log_plain J ERROR (''bind() failed: '' @ errmsg e) w);
          Some (False, w) }
      | ListenFails e \<Rightarrow> do { w \<leftarrow> log_plain J ERROR (''listen() failed: '' @ errmsg e) w; Some (False, w) }
      | Listening \<Rightarrow> do {
          w \<leftarrow> log_plain J INFO (''Listening on port '' @ dec_of_nat (unat port)) w; Some (True, w) })"

subsection \<open>Accepting\<close>

definition close_fds :: "int list \<Rightarrow> server \<Rightarrow> server" where
  "close_fds fds st = st\<lparr>sv_world := (sv_world st)\<lparr>w_closed := w_closed (sv_world st) @ fds\<rparr>\<rparr>"

definition onAccept :: "int \<Rightarrow> string \<Rightarrow> server \<Rightarrow> server" where
  "onAccept clientFd ip st =
     (let st = st\<lparr>sv_world := (sv_world st)\<lparr>w_active := w_active (sv_world st) + 1\<rparr>\<rparr>;
          (closed, q) = enqueue \<lparr>as_fd = clientFd, as_ip = ip\<rparr> (sv_queue st)
      in close_fds closed (st\<lparr>sv_queue := q\<rparr>))"

definition reject_client :: "json_lib \<Rightarrow> int \<Rightarrow> string \<Rightarrow> u32 \<Rightarrow> server \<Rightarrow> server option" where
  "reject_client J clientFd clientIp currentCount st = do {
     payload \<leftarrow> buildErrorPayload J \<lparr>err_refMessageId = 0, err_errorCode = ERR_CAPACITY,
       err_description = ''Server at maximum client capacity''\<rparr>;
     frame \<leftarrow> buildFrame ERROR_MSG 0 payload;
     let (_, s) = sendAll frame (sv_sockets st clientFd);
     let st = close_fds [clientFd] (st\<lparr>sv_sockets := (sv_sockets st)(clientFd := s)\<rparr>);
     w \<leftarrow> log_plain J WARN (''Connection rejected (ERR_CAPACITY). IP: '' @ clientIp @ '' | Count: ''
            @ dec_of_nat (unat currentCount)) (sv_world st);
     Some (st\<lparr>sv_world := w\<rparr>)
   }"

definition accept_client :: "json_lib \<Rightarrow> ServerConfig \<Rightarrow> int \<Rightarrow> string \<Rightarrow> server \<Rightarrow> server option" where
  "accept_client J config clientFd clientIp st =
     (let currentCount = w_active (sv_world st) in
      if currentCount \<ge> m_maxClients config then reject_client J clientFd clientIp currentCount st
      else Some (onAccept clientFd clientIp st))"

text \<open>
  What an iteration of the loop meets: the stop flag is set when the loop condition reads it;
  \<^verbatim>\<open>accept\<close> fails, with the value of the stop flag read then; a client arrives.
\<close>

datatype accept_event = StopSeen | AcceptFails errno bool | Accepted int string

fun acceptLoop ::
  "json_lib \<Rightarrow> (errno \<Rightarrow> string) \<Rightarrow> ServerConfig \<Rightarrow> accept_event list \<Rightarrow> server \<Rightarrow> server option" where
  "acceptLoop J errmsg config [] st = Some st"
| "acceptLoop J errmsg config (StopSeen # es) st = Some st"
| "acceptLoop J errmsg config (AcceptFails e stopFlag # es) st =
     (if stopFlag then Some st
      else if e = EINTR then acceptLoop J errmsg config es st
      else Some (st\<lparr>sv_world := (sv_world st)\<lparr>mt_stderr := mt_stderr (sv_world st)
             @ [''[ERROR] socketAcceptor: accept() failed: '' @ errmsg e]\<rparr>\<rparr>))"
| "acceptLoop J errmsg config (Accepted clientFd clientIp # es) st = do {
     st \<leftarrow> accept_client J config clientFd clientIp st;
     acceptLoop J errmsg config es st
   }"

subsection \<open>Effect of accepting a client\<close>

lemma log_plain_world:
  "log_plain J l msg w = Some w' \<Longrightarrow> w_active w' = w_active w \<and> w_closed w' = w_closed w \<and> w_registry w' = w_registry w"
  by (auto dest!: log_logged simp: logged_def)

lemma reject_client_effect:
  assumes "reject_client J fd ip n st = Some st'"
  shows "w_active (sv_world st') = w_active (sv_world st)" "sv_queue st' = sv_queue st"
    "w_closed (sv_world st') = w_closed (sv_world st) @ [fd]"
    "\<exists>frame. reply_frame J 0 (error_reply 0 ERR_CAPACITY ''Server at maximum client capacity'') = Some frame
       \<and> sv_sockets st' = (sv_sockets st)(fd := snd (sendAll frame (sv_sockets st fd)))"
proof -
  obtain frame where f: "reply_frame J 0 (error_reply 0 ERR_CAPACITY ''Server at maximum client capacity'') = Some frame"
    and st': "log_plain J WARN (''Connection rejected (ERR_CAPACITY). IP: '' @ ip @ '' | Count: '' @ dec_of_nat (unat n))
        ((sv_world st)\<lparr>w_closed := w_closed (sv_world st) @ [fd]\<rparr>) = Some (sv_world st')"
      "sv_queue st' = sv_queue st" "sv_sockets st' = (sv_sockets st)(fd := snd (sendAll frame (sv_sockets st fd)))"
    using assms
    by (auto simp: reject_client_def reply_frame_def error_reply_def buildErrorPayload_def error_number_def close_fds_def
        split: bind_splits prod.splits simp del: append.simps)
  show "w_active (sv_world st') = w_active (sv_world st)" "sv_queue st' = sv_queue st"
    "w_closed (sv_world st') = w_closed (sv_world st) @ [fd]"
    using log_plain_world [OF st'(1)] st'(2) by simp_all
  show "\<exists>frame. reply_frame J 0 (error_reply 0 ERR_CAPACITY ''Server at maximum client capacity'') = Some frame
       \<and> sv_sockets st' = (sv_sockets st)(fd := snd (sendAll frame (sv_sockets st fd)))"
    using f st'(3) by blast
qed

lemma accept_client_active:
  assumes "accept_client J config fd ip st = Some st'" "w_active (sv_world st) \<le> m_maxClients config"
  shows "w_active (sv_world st') \<le> m_maxClients config"
proof (cases "w_active (sv_world st) \<ge> m_maxClients config")
  case True
  then show ?thesis using assms reject_client_effect(1) by (fastforce simp: accept_client_def)
next
  case False
  then have "w_active (sv_world st) < m_maxClients config" by simp
  then have "w_active (sv_world st) + 1 \<le> m_maxClients config" by (rule inc_le)
  then show ?thesis
    using assms False by (auto simp: accept_client_def onAccept_def close_fds_def Let_def split: prod.splits)
qed

end
