(* ===== verification/ThreadPool.thy ===== *)
theory ThreadPool
  imports SocketAcceptor
begin

text \<open>
  \<^verbatim>\<open>src/threadPool.cpp\<close>: what a worker thread does with a queued socket (\<open>serve_socket\<close>: session
  identifiers, the welcome message, the connection) and its loop. A worker that would wait in
  \<^verbatim>\<open>dequeue\<close> stops here with \<open>False\<close>; one that leaves because the queue is stopped with \<open>True\<close>. The
  watchdog of \<^verbatim>\<open>shutdown\<close> is not modelled: it ends the process after a fixed time.
\<close>

definition SERVER_VERSION :: string where "SERVER_VERSION = ''0.1.0''"

definition getIso8601Timestamp :: "'a host_scheme \<Rightarrow> string \<times> 'a host_scheme" where
  "getIso8601Timestamp w = (let (now, w) = system_now w in (iso8601 now, w))"

definition serve_socket :: "json_lib \<Rightarrow> string option \<Rightarrow> AcceptedSocket \<Rightarrow> server \<Rightarrow> server option" where
  "serve_socket J sockopt socket st = do {
     let clientFd = as_fd socket;
     let clientIp = as_ip socket;
     let (sessionId, sm) = nextSessionId (sv_session st);
     let (msgId, sm) = nextMessageId sm;
     let st = st\<lparr>sv_session := sm\<rparr>;
     let (ts, w) = getIso8601Timestamp (sv_world st);
     payload \<leftarrow> buildWelcomePayload J
       \<lparr>wp_serverVersion = SERVER_VERSION, wp_timestamp = ts, wp_sessionId = sessionId\<rparr>;
     frame \<leftarrow> buildFrame ACK msgId payload;
     let (ok, s) = sendAll frame (sv_sockets st clientFd);
     let st = st\<lparr>sv_sockets := (sv_sockets st)(clientFd := s)\<rparr>;
     if \<not> ok then
       Some (st\<lparr>sv_world := w\<lparr>w_closed := w_closed w @ [clientFd], w_active := w_active w - 1\<rparr>\<rparr>)
     else do {
       let ctx = \<lparr>cc_nodeId = [], cc_sessionId = sessionId, cc_clientIp = clientIp\<rparr>;
       w \<leftarrow> handleConnection J sockopt clientFd ctx (w\<lparr>w_io := s\<rparr>);
       Some (st\<lparr>sv_world := w, sv_sockets := (sv_sockets st)(clientFd := w_io w)\<rparr>)
     }
   }"

text \<open>The results of \<^verbatim>\<open>setsockopt\<close> on successive connections are a list; it succeeds when the list is used up.\<close>

lemma serve_socket_queue: "serve_socket J t socket st = Some st' \<Longrightarrow> sv_queue st' = sv_queue st"
  by (auto simp: serve_socket_def Let_def split: prod.splits bind_splits if_splits)

lemma dequeue_shrinks: "dequeue q = Some (Some socket, q') \<Longrightarrow> length (m_queue q') < length (m_queue q)"
  by (auto simp: dequeue_def split: if_splits list.splits)

function workerLoop :: "json_lib \<Rightarrow> string option list \<Rightarrow> server \<Rightarrow> (bool \<times> server) option" where
  "workerLoop J timeouts st =
     (case dequeue (sv_queue st) of
        None \<Rightarrow> Some (False, st)
      | Some (None, q) \<Rightarrow> Some (True, st\<lparr>sv_queue := q\<rparr>)
      | Some (Some socket, q) \<Rightarrow>
          (case serve_socket J (case timeouts of [] \<Rightarrow> None | t # _ \<Rightarrow> t) socket (st\<lparr>sv_queue := q\<rparr>) of
             None \<Rightarrow> None
           | Some st' \<Rightarrow> workerLoop J (tl timeouts) st'))"
  by pat_completeness auto
termination
  by (relation "measure (\<lambda>(J, ts, st). length (m_queue (sv_queue st)))")
     (auto simp: dequeue_shrinks dest!: serve_socket_queue)

declare workerLoop.simps [simp del]

definition pool_shutdown :: "server \<Rightarrow> server" where
  "pool_shutdown st = (let (closed, q) = stop (sv_queue st) in close_fds closed (st\<lparr>sv_queue := q\<rparr>))"

subsection \<open>Effect of serving a socket\<close>

lemma handleConnection_teardown:
  assumes "handleConnection J sockopt fd ctx w = Some w'" "0 \<le> fd"
  shows "w_active w' = w_active w - 1 \<and> w_closed w' = w_closed w @ [fd] \<and> ot_stack w' = ot_stack w"
proof (cases sockopt)
  case None
  obtain ms rest where d: "decode_all decode_message (rx_bytes (io_rx (w_io w))) = (ms, rest)" by fastforce
  have h: "handleConnection J None fd ctx w = Some w'" using assms(1) None by simp
  show ?thesis using handleConnection_effect(2-4) [OF h assms(2) d] by simp
next
  case (Some err)
  define w0 where "w0 = snd (applyReceiveTimeout sockopt (w\<lparr>h_reads := Suc (h_reads w)\<rparr>))"
  have "w' = teardown fd (markOfflineIfKnown (cc_nodeId ctx) (interfere w0))"
    using assms Some
    by (auto simp: handleConnection_def connection_body_def steady_now_def emitDisconnection_def w0_def Let_def applyReceiveTimeout_def
        split: bind_splits simp del: append.simps)
  then show ?thesis
    using arg_cong [OF markOffline_effect(2) [of "cc_nodeId ctx" w0], of w_active]
      arg_cong [OF markOffline_effect(2) [of "cc_nodeId ctx" w0], of w_closed] assms(2)
      markOffline_effect(3) [of "cc_nodeId ctx" w0]
    by (simp add: teardown_def w0_def Some applyReceiveTimeout_def)
qed

text \<open>Every served socket is closed once and counted down once, whether or not the welcome got through.\<close>

lemma serve_socket_teardown:
  assumes "serve_socket J t socket st = Some st'" "0 \<le> as_fd socket"
  shows "w_active (sv_world st') = w_active (sv_world st) - 1
    \<and> w_closed (sv_world st') = w_closed (sv_world st) @ [as_fd socket] \<and> ot_stack (sv_world st') = ot_stack (sv_world st)"
  using assms
  by (auto simp: serve_socket_def getIso8601Timestamp_def system_now_def Let_def
      split: prod.splits bind_splits if_splits dest!: handleConnection_teardown)

end
