(* ===== verification/ServerMain.thy ===== *)
theory ServerMain
  imports ThreadPool
begin

text \<open>
  \<^verbatim>\<open>src/app/main.cpp\<close> and \<^verbatim>\<open>src/exodusBanner.cpp\<close>: the banner, the signal handlers, and the main
  thread from the start to its return. Spawning the threads is not an action of the main
  thread's own state; the outcome of the acceptor's system calls, of the metrics exposer and the
  signal that ends the wait are arguments.
\<close>

subsection \<open>Banner and signals\<close>

definition getBanner :: string where "getBanner = ''Exodus - EOP - V''"

definition printBanner :: "'a world_scheme \<Rightarrow> 'a world_scheme" where
  "printBanner w = w\<lparr>lg_stdout := lg_stdout w @ [getBanner]\<rparr>"

definition runApp :: "'a world_scheme \<Rightarrow> int \<times> 'a world_scheme" where
  "runApp w = (0, printBanner w)"

datatype signal = SIGINT | SIGTERM | SIGSEGV | SIGABRT | SIGFPE | SIGBUS | SIG_OTHER int

text \<open>The number of a signal on Linux; 0 when none was received.\<close>

fun signal_number :: "signal \<Rightarrow> int" where
  "signal_number SIGINT = 2"
| "signal_number SIGTERM = 15"
| "signal_number SIGSEGV = 11"
| "signal_number SIGABRT = 6"
| "signal_number SIGFPE = 8"
| "signal_number SIGBUS = 7"
| "signal_number (SIG_OTHER n) = n"

definition crash_reason :: "signal \<Rightarrow> string" where
  "crash_reason sig =
     (case sig of SIGSEGV \<Rightarrow> ''SIGSEGV'' | SIGABRT \<Rightarrow> ''SIGABRT'' | SIGFPE \<Rightarrow> ''SIGFPE'' | SIGBUS \<Rightarrow> ''SIGBUS''
      | _ \<Rightarrow> ''UNKNOWN_SIGNAL'')"

text \<open>The line that \<^verbatim>\<open>crashSignalHandler\<close> writes before it re-raises the signal.\<close>

definition crashSignalHandler :: "signal \<Rightarrow> 'a world_scheme \<Rightarrow> 'a world_scheme" where
  "crashSignalHandler sig w = w\<lparr>lg_stdout := lg_stdout w @
     [''{'' @ quote ''level'' @ '':'' @ quote ''ERROR'' @ '','' @ quote ''service'' @ '':'' @ quote ''eop-server'' @ '',''
      @ quote ''trace_id'' @ '':'' @ quote '''' @ '','' @ quote ''span_id'' @ '':'' @ quote '''' @ '',''
      @ quote ''event'' @ '':'' @ quote ''server_crash'' @ '','' @ quote ''crash_reason'' @ '':''
      @ quote (crash_reason sig) @ ''}'']\<rparr>"

record flags =
  g_running :: bool
  g_signal_received :: int

definition signalHandler :: "signal \<Rightarrow> flags \<Rightarrow> flags" where
  "signalHandler sig f = f\<lparr>g_signal_received := signal_number sig, g_running := False\<rparr>"

text \<open>The main event loop over the signals delivered to \<^verbatim>\<open>signalHandler\<close> (SIGINT and SIGTERM): it ends at the first.\<close>

fun wait_for_signal :: "signal list \<Rightarrow> flags \<Rightarrow> flags" where
  "wait_for_signal [] f = f"
| "wait_for_signal (s # ss) f = (if g_running f then wait_for_signal ss (signalHandler s f) else f)"

definition signal_name :: "int \<Rightarrow> string" where
  "signal_name sig = (if sig = signal_number SIGTERM then ''SIGTERM'' else if sig = signal_number SIGINT then ''SIGINT'' else ''unknown'')"

subsection \<open>The state at start-up\<close>

definition initial_server :: "(nat \<Rightarrow> int) \<Rightarrow> (nat \<Rightarrow> int) \<Rightarrow> (nat \<Rightarrow> u64) \<Rightarrow> registry_op list list \<Rightarrow> server" where
  "initial_server clock steady rng others =
     \<lparr>sv_world = \<lparr>h_system = clock, h_steady = steady, h_reads = 0, h_rng = rng, h_draws = 0,
        ot_stack = [], ot_pending = [], ot_wakeups = 0, lg_minLevel = INFO, lg_stdout = [],
        mt_calls = [], mt_exposer = None, mt_stderr = [], w_registry = [],
        w_io = \<lparr>io_rx = [], io_tx = [], io_sent = [], io_errno = E_NONE\<rparr>, w_active = 0, w_closed = [],
        w_interference = others\<rparr>,
      sv_queue = new_WorkQueue, sv_session = new_SessionManager,
      sv_sockets = (\<lambda>_. \<lparr>io_rx = [], io_tx = [], io_sent = [], io_errno = E_NONE\<rparr>)\<rparr>"

subsection \<open>Lemmas\<close>

lemma wait_for_signal_first:
  "g_running f \<Longrightarrow> wait_for_signal (s # ss) f = signalHandler s f"
  by (cases ss) (simp_all add: signalHandler_def)

end
