(* ===== verification/ServerSteps.thy ===== *)
theory ServerSteps
  imports ServerMain
begin

text \<open>
  The threads of the server interleaved: the acceptor, the workers and the shutdown of the queue,
  as a step relation whose steps are the code's atomic actions on shared state (one atomic load
  or update of \<^verbatim>\<open>activeConnections\<close>, one call on the work queue, one \<^verbatim>\<open>close\<close>). The acceptor tests the
  counter, increments it and enqueues in three separate steps, as \<^verbatim>\<open>acceptLoop\<close> and \<^verbatim>\<open>onAccept\<close>
  do; a worker takes a socket, closes it and decrements the counter in three.

  \<open>ps_accepted\<close> and \<open>ps_dropped\<close> only record history: the descriptors accepted so far, and those
  the work queue closed itself because it was or became stopped.
\<close>

datatype acceptor_pc =
  AIdle | ARejecting AcceptedSocket | AChecked AcceptedSocket | ACounted AcceptedSocket | AExited

datatype worker_pc = WIdle | WHolding AcceptedSocket | WClosed | WExited

record pool =
  ps_active :: u32
  ps_queue :: WorkQueue
  ps_acceptor :: acceptor_pc
  ps_workers :: "worker_pc list"
  ps_closed :: "int list"
  ps_accepted :: "int list"
  ps_dropped :: "int list"

definition pool_init :: "nat \<Rightarrow> pool" where
  "pool_init k = \<lparr>ps_active = 0, ps_queue = new_WorkQueue, ps_acceptor = AIdle,
     ps_workers = replicate k WIdle, ps_closed = [], ps_accepted = [], ps_dropped = []\<rparr>"

inductive pool_step :: "u32 \<Rightarrow> pool \<Rightarrow> pool \<Rightarrow> bool" for maxClients :: u32 where
  step_accept:
    "ps_acceptor p = AIdle \<Longrightarrow> \<not> ps_active p \<ge> maxClients \<Longrightarrow>
     pool_step maxClients p (p\<lparr>ps_acceptor := AChecked s, ps_accepted := ps_accepted p @ [as_fd s]\<rparr>)"
| step_full:
    "ps_acceptor p = AIdle \<Longrightarrow> ps_active p \<ge> maxClients \<Longrightarrow>
     pool_step maxClients p (p\<lparr>ps_acceptor := ARejecting s, ps_accepted := ps_accepted p @ [as_fd s]\<rparr>)"
| step_reject:
    "ps_acceptor p = ARejecting s \<Longrightarrow>
     pool_step maxClients p (p\<lparr>ps_acceptor := AIdle, ps_closed := ps_closed p @ [as_fd s]\<rparr>)"
| step_count:
    "ps_acceptor p = AChecked s \<Longrightarrow>
     pool_step maxClients p (p\<lparr>ps_acceptor := ACounted s, ps_active := ps_active p + 1\<rparr>)"
| step_enqueue:
    "ps_acceptor p = ACounted s \<Longrightarrow> enqueue s (ps_queue p) = (c, q) \<Longrightarrow>
     pool_step maxClients p (p\<lparr>ps_acceptor := AIdle, ps_queue := q, ps_closed := ps_closed p @ c,
       ps_dropped := ps_dropped p @ c\<rparr>)"
| step_exit_acceptor:
    "ps_acceptor p = AIdle \<Longrightarrow> pool_step maxClients p (p\<lparr>ps_acceptor := AExited\<rparr>)"
| step_take:
    "i < length (ps_workers p) \<Longrightarrow> ps_workers p ! i = WIdle \<Longrightarrow> dequeue (ps_queue p) = Some (Some s, q) \<Longrightarrow>
     pool_step maxClients p (p\<lparr>ps_workers := (ps_workers p)[i := WHolding s], ps_queue := q\<rparr>)"
| step_leave:
    "i < length (ps_workers p) \<Longrightarrow> ps_workers p ! i = WIdle \<Longrightarrow> dequeue (ps_queue p) = Some (None, q) \<Longrightarrow>
     pool_step maxClients p (p\<lparr>ps_workers := (ps_workers p)[i := WExited], ps_queue := q\<rparr>)"
| step_close:
    "i < length (ps_workers p) \<Longrightarrow> ps_workers p ! i = WHolding s \<Longrightarrow>
     pool_step maxClients p (p\<lparr>ps_workers := (ps_workers p)[i := WClosed], ps_closed := ps_closed p @ [as_fd s]\<rparr>)"
| step_discount:
    "i < length (ps_workers p) \<Longrightarrow> ps_workers p ! i = WClosed \<Longrightarrow>
     pool_step maxClients p (p\<lparr>ps_workers := (ps_workers p)[i := WIdle], ps_active := ps_active p - 1\<rparr>)"
| step_stop:
    "stop (ps_queue p) = (c, q) \<Longrightarrow>
     pool_step maxClients p (p\<lparr>ps_queue := q, ps_closed := ps_closed p @ c, ps_dropped := ps_dropped p @ c\<rparr>)"

inductive_cases pool_step_elim: "pool_step m p p'"

subsection \<open>Invariants of step relations\<close>

locale step_invariant =
  fixes start :: "'s \<Rightarrow> bool" and step :: "'s \<Rightarrow> 's \<Rightarrow> bool" and inv :: "'s \<Rightarrow> bool"
  assumes start_inv: "start s \<Longrightarrow> inv s"
    and step_inv: "step s s' \<Longrightarrow> inv s \<Longrightarrow> inv s'"
begin

lemma reachable_inv:
  assumes "step\<^sup>*\<^sup>* s s'" "start s"
  shows "inv s'"
  using assms by (induction rule: rtranclp_induct) (auto intro: start_inv step_inv)

end

subsection \<open>The counter and the descriptors\<close>

fun acceptor_counted :: "acceptor_pc \<Rightarrow> nat" where
  "acceptor_counted (ACounted s) = 1"
| "acceptor_counted _ = 0"

fun worker_counted :: "worker_pc \<Rightarrow> nat" where
  "worker_counted (WHolding s) = 1"
| "worker_counted WClosed = 1"
| "worker_counted _ = 0"

fun acceptor_holds :: "acceptor_pc \<Rightarrow> int multiset" where
  "acceptor_holds (ARejecting s) = {#as_fd s#}"
| "acceptor_holds (AChecked s) = {#as_fd s#}"
| "acceptor_holds (ACounted s) = {#as_fd s#}"
| "acceptor_holds _ = {#}"

fun worker_holds :: "worker_pc \<Rightarrow> int multiset" where
  "worker_holds (WHolding s) = {#as_fd s#}"
| "worker_holds _ = {#}"

definition pool_counted :: "pool \<Rightarrow> nat" where
  "pool_counted p = acceptor_counted (ps_acceptor p) + length (m_queue (ps_queue p))
     + sum_list (map worker_counted (ps_workers p)) + length (ps_dropped p)"

definition pool_held :: "pool \<Rightarrow> int multiset" where
  "pool_held p = acceptor_holds (ps_acceptor p) + mset (map as_fd (m_queue (ps_queue p)))
     + sum_list (map worker_holds (ps_workers p))"

definition pool_inv :: "u32 \<Rightarrow> pool \<Rightarrow> bool" where
  "pool_inv maxClients p \<longleftrightarrow>
     unat (ps_active p) = pool_counted p
     \<and> ps_active p \<le> maxClients
     \<and> (\<forall>s. ps_acceptor p = AChecked s \<longrightarrow> ps_active p < maxClients)
     \<and> mset (ps_accepted p) = mset (ps_closed p) + pool_held p
     \<and> wf_queue (ps_queue p) \<and> (\<not> m_stopped (ps_queue p) \<longrightarrow> ps_dropped p = [])"

lemma sum_list_update_one:
  fixes f :: "'a \<Rightarrow> 'b :: cancel_comm_monoid_add"
  shows "i < length xs \<Longrightarrow> sum_list (map f (xs[i := v])) + f (xs ! i) = sum_list (map f xs) + f v"
  by (induction xs arbitrary: i) (auto simp: ac_simps split: nat.splits)

lemma workers_set:
  assumes "i < length ws" "ws ! i = a"
  shows "sum_list (map worker_counted (ws[i := v])) + worker_counted a = sum_list (map worker_counted ws) + worker_counted v"
    "sum_list (map worker_holds (ws[i := v])) + worker_holds a = sum_list (map worker_holds ws) + worker_holds v"
  using sum_list_update_one [OF assms(1), of worker_counted v] sum_list_update_one [OF assms(1), of worker_holds v]
  by (simp_all add: assms(2))

lemma dequeue_Some: "dequeue q = Some (Some s, q') \<Longrightarrow> m_queue q = s # m_queue q' \<and> m_stopped q' = m_stopped q"
  using wq.deq_first [of q s q'] by simp

lemma mset_drain: "mset (drain ss) = mset (map as_fd ss)" and length_drain: "length (drain ss) = length ss"
  by (induction ss) simp_all

lemma unat_pred:
  fixes w :: u32
  shows "0 < unat w \<Longrightarrow> unat (w - 1) = unat w - 1"
  by (metis gr0_implies_Suc unat_eq_0 unat_minus_one zero_less_Suc less_irrefl_nat)

lemma unat_Suc_max:
  fixes w m :: u32
  shows "w < m \<Longrightarrow> unat (w + 1) = Suc (unat w)"
proof -
  assume "w < m"
  then have "unat w + 1 < 2 ^ 32"
    using unsigned_less [of m, where 'a = nat] by (simp add: word_less_nat_alt)
  then show ?thesis by (simp add: unat_word_ariths)
qed

lemma step_inv_acceptor:
  assumes inv: "pool_inv m p"
  shows "ps_acceptor p = AIdle \<Longrightarrow> \<not> ps_active p \<ge> m \<Longrightarrow>
      pool_inv m (p\<lparr>ps_acceptor := AChecked s, ps_accepted := ps_accepted p @ [as_fd s]\<rparr>)"
    "ps_acceptor p = AIdle \<Longrightarrow> ps_active p \<ge> m \<Longrightarrow>
      pool_inv m (p\<lparr>ps_acceptor := ARejecting s, ps_accepted := ps_accepted p @ [as_fd s]\<rparr>)"
    "ps_acceptor p = ARejecting s \<Longrightarrow> pool_inv m (p\<lparr>ps_acceptor := AIdle, ps_closed := ps_closed p @ [as_fd s]\<rparr>)"
    "ps_acceptor p = AChecked s \<Longrightarrow> pool_inv m (p\<lparr>ps_acceptor := ACounted s, ps_active := ps_active p + 1\<rparr>)"
    "ps_acceptor p = AIdle \<Longrightarrow> pool_inv m (p\<lparr>ps_acceptor := AExited\<rparr>)"
  using inv by (auto simp: pool_inv_def pool_counted_def pool_held_def unat_Suc_max inc_le not_le)

lemma step_inv_queue:
  assumes inv: "pool_inv m p"
  shows "ps_acceptor p = ACounted s \<Longrightarrow> enqueue s (ps_queue p) = (c, q) \<Longrightarrow>
      pool_inv m (p\<lparr>ps_acceptor := AIdle, ps_queue := q, ps_closed := ps_closed p @ c, ps_dropped := ps_dropped p @ c\<rparr>)"
    "stop (ps_queue p) = (c, q) \<Longrightarrow>
      pool_inv m (p\<lparr>ps_queue := q, ps_closed := ps_closed p @ c, ps_dropped := ps_dropped p @ c\<rparr>)"
  using inv
  by (auto simp: pool_inv_def pool_counted_def pool_held_def enqueue_def stop_def wf_queue_def mset_drain length_drain
      split: if_splits)

lemma step_inv_worker:
  assumes inv: "pool_inv m p" and i: "i < length (ps_workers p)" "ps_workers p ! i = a"
  shows "a = WIdle \<Longrightarrow> dequeue (ps_queue p) = Some (Some s, q) \<Longrightarrow>
      pool_inv m (p\<lparr>ps_workers := (ps_workers p)[i := WHolding s], ps_queue := q\<rparr>)"
    "a = WIdle \<Longrightarrow> dequeue (ps_queue p) = Some (None, q) \<Longrightarrow>
      pool_inv m (p\<lparr>ps_workers := (ps_workers p)[i := WExited], ps_queue := q\<rparr>)"
    "a = WHolding s \<Longrightarrow>
      pool_inv m (p\<lparr>ps_workers := (ps_workers p)[i := WClosed], ps_closed := ps_closed p @ [as_fd s]\<rparr>)"
    "a = WClosed \<Longrightarrow> pool_inv m (p\<lparr>ps_workers := (ps_workers p)[i := WIdle], ps_active := ps_active p - 1\<rparr>)"
proof -
  note c = workers_set(1) [OF i] and h = workers_set(2) [OF i]
  show "pool_inv m (p\<lparr>ps_workers := (ps_workers p)[i := WHolding s], ps_queue := q\<rparr>)"
    if "a = WIdle" "dequeue (ps_queue p) = Some (Some s, q)"
    using inv c [of "WHolding s"] h [of "WHolding s"] that dequeue_Some [OF that(2)] wq.invar_deq [OF _ that(2)]
    by (auto simp: pool_inv_def pool_counted_def pool_held_def)
  show "pool_inv m (p\<lparr>ps_workers := (ps_workers p)[i := WExited], ps_queue := q\<rparr>)"
    if "a = WIdle" "dequeue (ps_queue p) = Some (None, q)"
    using inv c [of WExited] h [of WExited] that wq.deq_none [OF that(2)]
    by (auto simp: pool_inv_def pool_counted_def pool_held_def)
  show "pool_inv m (p\<lparr>ps_workers := (ps_workers p)[i := WClosed], ps_closed := ps_closed p @ [as_fd s]\<rparr>)"
    if "a = WHolding s"
    using inv c [of WClosed] h [of WClosed] that by (auto simp: pool_inv_def pool_counted_def pool_held_def)
  show "pool_inv m (p\<lparr>ps_workers := (ps_workers p)[i := WIdle], ps_active := ps_active p - 1\<rparr>)" if "a = WClosed"
  proof -
    have one: "0 < unat (ps_active p)"
      using inv c [of WIdle] that by (simp add: pool_inv_def pool_counted_def)
    have "unat (ps_active p - 1) = unat (ps_active p) - 1" using one by (rule unat_pred)
    moreover from this have "ps_active p - 1 < ps_active p" using one by (simp add: word_less_nat_alt)
    ultimately show ?thesis
      using inv c [of WIdle] h [of WIdle] that
      by (auto simp: pool_inv_def pool_counted_def pool_held_def)
  qed
qed

lemma pool_step_inv:
  assumes "pool_step m p p'" "pool_inv m p"
  shows "pool_inv m p'"
  using assms(1)
  by cases (auto intro: step_inv_acceptor [OF assms(2)] step_inv_queue [OF assms(2)] step_inv_worker [OF assms(2)])

interpretation pooled: step_invariant "\<lambda>p. \<exists>k. p = pool_init k" "pool_step m" "pool_inv m" for m
proof
  fix p
  assume "\<exists>k. p = pool_init k"
  then obtain k where "p = pool_init k" by blast
  moreover have "sum_list (replicate k {#}) = ({#} :: int multiset)" by (induction k) simp_all
  ultimately show "pool_inv m p"
    by (simp add: pool_inv_def pool_init_def pool_counted_def pool_held_def new_WorkQueue_def wf_queue_def
        sum_list_replicate)
qed (rule pool_step_inv)

subsection \<open>The operations refine the steps\<close>

text \<open>
  A run of the server in which no two operations overlap: clients arrive, a worker serves the
  next queued socket, the queue is shut down.
\<close>

datatype server_op = S_accept int string | S_serve "string option" | S_shutdown

fun server_op_step :: "json_lib \<Rightarrow> ServerConfig \<Rightarrow> server_op \<Rightarrow> server \<Rightarrow> server option" where
  "server_op_step J config (S_accept fd ip) st = accept_client J config fd ip st"
| "server_op_step J config (S_serve sockopt) st =
     (case dequeue (sv_queue st) of
        Some (Some socket, q) \<Rightarrow> serve_socket J sockopt socket (st\<lparr>sv_queue := q\<rparr>)
      | _ \<Rightarrow> Some st)"
| "server_op_step J config S_shutdown st = Some (pool_shutdown st)"

fun run_server :: "json_lib \<Rightarrow> ServerConfig \<Rightarrow> server_op list \<Rightarrow> server \<Rightarrow> server option" where
  "run_server J config [] st = Some st"
| "run_server J config (x # xs) st = do { st \<leftarrow> server_op_step J config x st; run_server J config xs st }"

fun op_fds :: "server_op list \<Rightarrow> int list" where
  "op_fds (S_accept fd ip # xs) = fd # op_fds xs"
| "op_fds (_ # xs) = op_fds xs"
| "op_fds [] = []"

definition pool_sim :: "pool \<Rightarrow> server \<Rightarrow> bool" where
  "pool_sim p st \<longleftrightarrow> ps_active p = w_active (sv_world st) \<and> ps_queue p = sv_queue st \<and> ps_closed p = w_closed (sv_world st)
     \<and> ps_acceptor p = AIdle \<and> ps_workers p = [WIdle] \<and> (\<forall>s \<in> set (m_queue (sv_queue st)). 0 \<le> as_fd s)"

lemma pool_sim_accept:
  assumes "pool_sim p st" "accept_client J config fd ip st = Some st'" "0 \<le> fd"
  shows "\<exists>p'. (pool_step (m_maxClients config))\<^sup>*\<^sup>* p p' \<and> pool_sim p' st' \<and> ps_accepted p' = ps_accepted p @ [fd]"
proof (cases "w_active (sv_world st) \<ge> m_maxClients config")
  case True
  let ?s = "\<lparr>as_fd = fd, as_ip = ip\<rparr>"
  let ?p1 = "p\<lparr>ps_acceptor := ARejecting ?s, ps_accepted := ps_accepted p @ [as_fd ?s]\<rparr>"
  have "pool_step (m_maxClients config) p ?p1" using assms(1) True by (intro step_full) (simp_all add: pool_sim_def)
  moreover have "pool_step (m_maxClients config) ?p1 (?p1\<lparr>ps_acceptor := AIdle, ps_closed := ps_closed ?p1 @ [as_fd ?s]\<rparr>)"
    by (rule step_reject) simp
  moreover have "reject_client J fd ip (w_active (sv_world st)) st = Some st'"
    using assms(2) True by (simp add: accept_client_def)
  ultimately show ?thesis
    using assms(1) reject_client_effect(1-3)
    by (intro exI [of _ "?p1\<lparr>ps_acceptor := AIdle, ps_closed := ps_closed ?p1 @ [as_fd ?s]\<rparr>"])
       (auto simp: pool_sim_def)
next
  case False
  let ?s = "\<lparr>as_fd = fd, as_ip = ip\<rparr>"
  obtain c q where e: "enqueue ?s (sv_queue st) = (c, q)" by fastforce
  let ?p1 = "p\<lparr>ps_acceptor := AChecked ?s, ps_accepted := ps_accepted p @ [as_fd ?s]\<rparr>"
  let ?p2 = "?p1\<lparr>ps_acceptor := ACounted ?s, ps_active := ps_active ?p1 + 1\<rparr>"
  let ?p3 = "?p2\<lparr>ps_acceptor := AIdle, ps_queue := q, ps_closed := ps_closed ?p2 @ c, ps_dropped := ps_dropped ?p2 @ c\<rparr>"
  have "pool_step (m_maxClients config) p ?p1" using assms(1) False by (intro step_accept) (simp_all add: pool_sim_def)
  moreover have "pool_step (m_maxClients config) ?p1 ?p2" by (rule step_count) simp
  moreover have "pool_step (m_maxClients config) ?p2 ?p3"
    by (rule step_enqueue) (use assms(1) e in \<open>simp_all add: pool_sim_def\<close>)
  moreover have "\<forall>s \<in> set (m_queue q). 0 \<le> as_fd s"
    using assms(1,3) e by (auto simp: pool_sim_def enqueue_def split: if_splits)
  ultimately show ?thesis
    using assms(1,2) False e
    by (intro exI [of _ ?p3])
       (auto simp: pool_sim_def accept_client_def onAccept_def close_fds_def Let_def)
qed

lemma pool_sim_serve:
  assumes "pool_sim p st" "server_op_step J config (S_serve t) st = Some st'"
  shows "\<exists>p'. (pool_step m)\<^sup>*\<^sup>* p p' \<and> pool_sim p' st' \<and> ps_accepted p' = ps_accepted p"
proof (cases "\<exists>s q. dequeue (sv_queue st) = Some (Some s, q)")
  case True
  then obtain s q where d: "dequeue (sv_queue st) = Some (Some s, q)" by blast
  note dq = dequeue_Some [OF d]
  have fd: "0 \<le> as_fd s" "\<forall>s \<in> set (m_queue q). 0 \<le> as_fd s" using assms(1) dq by (auto simp: pool_sim_def)
  let ?p1 = "p\<lparr>ps_workers := (ps_workers p)[0 := WHolding s], ps_queue := q\<rparr>"
  let ?p2 = "?p1\<lparr>ps_workers := (ps_workers ?p1)[0 := WClosed], ps_closed := ps_closed ?p1 @ [as_fd s]\<rparr>"
  let ?p3 = "?p2\<lparr>ps_workers := (ps_workers ?p2)[0 := WIdle], ps_active := ps_active ?p2 - 1\<rparr>"
  have "pool_step m p ?p1" using assms(1) d by (intro step_take) (simp_all add: pool_sim_def)
  moreover have "pool_step m ?p1 ?p2" using assms(1) by (intro step_close) (simp_all add: pool_sim_def)
  moreover have "pool_step m ?p2 ?p3" using assms(1) by (intro step_discount) (simp_all add: pool_sim_def)
  moreover have s: "serve_socket J t s (st\<lparr>sv_queue := q\<rparr>) = Some st'" using assms(2) d by simp
  ultimately show ?thesis
    using assms(1) fd serve_socket_teardown [OF s fd(1)] serve_socket_queue [OF s]
    by (intro exI [of _ ?p3]) (auto simp: pool_sim_def)
next
  case False
  then have "st' = st" using assms(2) by (auto split: option.splits prod.splits)
  then show ?thesis using assms(1) by auto
qed

lemma pool_sim_shutdown:
  assumes "pool_sim p st"
  shows "\<exists>p'. (pool_step m)\<^sup>*\<^sup>* p p' \<and> pool_sim p' (pool_shutdown st) \<and> ps_accepted p' = ps_accepted p"
proof -
  obtain c q where e: "stop (sv_queue st) = (c, q)" by fastforce
  let ?p1 = "p\<lparr>ps_queue := q, ps_closed := ps_closed p @ c, ps_dropped := ps_dropped p @ c\<rparr>"
  have "pool_step m p ?p1" using assms e by (intro step_stop) (simp add: pool_sim_def)
  moreover have "\<forall>s \<in> set (m_queue q). 0 \<le> as_fd s"
    using assms e by (auto simp: pool_sim_def stop_def split: if_splits)
  ultimately show ?thesis
    using assms e by (intro exI [of _ ?p1]) (auto simp: pool_sim_def pool_shutdown_def close_fds_def)
qed

lemma run_server_sim:
  assumes "pool_sim p st" "run_server J config xs st = Some st'" "list_all (\<lambda>fd. 0 \<le> fd) (op_fds xs)"
  shows "\<exists>p'. (pool_step (m_maxClients config))\<^sup>*\<^sup>* p p' \<and> pool_sim p' st' \<and> ps_accepted p' = ps_accepted p @ op_fds xs"
  using assms
proof (induction xs arbitrary: p st)
  case (Cons x xs)
  obtain st1 where s: "server_op_step J config x st = Some st1" "run_server J config xs st1 = Some st'"
    using Cons.prems(2) by (auto split: bind_splits)
  have "\<exists>p1. (pool_step (m_maxClients config))\<^sup>*\<^sup>* p p1 \<and> pool_sim p1 st1 \<and> ps_accepted p1 @ op_fds xs = ps_accepted p @ op_fds (x # xs)"
  proof (cases x)
    case (S_accept fd ip)
    then show ?thesis using pool_sim_accept [OF Cons.prems(1), of J config fd ip st1] s(1) Cons.prems(3) by auto
  next
    case (S_serve t)
    then show ?thesis using pool_sim_serve [OF Cons.prems(1)] s(1) by fastforce
  next
    case S_shutdown
    then show ?thesis using pool_sim_shutdown [OF Cons.prems(1)] s(1) by fastforce
  qed
  then obtain p1 where p1: "(pool_step (m_maxClients config))\<^sup>*\<^sup>* p p1" "pool_sim p1 st1"
    "ps_accepted p1 @ op_fds xs = ps_accepted p @ op_fds (x # xs)" by blast
  have "list_all (\<lambda>fd. 0 \<le> fd) (op_fds xs)" using Cons.prems(3) by (cases x) simp_all
  then show ?case using Cons.IH [OF p1(2) s(2)] p1 by (metis rtranclp_trans)
qed auto

section \<open>Properties\<close>

text \<open>A state in which no thread is in the middle of something and no socket waits.\<close>

definition quiescent :: "pool \<Rightarrow> bool" where
  "quiescent p \<longleftrightarrow> ps_acceptor p \<in> {AIdle, AExited} \<and> m_queue (ps_queue p) = []
     \<and> list_all (\<lambda>a. a \<in> {WIdle, WExited}) (ps_workers p)"

lemma quiescent_workers:
  "list_all (\<lambda>a. a \<in> {WIdle, WExited}) ws \<Longrightarrow> sum_list (map worker_counted ws) = 0 \<and> sum_list (map worker_holds ws) = {#}"
  by (induction ws) auto

lemma quiescent_holds:
  assumes "quiescent p"
  shows "pool_counted p = length (ps_dropped p)" "pool_held p = {#}"
  using assms quiescent_workers [of "ps_workers p"] by (auto simp: quiescent_def pool_counted_def pool_held_def)

lemma reachable_pool_inv: "(pool_step m)\<^sup>*\<^sup>* (pool_init k) p \<Longrightarrow> pool_inv m p"
  using pooled.reachable_inv by blast

text \<open>One client is accepted, counted and queued; then the queue is stopped.\<close>

definition stopped_pool :: pool where
  "stopped_pool = \<lparr>ps_active = 1, ps_queue = \<lparr>m_queue = [], m_stopped = True\<rparr>, ps_acceptor = AIdle,
     ps_workers = [WIdle], ps_closed = [4], ps_accepted = [4], ps_dropped = [4]\<rparr>"

lemma stopped_pool_reachable: "(pool_step 2)\<^sup>*\<^sup>* (pool_init 1) stopped_pool"
proof -
  let ?s = "\<lparr>as_fd = 4, as_ip = ''10.0.0.1''\<rparr>"
  let ?p0 = "pool_init 1"
  let ?p1 = "?p0\<lparr>ps_acceptor := AChecked ?s, ps_accepted := ps_accepted ?p0 @ [as_fd ?s]\<rparr>"
  let ?p2 = "?p1\<lparr>ps_acceptor := ACounted ?s, ps_active := ps_active ?p1 + 1\<rparr>"
  let ?q3 = "\<lparr>m_queue = [?s], m_stopped = False\<rparr>"
  let ?p3 = "?p2\<lparr>ps_acceptor := AIdle, ps_queue := ?q3, ps_closed := ps_closed ?p2 @ [], ps_dropped := ps_dropped ?p2 @ []\<rparr>"
  let ?q4 = "\<lparr>m_queue = [], m_stopped = True\<rparr>"
  let ?p4 = "?p3\<lparr>ps_queue := ?q4, ps_closed := ps_closed ?p3 @ [4], ps_dropped := ps_dropped ?p3 @ [4]\<rparr>"
  have s1: "pool_step 2 ?p0 ?p1" by (rule step_accept) (simp_all add: pool_init_def)
  have s2: "pool_step 2 ?p1 ?p2" by (rule step_count) simp
  have s3: "pool_step 2 ?p2 ?p3" by (rule step_enqueue) (simp_all add: pool_init_def new_WorkQueue_def enqueue_def)
  have s4: "pool_step 2 ?p3 ?p4" by (rule step_stop) (simp add: stop_def)
  note more = rtranclp.rtrancl_into_rtrancl [where r = "pool_step 2"]
  have "(pool_step 2)\<^sup>*\<^sup>* ?p0 ?p4" by (rule more, rule more, rule more, rule more, rule rtranclp.rtrancl_refl) (fact s1 s2 s3 s4)+
  then show ?thesis by (simp add: pool_init_def stopped_pool_def)
qed

text \<open>
  C14. However the acceptor, the workers and a shutdown interleave, the number of active
  connections never exceeds the configured maximum, and never wraps around: it counts the
  connection being handed over, the queued ones, those that a worker serves and those the queue
  dropped.
\<close>

theorem active_connections_bounded:
  assumes "(pool_step maxClients)\<^sup>*\<^sup>* (pool_init k) p"
  shows "ps_active p \<le> maxClients \<and> unat (ps_active p) =
    acceptor_counted (ps_acceptor p) + length (m_queue (ps_queue p)) + sum_list (map worker_counted (ps_workers p))
    + length (ps_dropped p)"
  using reachable_pool_inv [OF assms] by (simp add: pool_inv_def pool_counted_def)

lemma active_connections_bounded_witness:
  "ps_active stopped_pool \<le> 2 \<and> unat (ps_active stopped_pool) = length (ps_dropped stopped_pool) \<and> ps_dropped stopped_pool = [4]"
  using active_connections_bounded [OF stopped_pool_reachable] by (simp add: stopped_pool_def)

text \<open>
  C16. No descriptor is lost or closed twice: at every moment each accepted descriptor has either
  been closed, or is held by exactly one of the acceptor, the queue and the workers. When the
  server is quiescent, every accepted descriptor has been closed exactly once.
\<close>

theorem descriptors_conserved:
  assumes "(pool_step maxClients)\<^sup>*\<^sup>* (pool_init k) p"
  shows "mset (ps_accepted p) = mset (ps_closed p) + pool_held p
    \<and> (quiescent p \<longrightarrow> mset (ps_accepted p) = mset (ps_closed p))"
  using reachable_pool_inv [OF assms] quiescent_holds(2) by (simp add: pool_inv_def)

lemma descriptors_conserved_witness:
  "quiescent stopped_pool \<and> mset (ps_accepted stopped_pool) = mset (ps_closed stopped_pool)"
  using descriptors_conserved [OF stopped_pool_reachable] by (simp add: quiescent_def stopped_pool_def)

text \<open>
  The counter leaks. When the server is quiescent, the number of active connections is
  the number of sockets that the work queue closed itself: it is zero only if nothing was
  queued when the queue was stopped and nothing arrived afterwards.
\<close>

theorem quiescent_counter:
  assumes "(pool_step maxClients)\<^sup>*\<^sup>* (pool_init k) p" "quiescent p"
  shows "unat (ps_active p) = length (ps_dropped p)"
  using reachable_pool_inv [OF assms(1)] quiescent_holds(1) [OF assms(2)] by (simp add: pool_inv_def)

lemma quiescent_counter_witness: "quiescent stopped_pool \<and> unat (ps_active stopped_pool) = 1"
  using quiescent_counter [OF stopped_pool_reachable] by (simp add: quiescent_def stopped_pool_def)

text \<open>
  C17. The operations of the code refine the step relation. Any sequence of accepted clients, served
  sockets and shutdowns that the code executes from the initial state is matched by steps of the
  interleaving model to a state with the same counter, queue and closed descriptors; so the code
  keeps the maximum, and every accepted descriptor is closed or still queued.
\<close>

theorem server_refines_steps:
  assumes "run_server J config ops (initial_server clock steady rng others) = Some st" "list_all (\<lambda>fd. 0 \<le> fd) (op_fds ops)"
  shows "\<exists>p. (pool_step (m_maxClients config))\<^sup>*\<^sup>* (pool_init 1) p \<and> pool_sim p st
    \<and> w_active (sv_world st) \<le> m_maxClients config
    \<and> mset (op_fds ops) = mset (w_closed (sv_world st)) + mset (map as_fd (m_queue (sv_queue st)))"
proof -
  have "pool_sim (pool_init 1) (initial_server clock steady rng others)"
    by (simp add: pool_sim_def pool_init_def initial_server_def new_WorkQueue_def)
  then obtain p where p: "(pool_step (m_maxClients config))\<^sup>*\<^sup>* (pool_init 1) p" "pool_sim p st" "ps_accepted p = op_fds ops"
    using run_server_sim [OF _ assms, of "pool_init 1"] by (auto simp: pool_init_def)
  have "pool_inv (m_maxClients config) p" using p(1) by (rule reachable_pool_inv)
  then show ?thesis using p by (auto simp: pool_inv_def pool_sim_def pool_held_def)
qed

lemma server_refines_steps_witness:
  "\<exists>st. run_server (sample_lib [] JNull) (fst (fromEnv (\<lambda>_. None))) [S_accept 4 ''10.0.0.1'', S_shutdown]
       (initial_server (\<lambda>_. 0) (\<lambda>_. 0) (\<lambda>_. 0) []) = Some st
    \<and> {#4#} = mset (w_closed (sv_world st)) + mset (map as_fd (m_queue (sv_queue st)))"
proof -
  let ?st = "pool_shutdown (onAccept 4 ''10.0.0.1'' (initial_server (\<lambda>_. 0) (\<lambda>_. 0) (\<lambda>_. 0) []))"
  have "m_maxClients (fst (fromEnv (\<lambda>_. None))) = 10000"
    by (simp add: fromEnv_def parseEnv_def parseMetricsPort_def readUnsignedLong_def range_of_def DEFAULT_MAX_CLIENTS_def)
  then have "run_server (sample_lib [] JNull) (fst (fromEnv (\<lambda>_. None))) [S_accept 4 ''10.0.0.1'', S_shutdown]
       (initial_server (\<lambda>_. 0) (\<lambda>_. 0) (\<lambda>_. 0) []) = Some ?st"
    by (simp add: accept_client_def initial_server_def)
  then show ?thesis using server_refines_steps [of "sample_lib [] JNull" "fst (fromEnv (\<lambda>_. None))" "[S_accept 4 ''10.0.0.1'', S_shutdown]"] by fastforce
qed

end
