(* ===== verification/Lifecycle.thy ===== *)
theory Lifecycle
  imports ServerSteps HeartbeatMonitor
begin

text \<open>
  Construction and destruction of the parts that own threads and descriptors: the guard of the
  listening socket and the acceptor (\<^verbatim>\<open>include/socketAcceptor.hpp\<close>, \<^verbatim>\<open>src/socketAcceptor.cpp\<close>), the thread pool
  (\<^verbatim>\<open>src/threadPool.cpp\<close>) and the heartbeat monitor (\<^verbatim>\<open>src/heartbeatMonitor.cpp\<close>). A \<^verbatim>\<open>std::thread\<close> object is
  joinable or not; assigning a new thread to a joinable one ends the process (\<^term>\<open>None\<close>). What
  the threads do is in the theories of their components; a join waits for it.
\<close>

subsection \<open>Threads\<close>

datatype std_thread = NoThread | Running

definition joinable :: "std_thread \<Rightarrow> bool" where
  "joinable t \<longleftrightarrow> t = Running"

definition thread_assign :: "std_thread \<Rightarrow> std_thread option" where
  "thread_assign t = (if joinable t then None else Some Running)"

subsection \<open>The guard of a descriptor\<close>

text \<open>Operations return the descriptors they close.\<close>

record FdGuard =
  fg_fd :: int

definition FdGuard_empty :: FdGuard where "FdGuard_empty = \<lparr>fg_fd = - 1\<rparr>"
definition FdGuard_of :: "int \<Rightarrow> FdGuard" where "FdGuard_of fd = \<lparr>fg_fd = fd\<rparr>"
definition FdGuard_isValid :: "FdGuard \<Rightarrow> bool" where "FdGuard_isValid g \<longleftrightarrow> fg_fd g \<ge> 0"

definition FdGuard_reset :: "FdGuard \<Rightarrow> int list \<times> FdGuard" where
  "FdGuard_reset g = (if fg_fd g \<ge> 0 then ([fg_fd g], g\<lparr>fg_fd := - 1\<rparr>) else ([], g))"

text \<open>The move constructor: the new guard and what is left of the old one.\<close>

definition FdGuard_move :: "FdGuard \<Rightarrow> FdGuard \<times> FdGuard" where
  "FdGuard_move other = (\<lparr>fg_fd = fg_fd other\<rparr>, other\<lparr>fg_fd := - 1\<rparr>)"

text \<open>The move assignment; \<open>same\<close> tells whether both are one object.\<close>

definition FdGuard_assign :: "bool \<Rightarrow> FdGuard \<Rightarrow> FdGuard \<Rightarrow> int list \<times> FdGuard \<times> FdGuard" where
  "FdGuard_assign same this other =
     (if same then ([], this, other)
      else let (closed, this) = FdGuard_reset this
           in (closed, this\<lparr>fg_fd := fg_fd other\<rparr>, other\<lparr>fg_fd := - 1\<rparr>))"

subsection \<open>The acceptor\<close>

text \<open>\<open>ac_trace\<close> records what the acceptor asks of the kernel and of its thread, in order.\<close>

datatype acceptor_act = Act_spawn | Act_shutdown int | Act_join | Act_close int

record acceptor =
  ac_listenFd :: FdGuard
  ac_thread :: std_thread
  ac_stopFlag :: bool
  ac_trace :: "acceptor_act list"

definition new_acceptor :: acceptor where
  "new_acceptor = \<lparr>ac_listenFd = FdGuard_empty, ac_thread = NoThread, ac_stopFlag = False, ac_trace = []\<rparr>"

definition ac_do :: "acceptor_act list \<Rightarrow> acceptor \<Rightarrow> acceptor" where
  "ac_do acts a = a\<lparr>ac_trace := ac_trace a @ acts\<rparr>"

text \<open>\<open>m_listenFd = FdGuard(rawFd)\<close>, with the destructor of the temporary.\<close>

definition take_listener :: "int \<Rightarrow> acceptor \<Rightarrow> acceptor" where
  "take_listener rawFd a =
     (let (closed, g, tmp) = FdGuard_assign False (ac_listenFd a) (FdGuard_of rawFd)
      in ac_do (map Act_close (closed @ fst (FdGuard_reset tmp))) (a\<lparr>ac_listenFd := g\<rparr>))"

definition SocketAcceptor_start ::
  "json_lib \<Rightarrow> (errno \<Rightarrow> string) \<Rightarrow> u16 \<Rightarrow> int \<Rightarrow> start_outcome \<Rightarrow> acceptor \<Rightarrow> 'a world_scheme
     \<Rightarrow> (bool \<times> acceptor \<times> 'a world_scheme) option" where
  "SocketAcceptor_start J errmsg port rawFd outcome a w = do {
     let a = (case outcome of SocketFails _ \<Rightarrow> a | _ \<Rightarrow> take_listener rawFd a);
     (ok, w) \<leftarrow> acceptor_start J errmsg port outcome w;
     if \<not> ok then Some (False, a, w)
     else do {
       t \<leftarrow> thread_assign (ac_thread a);
       Some (True, ac_do [Act_spawn] (a\<lparr>ac_stopFlag := False, ac_thread := t\<rparr>), w)
     }
   }"

definition SocketAcceptor_stop :: "acceptor \<Rightarrow> acceptor" where
  "SocketAcceptor_stop a =
     (let a = a\<lparr>ac_stopFlag := True\<rparr>;
          a = (if FdGuard_isValid (ac_listenFd a) then ac_do [Act_shutdown (fg_fd (ac_listenFd a))] a else a);
          a = (if joinable (ac_thread a) then ac_do [Act_join] (a\<lparr>ac_thread := NoThread\<rparr>) else a);
          (closed, g) = FdGuard_reset (ac_listenFd a)
      in ac_do (map Act_close closed) (a\<lparr>ac_listenFd := g\<rparr>))"

text \<open>
  The destructors. The members of the acceptor go in reverse order: the thread, whose destructor
  ends the process (\<open>None\<close>) when it is still joinable, then the descriptor.
\<close>

definition FdGuard_destroy :: "FdGuard \<Rightarrow> int list" where
  "FdGuard_destroy g = fst (FdGuard_reset g)"

definition SocketAcceptor_destroy :: "acceptor \<Rightarrow> acceptor option" where
  "SocketAcceptor_destroy a =
     (let a = SocketAcceptor_stop a
      in if joinable (ac_thread a) then None
         else Some (ac_do (map Act_close (FdGuard_destroy (ac_listenFd a))) a))"

text \<open>The life of an acceptor: calls of \<^verbatim>\<open>start\<close> and \<^verbatim>\<open>stop\<close> in any order.\<close>

datatype acceptor_call = Call_start int start_outcome | Call_stop

fun acceptor_run ::
  "json_lib \<Rightarrow> (errno \<Rightarrow> string) \<Rightarrow> u16 \<Rightarrow> acceptor_call list \<Rightarrow> acceptor \<Rightarrow> 'a world_scheme \<Rightarrow> (acceptor \<times> 'a world_scheme) option" where
  "acceptor_run J errmsg port [] a w = Some (a, w)"
| "acceptor_run J errmsg port (Call_start fd outcome # cs) a w =
     (case SocketAcceptor_start J errmsg port fd outcome a w of
        None \<Rightarrow> None | Some (ok, a, w) \<Rightarrow> acceptor_run J errmsg port cs a w)"
| "acceptor_run J errmsg port (Call_stop # cs) a w = acceptor_run J errmsg port cs (SocketAcceptor_stop a) w"

text \<open>The listening sockets that a call opens, the ones closed in a trace, and the one still held.\<close>

fun opens :: "acceptor_call \<Rightarrow> int list" where
  "opens (Call_start fd (SocketFails e)) = []"
| "opens (Call_start fd outcome) = [fd]"
| "opens Call_stop = []"

fun closes :: "acceptor_act list \<Rightarrow> int list" where
  "closes [] = []"
| "closes (Act_close fd # as) = fd # closes as"
| "closes (_ # as) = closes as"

definition held_listener :: "acceptor \<Rightarrow> int list" where
  "held_listener a = (if FdGuard_isValid (ac_listenFd a) then [fg_fd (ac_listenFd a)] else [])"

text \<open>Threads created and not joined.\<close>

definition threads :: "acceptor \<Rightarrow> int" where
  "threads a = int (count_list (ac_trace a) Act_spawn) - int (count_list (ac_trace a) Act_join)"

definition thread_held :: "acceptor \<Rightarrow> bool" where
  "thread_held a \<longleftrightarrow> threads a = (if joinable (ac_thread a) then 1 else 0)"

lemma closes_append [simp]: "closes (as @ bs) = closes as @ closes bs"
  by (induction as rule: closes.induct) auto

lemmas guard_defs = FdGuard_assign_def FdGuard_reset_def FdGuard_isValid_def FdGuard_of_def FdGuard_empty_def

lemma ac_do_simps [simp]:
  "ac_listenFd (ac_do as a) = ac_listenFd a" "ac_thread (ac_do as a) = ac_thread a" "ac_trace (ac_do as a) = ac_trace a @ as"
  by (simp_all add: ac_do_def)

lemma threads_do [simp]:
  "threads (ac_do as a) = threads a + int (count_list as Act_spawn) - int (count_list as Act_join)"
  by (simp add: threads_def)

lemma threads_upd [simp]:
  "threads (a\<lparr>ac_listenFd := g\<rparr>) = threads a" "threads (a\<lparr>ac_thread := t\<rparr>) = threads a" "threads (a\<lparr>ac_stopFlag := b\<rparr>) = threads a"
  by (simp_all add: threads_def)

lemma take_listener_held:
  "0 \<le> fd \<Longrightarrow> closes (ac_trace (take_listener fd a)) @ held_listener (take_listener fd a) = closes (ac_trace a) @ held_listener a @ [fd]"
  "thread_held (take_listener fd a) = thread_held a"
  by (simp_all add: take_listener_def held_listener_def thread_held_def guard_defs)

lemma not_running: "t \<noteq> Running \<longleftrightarrow> t = NoThread"
  by (cases t) simp_all

lemma stop_held:
  "closes (ac_trace (SocketAcceptor_stop a)) = closes (ac_trace a) @ held_listener a" "held_listener (SocketAcceptor_stop a) = []"
  "ac_thread (SocketAcceptor_stop a) = NoThread" "thread_held a \<Longrightarrow> thread_held (SocketAcceptor_stop a)"
  by (auto simp: not_running SocketAcceptor_stop_def held_listener_def thread_held_def joinable_def guard_defs Let_def)

lemma SocketAcceptor_destroy_stop: "SocketAcceptor_destroy a = Some (SocketAcceptor_stop a)"
proof -
  have "FdGuard_destroy (ac_listenFd (SocketAcceptor_stop a)) = []"
    by (simp add: FdGuard_destroy_def SocketAcceptor_stop_def guard_defs Let_def)
  then show ?thesis by (simp add: SocketAcceptor_destroy_def stop_held(3) joinable_def ac_do_def)
qed

lemma start_held:
  assumes "SocketAcceptor_start J errmsg port fd outcome a w = Some (ok, a', w')" "\<forall>x \<in> set (opens (Call_start fd outcome)). 0 \<le> x"
  shows "closes (ac_trace a') @ held_listener a' = closes (ac_trace a) @ held_listener a @ opens (Call_start fd outcome)"
    "thread_held a \<Longrightarrow> thread_held a'"
proof -
  define a1 where "a1 = (case outcome of SocketFails _ \<Rightarrow> a | _ \<Rightarrow> take_listener fd a)"
  have k: "closes (ac_trace a1) @ held_listener a1 = closes (ac_trace a) @ held_listener a @ opens (Call_start fd outcome)"
    "thread_held a1 = thread_held a"
    using assms(2) by (simp_all add: a1_def take_listener_held split: start_outcome.splits)
  have "a' = a1 \<or> ac_thread a1 = NoThread \<and> a' = ac_do [Act_spawn] (a1\<lparr>ac_stopFlag := False, ac_thread := Running\<rparr>)"
    using assms(1) by (cases "ac_thread a1") (auto simp: SocketAcceptor_start_def Let_def thread_assign_def joinable_def
      simp flip: a1_def split: bind_splits if_splits)
  then show "closes (ac_trace a') @ held_listener a' = closes (ac_trace a) @ held_listener a @ opens (Call_start fd outcome)"
    "thread_held a \<Longrightarrow> thread_held a'"
    using k by (auto simp: held_listener_def thread_held_def joinable_def)
qed

lemma acceptor_run_held:
  assumes "acceptor_run J errmsg port cs a w = Some (a', w')" "\<forall>x \<in> set (concat (map opens cs)). 0 \<le> x"
  shows "closes (ac_trace a') @ held_listener a' = closes (ac_trace a) @ held_listener a @ concat (map opens cs)
    \<and> (thread_held a \<longrightarrow> thread_held a')"
  using assms
proof (induction cs arbitrary: a w)
  case (Cons c cs)
  show ?case
  proof (cases c)
    case (Call_start fd outcome)
    then obtain ok a1 w1 where s: "SocketAcceptor_start J errmsg port fd outcome a w = Some (ok, a1, w1)"
        "acceptor_run J errmsg port cs a1 w1 = Some (a', w')" using Cons.prems(1) by (auto split: option.splits)
    have "\<forall>x \<in> set (opens (Call_start fd outcome)). 0 \<le> x" "\<forall>x \<in> set (concat (map opens cs)). 0 \<le> x"
      using Cons.prems(2) Call_start by auto
    then show ?thesis using Cons.IH [OF s(2)] start_held [OF s(1)] Call_start by simp
  next
    case Call_stop
    then show ?thesis using Cons by (simp add: stop_held)
  qed
qed simp

section \<open>Thread pool\<close>

text \<open>\<open>tp_spawned\<close> and \<open>tp_joined\<close> count the threads created and joined.\<close>

record thread_pool =
  tp_workers :: "std_thread list"
  tp_shutdown :: bool
  tp_spawned :: nat
  tp_joined :: nat

definition GRACEFUL_SHUTDOWN_TIMEOUT_SECS :: nat where "GRACEFUL_SHUTDOWN_TIMEOUT_SECS = 15"

text \<open>
  The loop of the constructor over the remaining workers. \<open>spawn i\<close> is the text of the
  \<^verbatim>\<open>std::system_error\<close> that creating thread \<open>i\<close> throws, if it does.
\<close>

fun spawn_workers :: "(nat \<Rightarrow> string option) \<Rightarrow> nat \<Rightarrow> nat \<Rightarrow> std_thread list \<Rightarrow> (nat \<times> string \<times> std_thread list) + std_thread list" where
  "spawn_workers spawn i 0 ws = Inr ws"
| "spawn_workers spawn i (Suc k) ws =
     (case spawn i of
        None \<Rightarrow> spawn_workers spawn (Suc i) k (ws @ [Running])
      | Some what \<Rightarrow> Inl (i, what, ws))"

definition join_all :: "std_thread list \<Rightarrow> nat \<times> std_thread list" where
  "join_all ws = (length (filter joinable ws), map (\<lambda>t. if joinable t then NoThread else t) ws)"

definition spawn_failure :: "nat \<Rightarrow> string \<Rightarrow> server \<Rightarrow> server" where
  "spawn_failure i what st = st\<lparr>sv_world := (sv_world st)\<lparr>mt_stderr := mt_stderr (sv_world st) @
     [''[ERROR] threadPool: failed to spawn worker thread '' @ dec_of_nat i @ '': '' @ what]\<rparr>\<rparr>"

text \<open>The constructor: \<^term>\<open>Inl\<close> is the exception, with what is left of the pool.\<close>

definition ThreadPool_new ::
  "ServerConfig \<Rightarrow> (nat \<Rightarrow> string option) \<Rightarrow> server \<Rightarrow> (thread_pool \<times> server) + (thread_pool \<times> server)" where
  "ThreadPool_new config spawn st =
     (case spawn_workers spawn 0 (unat (m_threadPoolSize config)) [] of
        Inr ws \<Rightarrow> Inr (\<lparr>tp_workers = ws, tp_shutdown = False, tp_spawned = length ws, tp_joined = 0\<rparr>, st)
      | Inl (i, what, ws) \<Rightarrow>
          (let st = pool_shutdown (spawn_failure i what st);
               (joined, ws') = join_all ws
           in Inl (\<lparr>tp_workers = ws', tp_shutdown = False, tp_spawned = length ws, tp_joined = joined\<rparr>, st)))"

definition workerCount :: "ServerConfig \<Rightarrow> u32" where
  "workerCount config = m_threadPoolSize config"

text \<open>
  \<open>secs i\<close> is the number of seconds after which worker \<open>i\<close> leaves its loop, if it does. The
  watchdog ends the process with status 0 (first component) if one of them takes too long.
\<close>

definition in_time :: "(nat \<Rightarrow> nat option) \<Rightarrow> nat \<Rightarrow> bool" where
  "in_time secs k \<longleftrightarrow> list_all (\<lambda>i. case secs i of None \<Rightarrow> False | Some s \<Rightarrow> s < GRACEFUL_SHUTDOWN_TIMEOUT_SECS) [0..<k]"

definition ThreadPool_shutdown :: "(nat \<Rightarrow> nat option) \<Rightarrow> thread_pool \<Rightarrow> server \<Rightarrow> int option \<times> thread_pool \<times> server" where
  "ThreadPool_shutdown secs tp st =
     (if tp_shutdown tp then (None, tp, st)
      else
        let tp = tp\<lparr>tp_shutdown := True\<rparr>; st = pool_shutdown st in
        if \<not> in_time secs (length (tp_workers tp)) then (Some 0, tp, st)
        else let (joined, ws) = join_all (tp_workers tp)
             in (None, tp\<lparr>tp_workers := [], tp_joined := tp_joined tp + joined\<rparr>, st))"

text \<open>
  The destructor: \<^verbatim>\<open>shutdown\<close>, unless that ends the process, and then the vector of threads, which must not hold a
  joinable one.
\<close>

definition ThreadPool_destroy :: "(nat \<Rightarrow> nat option) \<Rightarrow> thread_pool \<Rightarrow> server \<Rightarrow> (int option \<times> thread_pool \<times> server) option" where
  "ThreadPool_destroy secs tp st =
     (let (forced, tp, st) = ThreadPool_shutdown secs tp st
      in if forced = None \<and> list_ex joinable (tp_workers tp) then None else Some (forced, tp, st))"

section \<open>Heartbeat monitor\<close>

record monitor =
  hm_stop :: bool
  hm_thread :: std_thread
  hm_intervalSecs :: u32

definition HeartbeatMonitor_new :: "ServerConfig \<Rightarrow> monitor" where
  "HeartbeatMonitor_new config = \<lparr>hm_stop = False, hm_thread = NoThread, hm_intervalSecs = m_heartbeatIntervalSecs config\<rparr>"

definition HeartbeatMonitor_start :: "monitor \<Rightarrow> monitor option" where
  "HeartbeatMonitor_start m = do { t \<leftarrow> thread_assign (hm_thread m); Some (m\<lparr>hm_thread := t\<rparr>) }"

text \<open>
  \<^verbatim>\<open>stop\<close>, with the work of the thread it joins: up to the moment the flag is set the loop has read
  it \<open>reads\<close> times and seen its old value, then it sees the new one.
\<close>

definition HeartbeatMonitor_stop :: "json_lib \<Rightarrow> nat \<Rightarrow> monitor \<Rightarrow> 'a world_scheme \<Rightarrow> (monitor \<times> 'a world_scheme) option" where
  "HeartbeatMonitor_stop J reads m w =
     (if joinable (hm_thread m) then do {
        w \<leftarrow> monitor_run J (hm_intervalSecs m) (replicate reads (hm_stop m) @ [True]) w;
        Some (m\<lparr>hm_stop := True, hm_thread := NoThread\<rparr>, w)
      } else Some (m\<lparr>hm_stop := True\<rparr>, w))"

definition HeartbeatMonitor_destroy :: "json_lib \<Rightarrow> nat \<Rightarrow> monitor \<Rightarrow> 'a world_scheme \<Rightarrow> 'a world_scheme option" where
  "HeartbeatMonitor_destroy J reads m w = do {
     (m, w) \<leftarrow> HeartbeatMonitor_stop J reads m w;
     if joinable (hm_thread m) then None else Some w
   }"

lemma monitor_run_ticks:
  "monitor_run J i (replicate n False @ [True]) w = ((\<lambda>w. Option.bind w (tick J i)) ^^ n) (Some w)"
proof (induction n arbitrary: w)
  case (Suc n)
  have none: "((\<lambda>w. Option.bind w (tick J i)) ^^ n) None = None" by (induction n) simp_all
  show ?case by (cases "tick J i w") (simp_all add: Suc none funpow_Suc_right del: funpow.simps)
qed simp

lemma monitor_restart_idle:
  "hm_stop m \<Longrightarrow> HeartbeatMonitor_stop J reads m w = Some (m\<lparr>hm_thread := NoThread\<rparr>, w)"
  by (cases "hm_thread m"; cases reads) (simp_all add: HeartbeatMonitor_stop_def joinable_def)

lemma HeartbeatMonitor_destroy_stop: "HeartbeatMonitor_destroy J reads m w = map_option snd (HeartbeatMonitor_stop J reads m w)"
proof -
  have "\<not> joinable (hm_thread m')" if "HeartbeatMonitor_stop J reads m w = Some (m', w')" for m' w'
    using that by (auto simp: HeartbeatMonitor_stop_def joinable_def split: if_splits bind_splits)
  then show ?thesis by (cases "HeartbeatMonitor_stop J reads m w") (auto simp: HeartbeatMonitor_destroy_def)
qed

section \<open>Lemmas on the thread pool\<close>

lemma spawn_workers_running:
  "spawn_workers spawn i k ws = Inr ws' \<Longrightarrow> ws' = ws @ replicate k Running"
  "spawn_workers spawn i k ws = Inl (j, what, ws') \<Longrightarrow> \<exists>n < k. ws' = ws @ replicate n Running \<and> j = i + n \<and> spawn j = Some what"
proof (induction spawn i k ws rule: spawn_workers.induct)
  case (2 spawn i k ws)
  {
    case 1
    then show ?case using 2 by (auto split: option.splits simp: replicate_append_same)
  next
    case 2
    then show ?case using "2.IH"(2) by (cases "spawn i") (fastforce intro: exI [of _ "Suc n" for n])+
  }
qed auto

lemma spawn_workers_total: "(\<And>j. spawn j = None) \<Longrightarrow> spawn_workers spawn i k ws = Inr (ws @ replicate k Running)"
  by (induction k arbitrary: i ws) (simp_all add: replicate_append_same)

lemma join_all_running [simp]: "join_all (replicate k Running) = (k, replicate k NoThread)"
  by (simp add: join_all_def joinable_def)

lemma pool_shutdown_queue:
  "isStopped (sv_queue (pool_shutdown st))" "wf_queue (sv_queue st) \<Longrightarrow> m_queue (sv_queue (pool_shutdown st)) = []"
  "pool_shutdown (pool_shutdown st) = pool_shutdown st"
  by (auto simp: pool_shutdown_def stop_def isStopped_def wf_queue_def close_fds_def)

text \<open>Every thread that the pool has created is joined or still among its workers.\<close>

definition pool_threads :: "thread_pool \<Rightarrow> bool" where
  "pool_threads tp \<longleftrightarrow> tp_spawned tp = tp_joined tp + length (filter joinable (tp_workers tp))"

lemma ThreadPool_new_threads:
  "ThreadPool_new config spawn st = Inr (tp, st') \<Longrightarrow>
     st' = st \<and> \<not> tp_shutdown tp \<and> pool_threads tp \<and> tp_workers tp = replicate (unat (workerCount config)) Running"
  "ThreadPool_new config spawn st = Inl (tp, st') \<Longrightarrow>
     pool_threads tp \<and> list_all (\<lambda>t. \<not> joinable t) (tp_workers tp) \<and> isStopped (sv_queue st')"
  by (auto simp: ThreadPool_new_def pool_threads_def workerCount_def joinable_def pool_shutdown_queue Let_def list_all_iff
      split: sum.splits dest!: spawn_workers_running)

lemma ThreadPool_shutdown_threads:
  assumes "ThreadPool_shutdown secs tp st = (None, tp', st')" "pool_threads tp" "\<not> tp_shutdown tp"
  shows "st' = pool_shutdown st" "tp_shutdown tp'" "tp_joined tp' = tp_spawned tp'" "tp_workers tp' = []" "tp_spawned tp' = tp_spawned tp"
  using assms by (auto simp: ThreadPool_shutdown_def pool_threads_def join_all_def Let_def split: if_splits)

lemma ThreadPool_destroy_total:
  assumes "\<not> tp_shutdown tp"
  shows "ThreadPool_destroy secs tp st = Some (ThreadPool_shutdown secs tp st)"
  using assms by (simp add: ThreadPool_destroy_def ThreadPool_shutdown_def join_all_def Let_def)

text \<open>
  An error of \<^verbatim>\<open>accept\<close> other than an interrupt ends the loop: clients that arrive later are never accepted,
  although the process goes on. Linux reports errors of a single pending connection this way.
\<close>

lemma accept_error_ends_loop:
  assumes "e \<noteq> EINTR"
  shows "acceptLoop J errmsg config (es @ AcceptFails e False # later) st = acceptLoop J errmsg config (es @ [AcceptFails e False]) st"
  using assms
proof (induction es arbitrary: st)
  case (Cons x es)
  then show ?case by (cases x) (simp_all cong: Option.bind_cong)
qed simp

section \<open>Properties\<close>

text \<open>
  The acceptor releases what it takes. Whatever sequence of \<^verbatim>\<open>start\<close> (successful or failing at any
  point) and \<^verbatim>\<open>stop\<close> calls is made on an acceptor, once its destructor has run every listening
  socket that was opened has been closed exactly once, in the order of opening, every thread
  that was created has been joined, and the guard holds no descriptor.
\<close>

theorem acceptor_releases:
  assumes "acceptor_run J errmsg port cs new_acceptor w = Some (a, w')" "\<forall>fd \<in> set (concat (map opens cs)). 0 \<le> fd"
    and "a' = SocketAcceptor_stop a"
  shows "closes (ac_trace a') = concat (map opens cs)
    \<and> count_list (ac_trace a') Act_spawn = count_list (ac_trace a') Act_join
    \<and> \<not> joinable (ac_thread a') \<and> \<not> FdGuard_isValid (ac_listenFd a')"
proof -
  have "thread_held new_acceptor" "held_listener new_acceptor = []" "ac_trace new_acceptor = []"
    by (simp_all add: new_acceptor_def thread_held_def threads_def joinable_def held_listener_def guard_defs)
  then have r: "closes (ac_trace a) @ held_listener a = concat (map opens cs)" "thread_held a"
    using acceptor_run_held [OF assms(1,2)] by simp_all
  have "thread_held a'" "held_listener a' = []" using stop_held [of a] r(2) assms(3) by simp_all
  then show ?thesis using stop_held [of a] r(1) assms(3)
    by (simp add: thread_held_def threads_def joinable_def held_listener_def split: if_splits)
qed

definition quiet_world :: world where
  "quiet_world = (sv_world (initial_server (\<lambda>_. 0) (\<lambda>_. 0) (\<lambda>_. 0) []))\<lparr>lg_minLevel := NONE\<rparr>"

lemma acceptor_releases_witness:
  "\<exists>a. acceptor_run (sample_lib [] JNull) (\<lambda>_. []) 8080 [Call_start 3 (BindFails EADDRINUSE), Call_start 4 Listening, Call_stop]
     new_acceptor quiet_world = Some (a, quiet_world) \<and> closes (ac_trace (SocketAcceptor_stop a)) = [3, 4]"
proof -
  let ?cs = "[Call_start 3 (BindFails EADDRINUSE), Call_start 4 Listening, Call_stop]"
  have "log_plain (sample_lib [] JNull) l msg quiet_world = Some quiet_world" if "l \<noteq> NONE" for l msg
    using that by (cases l) (simp_all add: log_plain_def quiet_world_def less_Level_def)
  then have "\<exists>a. acceptor_run (sample_lib [] JNull) (\<lambda>_. []) 8080 ?cs new_acceptor quiet_world = Some (a, quiet_world)"
    by (simp add: SocketAcceptor_start_def acceptor_start_def take_listener_def new_acceptor_def guard_defs
        SocketAcceptor_stop_def thread_assign_def joinable_def ac_do_def)
  then show ?thesis using acceptor_releases [of "sample_lib [] JNull" "\<lambda>_. []" 8080 ?cs quiet_world] by force
qed

end
