(* ===== verification/ServerProcess.thy ===== *)
theory ServerProcess
  imports Lifecycle
begin

text \<open>
  \<^verbatim>\<open>main\<close> of \<^verbatim>\<open>src/app/main.cpp\<close> from start-up to the last destructor. \<open>process\<close> is what \<^verbatim>\<open>main\<close> owns: the
  state shared by the threads, the thread pool and the acceptor. What the other threads do
  while \<^verbatim>\<open>main\<close> waits for a signal is a list of operations (theory \<open>ServerSteps\<close>); what the kernel
  answers is given by arguments. \<^term>\<open>None\<close> is an exception that nothing catches, or a wait that
  does not end.
\<close>

record process =
  px_server :: server
  px_pool :: "thread_pool option"
  px_acceptor :: acceptor

definition px_log :: "json_lib \<Rightarrow> Level \<Rightarrow> string \<Rightarrow> process \<Rightarrow> process option" where
  "px_log J level msg p = do {
     w \<leftarrow> log_plain J level msg (sv_world (px_server p));
     Some (p\<lparr>px_server := (px_server p)\<lparr>sv_world := w\<rparr>\<rparr>)
   }"

definition px_metrics_shutdown :: "process \<Rightarrow> process" where
  "px_metrics_shutdown p = p\<lparr>px_server := (px_server p)\<lparr>sv_world := metrics_shutdown (sv_world (px_server p))\<rparr>\<rparr>"

text \<open>From the construction of the acceptor to the point where the server is ready.\<close>

definition main_accept ::
  "json_lib \<Rightarrow> ServerConfig \<Rightarrow> (errno \<Rightarrow> string) \<Rightarrow> int \<Rightarrow> start_outcome \<Rightarrow> process \<Rightarrow> (int option \<times> process) option" where
  "main_accept J config errmsg rawFd outcome p = do {
     (ok, a, w) \<leftarrow> SocketAcceptor_start J errmsg (m_port config) rawFd outcome (px_acceptor p) (sv_world (px_server p));
     let p = p\<lparr>px_acceptor := a, px_server := (px_server p)\<lparr>sv_world := w\<rparr>\<rparr>;
     if \<not> ok then do {
       p \<leftarrow> px_log J ERROR ''Failed to bind SocketAcceptor. Port already in use?'' p;
       Some (Some 1, px_metrics_shutdown p)
     } else do {
       p \<leftarrow> px_log J INFO (''server_ready '' @ EM_DASH @ '' accepting connections on port '' @ dec_of_nat (unat (m_port config))) p;
       Some (None, p)
     }
   }"

text \<open>From the first line of \<^verbatim>\<open>main\<close> on: the status if it returns, and the process.\<close>

definition main_start ::
  "json_lib \<Rightarrow> environment \<Rightarrow> (errno \<Rightarrow> string) \<Rightarrow> (nat \<Rightarrow> string option) \<Rightarrow> exposer_outcome \<Rightarrow> int \<Rightarrow> start_outcome
     \<Rightarrow> server \<Rightarrow> (int option \<times> process) option" where
  "main_start J env errmsg spawn exposer rawFd outcome st = do {
     let (bannerExitCode, w) = runApp (sv_world st);
     let st = st\<lparr>sv_world := w\<rparr>;
     if bannerExitCode \<noteq> 0 then do {
       p \<leftarrow> px_log J ERROR ''Banner initialization failed'' \<lparr>px_server = st, px_pool = None, px_acceptor = new_acceptor\<rparr>;
       Some (Some bannerExitCode, p)
     } else do {
       let (config, warnings) = fromEnv env;
       let st = st\<lparr>sv_world := (sv_world st)\<lparr>mt_stderr := mt_stderr (sv_world st) @ warnings\<rparr>\<rparr>;
       case ThreadPool_new config spawn st of
         Inl _ \<Rightarrow> None
       | Inr (tp, st) \<Rightarrow> do {
           p \<leftarrow> px_log J INFO (''Booting EOP Server on port '' @ dec_of_nat (unat (m_port config)) @ '' | Workers: ''
                  @ dec_of_nat (unat (workerCount config))) \<lparr>px_server = st, px_pool = Some tp, px_acceptor = new_acceptor\<rparr>;
           let p = p\<lparr>px_server := (px_server p)\<lparr>sv_world := metrics_start exposer (m_metricsPort config) (sv_world (px_server p))\<rparr>\<rparr>;
           main_accept J config errmsg rawFd outcome p
         }
     }
   }"

text \<open>From the signal to the \<^verbatim>\<open>return\<close> statement.\<close>

definition main_finish :: "json_lib \<Rightarrow> flags \<Rightarrow> process \<Rightarrow> process option" where
  "main_finish J f p = do {
     let sig = g_signal_received f;
     p \<leftarrow> px_log J INFO (''shutdown_initiated '' @ EM_DASH @ '' signal '' @ signal_name sig @ '' ('' @ dec_of_int sig @ '') received'') p;
     let p = p\<lparr>px_acceptor := SocketAcceptor_stop (px_acceptor p)\<rparr>;
     let p = px_metrics_shutdown p;
     px_log J INFO (''shutdown_complete '' @ EM_DASH @ '' all resources released'') p
   }"

text \<open>
  The destructors of the acceptor and of the pool, in this order; the watchdog of the pool may
  end the process with a status of its own.
\<close>

definition main_exit :: "(nat \<Rightarrow> nat option) \<Rightarrow> int \<Rightarrow> process \<Rightarrow> (int \<times> process) option" where
  "main_exit secs status p = do {
     a \<leftarrow> SocketAcceptor_destroy (px_acceptor p);
     let p = p\<lparr>px_acceptor := a\<rparr>;
     case px_pool p of
       None \<Rightarrow> Some (status, p)
     | Some tp \<Rightarrow> do {
         (forced, tp, st) \<leftarrow> ThreadPool_destroy secs tp (px_server p);
         Some (case forced of None \<Rightarrow> status | Some code \<Rightarrow> code, p\<lparr>px_pool := Some tp, px_server := st\<rparr>)
       }
   }"

definition main_process ::
  "json_lib \<Rightarrow> environment \<Rightarrow> (errno \<Rightarrow> string) \<Rightarrow> (nat \<Rightarrow> string option) \<Rightarrow> exposer_outcome \<Rightarrow> int \<Rightarrow> start_outcome
     \<Rightarrow> server_op list \<Rightarrow> signal list \<Rightarrow> (nat \<Rightarrow> nat option) \<Rightarrow> server \<Rightarrow> (int \<times> process) option" where
  "main_process J env errmsg spawn exposer rawFd outcome ops sigs secs st = do {
     (status, p) \<leftarrow> main_start J env errmsg spawn exposer rawFd outcome st;
     case status of
       Some code \<Rightarrow> main_exit secs code p
     | None \<Rightarrow> do {
         st \<leftarrow> run_server J (fst (fromEnv env)) ops (px_server p);
         let f = wait_for_signal sigs \<lparr>g_running = True, g_signal_received = 0\<rparr>;
         if g_running f then None
         else do {
           p \<leftarrow> main_finish J f (p\<lparr>px_server := st\<rparr>);
           main_exit secs 0 p
         }
       }
   }"

subsection \<open>What main does to the shared state\<close>

text \<open>The part of the state that accounts for connections, and the span stack.\<close>

definition same_clients :: "server \<Rightarrow> server \<Rightarrow> bool" where
  "same_clients st st' \<longleftrightarrow> sv_queue st' = sv_queue st \<and> w_active (sv_world st') = w_active (sv_world st)
     \<and> w_closed (sv_world st') = w_closed (sv_world st) \<and> ot_stack (sv_world st') = ot_stack (sv_world st)"

lemma same_clients_refl [simp]: "same_clients st st"
  by (simp add: same_clients_def)

lemma same_clients_trans: "same_clients a b \<Longrightarrow> same_clients b c \<Longrightarrow> same_clients a c"
  by (simp add: same_clients_def)

lemma log_plain_clients: "log_plain J l msg w = Some w' \<Longrightarrow> same_clients (st\<lparr>sv_world := w\<rparr>) (st\<lparr>sv_world := w'\<rparr>)"
  by (auto dest!: log_logged simp: logged_def same_clients_def)

lemma px_log_effect:
  assumes "px_log J l msg p = Some p'"
  shows "same_clients (px_server p) (px_server p') \<and> px_pool p' = px_pool p \<and> px_acceptor p' = px_acceptor p"
  using assms log_plain_clients [of J l msg "sv_world (px_server p)" _ "px_server p"] by (auto simp: px_log_def split: bind_splits)

lemma metrics_clients:
  "same_clients st (st\<lparr>sv_world := metrics_start e port (sv_world st)\<rparr>)"
  "same_clients (px_server p) (px_server (px_metrics_shutdown p))"
  "px_pool (px_metrics_shutdown p) = px_pool p" "px_acceptor (px_metrics_shutdown p) = px_acceptor p"
  by (auto simp: same_clients_def metrics_start_def px_metrics_shutdown_def metrics_shutdown_def split: exposer_outcome.splits)

lemma start_clients:
  assumes "SocketAcceptor_start J errmsg port fd outcome a w = Some (ok, a', w')"
  shows "same_clients (st\<lparr>sv_world := w\<rparr>) (st\<lparr>sv_world := w'\<rparr>)" "ok \<longleftrightarrow> outcome = Listening"
  using assms log_plain_clients
  by (auto simp: SocketAcceptor_start_def acceptor_start_def Let_def split: bind_splits if_splits start_outcome.splits)

text \<open>The listening socket, if one was opened, is held or closed, and so is the accept thread.\<close>

definition listener_held :: "int list \<Rightarrow> acceptor \<Rightarrow> bool" where
  "listener_held fds a \<longleftrightarrow> closes (ac_trace a) @ held_listener a = fds \<and> thread_held a"

lemma listener_held_new: "listener_held [] new_acceptor"
  by (simp add: listener_held_def new_acceptor_def thread_held_def threads_def joinable_def held_listener_def guard_defs)

lemma listener_held_stop: "listener_held fds a \<Longrightarrow> listener_held fds (SocketAcceptor_stop a)"
  by (simp add: listener_held_def stop_held)

lemma main_accept_effect:
  assumes "main_accept J config errmsg fd outcome p = Some (status, p')" "0 \<le> fd" "px_acceptor p = new_acceptor"
  shows "same_clients (px_server p) (px_server p')" "px_pool p' = px_pool p"
    "status = (if outcome = Listening then None else Some 1)" "listener_held (opens (Call_start fd outcome)) (px_acceptor p')"
proof -
  obtain ok a w where s: "SocketAcceptor_start J errmsg (m_port config) fd outcome new_acceptor (sv_world (px_server p)) = Some (ok, a, w)"
    using assms(1,3) by (auto simp: main_accept_def split: bind_splits)
  let ?p = "p\<lparr>px_acceptor := a, px_server := (px_server p)\<lparr>sv_world := w\<rparr>\<rparr>"
  have c: "same_clients (px_server p) (px_server ?p)" using start_clients(1) [OF s, of "px_server p"] by simp
  have "\<forall>x \<in> set (opens (Call_start fd outcome)). 0 \<le> x" using assms(2) by (cases outcome) simp_all
  then have h: "listener_held (opens (Call_start fd outcome)) a"
    using start_held [OF s] listener_held_new by (simp add: listener_held_def)
  obtain l msg p1 where l: "px_log J l msg ?p = Some p1" "p' = p1 \<or> p' = px_metrics_shutdown p1"
    "status = (if ok then None else Some 1)"
    using assms(1,3) s by (cases ok) (auto simp: main_accept_def Let_def split: bind_splits simp del: append.simps)
  have "same_clients (px_server ?p) (px_server p')" "px_pool p' = px_pool p" "px_acceptor p' = a"
    using px_log_effect [OF l(1)] l(2) metrics_clients(2-4) [of p1] by (auto simp: same_clients_def)
  then show "same_clients (px_server p) (px_server p')" "px_pool p' = px_pool p"
    "status = (if outcome = Listening then None else Some 1)" "listener_held (opens (Call_start fd outcome)) (px_acceptor p')"
    using c h l(3) start_clients(2) [OF s] by (auto intro: same_clients_trans)
qed

text \<open>The pool as its constructor leaves it.\<close>

definition full_pool :: "nat \<Rightarrow> thread_pool \<Rightarrow> bool" where
  "full_pool k tp \<longleftrightarrow> tp_workers tp = replicate k Running \<and> \<not> tp_shutdown tp \<and> tp_spawned tp = k \<and> tp_joined tp = 0"

lemma ThreadPool_new_full:
  "ThreadPool_new config spawn st = Inr (tp, st') \<Longrightarrow> full_pool (unat (m_threadPoolSize config)) tp \<and> st' = st"
  by (auto simp: ThreadPool_new_def full_pool_def Let_def split: sum.splits dest!: spawn_workers_running)

lemma main_start_effect:
  assumes "main_start J env errmsg spawn exposer fd outcome st = Some (status, p)" "0 \<le> fd"
  shows "same_clients st (px_server p)" "status = (if outcome = Listening then None else Some 1)"
    "listener_held (opens (Call_start fd outcome)) (px_acceptor p)"
    "\<exists>tp. px_pool p = Some tp \<and> full_pool (unat (m_threadPoolSize (fst (fromEnv env)))) tp"
proof -
  let ?config = "fst (fromEnv env)"
  let ?st = "st\<lparr>sv_world := (printBanner (sv_world st))\<lparr>mt_stderr := mt_stderr (printBanner (sv_world st)) @ snd (fromEnv env)\<rparr>\<rparr>"
  obtain tp msg p1 p2 where t: "ThreadPool_new ?config spawn ?st = Inr (tp, ?st)"
    and l: "px_log J INFO msg \<lparr>px_server = ?st, px_pool = Some tp, px_acceptor = new_acceptor\<rparr> = Some p1"
    and p2: "p2 = p1\<lparr>px_server := (px_server p1)\<lparr>sv_world := metrics_start exposer (m_metricsPort ?config) (sv_world (px_server p1))\<rparr>\<rparr>"
    and a: "main_accept J ?config errmsg fd outcome p2 = Some (status, p)"
    using assms(1) by (auto simp: main_start_def runApp_def Let_def split_beta split: bind_splits sum.splits dest: ThreadPool_new_full)
  have "same_clients st ?st" by (simp add: same_clients_def printBanner_def)
  moreover have "same_clients ?st (px_server p1)" "px_pool p1 = Some tp" "px_acceptor p1 = new_acceptor" using px_log_effect [OF l] by simp_all
  moreover have "same_clients (px_server p1) (px_server p2)" using metrics_clients(1) by (simp add: p2)
  ultimately have p: "same_clients st (px_server p2)" "px_pool p2 = Some tp" "px_acceptor p2 = new_acceptor"
    by (auto simp: p2 intro: same_clients_trans)
  note e = main_accept_effect [OF a assms(2) p(3)]
  show "same_clients st (px_server p)" using p(1) e(1) by (rule same_clients_trans)
  show "status = (if outcome = Listening then None else Some 1)" "listener_held (opens (Call_start fd outcome)) (px_acceptor p)"
    by (fact e(3) e(4))+
  show "\<exists>tp. px_pool p = Some tp \<and> full_pool (unat (m_threadPoolSize ?config)) tp"
    using e(2) p(2) ThreadPool_new_full [OF t] by simp
qed

lemma main_finish_effect:
  assumes "main_finish J f p = Some p'"
  shows "same_clients (px_server p) (px_server p') \<and> px_pool p' = px_pool p \<and> px_acceptor p' = SocketAcceptor_stop (px_acceptor p)"
  using assms by (auto simp: main_finish_def Let_def same_clients_def px_metrics_shutdown_def metrics_shutdown_def
      split: bind_splits dest!: px_log_effect simp del: append.simps)

text \<open>Nothing is left: listening socket and accept thread are gone, all workers are joined, the queue is stopped and empty.\<close>

definition all_released :: "int list \<Rightarrow> nat \<Rightarrow> process \<Rightarrow> bool" where
  "all_released fds k p \<longleftrightarrow>
     closes (ac_trace (px_acceptor p)) = fds
     \<and> count_list (ac_trace (px_acceptor p)) Act_spawn = count_list (ac_trace (px_acceptor p)) Act_join
     \<and> (\<exists>tp. px_pool p = Some tp \<and> tp_spawned tp = k \<and> tp_joined tp = k \<and> tp_workers tp = [])
     \<and> isStopped (sv_queue (px_server p)) \<and> m_queue (sv_queue (px_server p)) = []"

lemma main_exit_total:
  assumes "px_pool p = Some tp" "full_pool k tp"
  shows "\<exists>status' p'. main_exit secs status p = Some (status', p')"
proof -
  obtain f tp' st where "ThreadPool_shutdown secs tp (px_server p) = (f, tp', st)" by (cases "ThreadPool_shutdown secs tp (px_server p)")
  then show ?thesis
    using assms by (simp add: main_exit_def SocketAcceptor_destroy_stop ThreadPool_destroy_total full_pool_def)
qed

lemma main_exit_effect:
  assumes "main_exit secs status p = Some (status', p')" "listener_held fds (px_acceptor p)"
    and "px_pool p = Some tp" "full_pool k tp" "wf_queue (sv_queue (px_server p))" "in_time secs k"
  shows "status' = status" "px_server p' = pool_shutdown (px_server p)" "all_released fds k p'"
proof -
  let ?a = "SocketAcceptor_stop (px_acceptor p)"
  have a: "closes (ac_trace ?a) = fds" "count_list (ac_trace ?a) Act_spawn = count_list (ac_trace ?a) Act_join"
    using assms(2) stop_held [of "px_acceptor p"] by (simp_all add: listener_held_def thread_held_def threads_def joinable_def)
  have t: "ThreadPool_shutdown secs tp (px_server p)
      = (None, tp\<lparr>tp_shutdown := True, tp_workers := [], tp_joined := k\<rparr>, pool_shutdown (px_server p))"
    using assms(4,6) by (simp add: ThreadPool_shutdown_def full_pool_def)
  have d: "ThreadPool_destroy secs tp (px_server p) = Some (None, tp\<lparr>tp_shutdown := True, tp_workers := [], tp_joined := k\<rparr>, pool_shutdown (px_server p))"
    using assms(4) t by (simp add: ThreadPool_destroy_total full_pool_def)
  note e = assms(1) [unfolded main_exit_def SocketAcceptor_destroy_stop]
  show "status' = status" "px_server p' = pool_shutdown (px_server p)"
    using e assms(3) d by auto
  show "all_released fds k p'"
    using e assms(3-5) d a by (auto simp: all_released_def full_pool_def pool_shutdown_queue)
qed

lemma pool_sim_clients: "pool_sim q st \<Longrightarrow> same_clients st st' \<Longrightarrow> pool_sim q st'"
  by (simp add: pool_sim_def same_clients_def)

lemma pool_sim_initial: "pool_sim (pool_init 1) (initial_server clock steady rng others)"
  by (simp add: pool_sim_def pool_init_def initial_server_def new_WorkQueue_def)

text \<open>When the queue has been stopped and emptied, the closed descriptors are the accepted ones.\<close>

lemma closed_at_exit:
  assumes "(pool_step m)\<^sup>*\<^sup>* (pool_init 1) q" "pool_sim q st" "m_queue (sv_queue (pool_shutdown st)) = []"
  shows "mset (w_closed (sv_world (pool_shutdown st))) = mset (ps_accepted q)"
proof -
  obtain q' where q': "(pool_step m)\<^sup>*\<^sup>* q q'" "pool_sim q' (pool_shutdown st)" "ps_accepted q' = ps_accepted q"
    using pool_sim_shutdown [OF assms(2)] by blast
  have "(pool_step m)\<^sup>*\<^sup>* (pool_init 1) q'" using assms(1) q'(1) by (rule rtranclp_trans)
  then show ?thesis using reachable_pool_inv [of m 1 q'] q'(2,3) assms(3) by (simp add: pool_inv_def pool_sim_def pool_held_def)
qed

lemma pool_sim_wf: "(pool_step m)\<^sup>*\<^sup>* (pool_init 1) q \<Longrightarrow> pool_sim q st \<Longrightarrow> wf_queue (sv_queue st)"
  using reachable_pool_inv [of m 1 q] by (simp add: pool_inv_def pool_sim_def)

lemma run_server_stack:
  "run_server J config ops st = Some st' \<Longrightarrow> \<forall>s \<in> set (m_queue (sv_queue st)). 0 \<le> as_fd s \<Longrightarrow> list_all (\<lambda>fd. 0 \<le> fd) (op_fds ops)
     \<Longrightarrow> ot_stack (sv_world st') = ot_stack (sv_world st)"
proof (induction ops arbitrary: st)
  case (Cons x ops)
  obtain st1 where s: "server_op_step J config x st = Some st1" "run_server J config ops st1 = Some st'"
    using Cons.prems(1) by (auto split: bind_splits)
  have "ot_stack (sv_world st1) = ot_stack (sv_world st) \<and> (\<forall>s \<in> set (m_queue (sv_queue st1)). 0 \<le> as_fd s)"
  proof (cases x)
    case (S_accept fd ip)
    then show ?thesis
      using s(1) Cons.prems(2,3)
      by (auto simp: accept_client_def reject_client_def onAccept_def enqueue_def close_fds_def Let_def logged_def
          split: bind_splits prod.splits if_splits dest!: log_logged simp del: append.simps)
  next
    case (S_serve t)
    then show ?thesis
      using s(1) Cons.prems(2) serve_socket_teardown serve_socket_queue dequeue_Some
      by (fastforce split: option.splits prod.splits)
  next
    case S_shutdown
    then show ?thesis
      using s(1) Cons.prems(2) by (cases "m_stopped (sv_queue st)") (auto simp: pool_shutdown_def stop_def close_fds_def)
  qed
  moreover have "list_all (\<lambda>fd. 0 \<le> fd) (op_fds ops)" using Cons.prems(3) by (cases x) simp_all
  ultimately show ?case using Cons.IH [OF s(2)] by simp
qed simp

lemma log_plain_total:
  assumes "dump_law J" "ot_stack w = []" "safe_text msg"
  shows "\<exists>w'. log_plain J l msg w = Some w'"
proof -
  have "returns (log_plain J l msg w)"
    using assms by (auto simp: log_plain_def currentTraceId_def currentSpanId_def log_utf8_simps safe_base_def safe_literal
        simp del: append.simps intro!: emit_total)
  then show ?thesis by (auto simp: returns_def)
qed

lemma px_log_total:
  assumes "dump_law J" "ot_stack (sv_world (px_server p)) = []" "safe_text msg"
  shows "\<exists>p'. px_log J l msg p = Some p'"
  using log_plain_total [OF assms, of l] by (auto simp: px_log_def)

text \<open>The messages of \<^verbatim>\<open>main\<close> and of the acceptor can be logged.\<close>

lemma safe_short: "utf8 s \<Longrightarrow> length s \<le> 512 \<Longrightarrow> safe_text s"
  by (simp add: safe_text_def sanitizeText_utf8)

lemma dec_port: "length (dec_of_nat (unat (v :: u16))) \<le> 5" "length (dec_of_nat (unat (n :: u32))) \<le> 10" "utf8 (dec_of_nat k)"
proof -
  have "unat v < 2 ^ 16" "unat n < 2 ^ 32" using unsigned_less [of v, where 'a = nat] unsigned_less [of n, where 'a = nat] by simp_all
  then have "unat v < 10 ^ 5" "unat n < 10 ^ 10" by simp_all
  then show "length (dec_of_nat (unat v)) \<le> 5" "length (dec_of_nat (unat n)) \<le> 10"
    unfolding dec_of_nat_def by (auto intro!: length_digits)
  show "utf8 (dec_of_nat k)" using utf8_dec_of_int [of "int k"] by (simp add: dec_of_int_def)
qed

lemma main_messages_safe:
  "safe_text (''Booting EOP Server on port '' @ dec_of_nat (unat (port :: u16)) @ '' | Workers: '' @ dec_of_nat (unat (n :: u32)))"
  "safe_text (''Listening on port '' @ dec_of_nat (unat port))"
  "safe_text (''server_ready '' @ EM_DASH @ '' accepting connections on port '' @ dec_of_nat (unat port))"
  "safe_text (''shutdown_complete '' @ EM_DASH @ '' all resources released'')"
  using dec_port(1) [of port] dec_port(2) [of n]
  by (auto intro!: safe_short utf8_append simp: EM_DASH_def utf8_dash utf8_literal dec_port(3) simp del: append.simps)

lemma signal_message_safe:
  assumes "sig \<in> {SIGINT, SIGTERM}"
  shows "safe_text (''shutdown_initiated '' @ EM_DASH @ '' signal '' @ signal_name (signal_number sig) @ '' (''
    @ dec_of_int (signal_number sig) @ '') received'')"
proof -
  have "length (dec_of_int (signal_number sig)) \<le> 2" "utf8 (signal_name (signal_number sig))" "length (signal_name (signal_number sig)) \<le> 7"
    using assms by (auto simp: dec_of_int_def dec_of_nat_def digits_in.simps signal_name_def utf8_literal)
  then show ?thesis
    by (auto intro!: safe_short utf8_append simp: EM_DASH_def utf8_dash utf8_literal simp del: append.simps)
qed

lemma main_start_ready:
  assumes "dump_law J" "\<And>i. spawn i = None" "ot_stack (sv_world st) = []"
  shows "\<exists>p. main_start J env errmsg spawn exposer fd Listening st = Some (None, p)"
proof -
  let ?c = "fst (fromEnv env)"
  let ?st = "st\<lparr>sv_world := (printBanner (sv_world st))\<lparr>mt_stderr := mt_stderr (printBanner (sv_world st)) @ snd (fromEnv env)\<rparr>\<rparr>"
  obtain tp where t: "ThreadPool_new ?c spawn ?st = Inr (tp, ?st)"
    by (simp add: ThreadPool_new_def spawn_workers_total assms(2))
  let ?p = "\<lparr>px_server = ?st, px_pool = Some tp, px_acceptor = new_acceptor\<rparr>"
  have st: "ot_stack (sv_world (px_server ?p)) = []" using assms(3) by (simp add: printBanner_def)
  obtain p1 where p1: "px_log J INFO (''Booting EOP Server on port '' @ dec_of_nat (unat (m_port ?c)) @ '' | Workers: ''
      @ dec_of_nat (unat (workerCount ?c))) ?p = Some p1"
    using px_log_total [OF assms(1) st main_messages_safe(1)] by blast
  define p2 where "p2 = p1\<lparr>px_server := (px_server p1)\<lparr>sv_world := metrics_start exposer (m_metricsPort ?c) (sv_world (px_server p1))\<rparr>\<rparr>"
  have p2: "ot_stack (sv_world (px_server p2)) = []" "px_acceptor p2 = new_acceptor"
    using px_log_effect [OF p1] metrics_clients(1) [of "px_server p1"] assms(3) by (simp_all add: p2_def same_clients_def printBanner_def)
  obtain w where w: "log_plain J INFO (''Listening on port '' @ dec_of_nat (unat (m_port ?c))) (sv_world (px_server p2)) = Some w"
    using log_plain_total [OF assms(1) p2(1) main_messages_safe(2)] by blast
  obtain a where s: "SocketAcceptor_start J errmsg (m_port ?c) fd Listening new_acceptor (sv_world (px_server p2)) = Some (True, a, w)"
    using w by (simp add: SocketAcceptor_start_def acceptor_start_def take_listener_def thread_assign_def joinable_def new_acceptor_def
        guard_defs ac_do_def del: append.simps)
  let ?p3 = "p2\<lparr>px_acceptor := a, px_server := (px_server p2)\<lparr>sv_world := w\<rparr>\<rparr>"
  have "ot_stack (sv_world (px_server ?p3)) = []" using start_clients(1) [OF s, of "px_server p2"] p2(1) by (simp add: same_clients_def)
  then obtain p4 where "px_log J INFO (''server_ready '' @ EM_DASH @ '' accepting connections on port '' @ dec_of_nat (unat (m_port ?c))) ?p3 = Some p4"
    using px_log_total [OF assms(1) _ main_messages_safe(3), of ?p3] by blast
  then have "main_accept J ?c errmsg fd Listening p2 = Some (None, p4)" using s p2(2) by (simp add: main_accept_def del: append.simps)
  then show ?thesis using t p1 by (simp add: main_start_def runApp_def p2_def split_beta Let_def del: append.simps)
qed

lemma main_finish_total:
  assumes "dump_law J" "ot_stack (sv_world (px_server p)) = []" "sig \<in> {SIGINT, SIGTERM}" "g_signal_received f = signal_number sig"
  shows "\<exists>p'. main_finish J f p = Some p'"
proof -
  obtain p1 where p1: "px_log J INFO (''shutdown_initiated '' @ EM_DASH @ '' signal '' @ signal_name (signal_number sig) @ '' (''
      @ dec_of_int (signal_number sig) @ '') received'') p = Some p1"
    using px_log_total [OF assms(1,2) signal_message_safe [OF assms(3)]] by blast
  let ?p2 = "px_metrics_shutdown (p1\<lparr>px_acceptor := SocketAcceptor_stop (px_acceptor p1)\<rparr>)"
  have "ot_stack (sv_world (px_server ?p2)) = []"
    using px_log_effect [OF p1] assms(2) by (simp add: same_clients_def px_metrics_shutdown_def metrics_shutdown_def)
  then show ?thesis
    using p1 px_log_total [OF assms(1) _ main_messages_safe(4), of ?p2] assms(4)
    by (simp add: main_finish_def Let_def del: append.simps)
qed

section \<open>Properties\<close>

text \<open>
  C8. When \<^verbatim>\<open>main\<close> is done, everything is released. Whether the server starts or fails to open its
  port, and whatever clients come before the signal, a run of \<^verbatim>\<open>main\<close> that ends with its workers in
  time returns 0 or 1 accordingly; the listening socket, if one was opened, has been closed exactly
  once, the accept thread and every worker thread have been joined, the queue is stopped and
  empty, and every accepted client has been closed exactly once.
\<close>

theorem main_releases_all:
  assumes "main_process J env errmsg spawn exposer fd outcome ops sigs secs (initial_server clock steady rng others) = Some (status, p)"
    and "0 \<le> fd" "list_all (\<lambda>fd. 0 \<le> fd) (op_fds ops)" "in_time secs (unat (m_threadPoolSize (fst (fromEnv env))))"
  shows "status = (if outcome = Listening then 0 else 1)
    \<and> all_released (opens (Call_start fd outcome)) (unat (m_threadPoolSize (fst (fromEnv env)))) p
    \<and> mset (w_closed (sv_world (px_server p))) = (if outcome = Listening then mset (op_fds ops) else {#})"
proof -
  let ?c = "fst (fromEnv env)"
  let ?m = "m_maxClients ?c"
  obtain st p0 where s: "main_start J env errmsg spawn exposer fd outcome (initial_server clock steady rng others) = Some (st, p0)"
    using assms(1) by (auto simp: main_process_def split: bind_splits)
  note e = main_start_effect [OF s assms(2)]
  obtain tp where tp: "px_pool p0 = Some tp" "full_pool (unat (m_threadPoolSize ?c)) tp" using e(4) by blast
  have i: "pool_sim (pool_init 1) (px_server p0)" using pool_sim_clients [OF pool_sim_initial e(1)] .
  have acc: "ps_accepted (pool_init 1) = []" by (simp add: pool_init_def)
  obtain q p1 where q: "(pool_step ?m)\<^sup>*\<^sup>* (pool_init 1) q" "pool_sim q (px_server p1)"
      "ps_accepted q = (if outcome = Listening then op_fds ops else [])"
    and p1: "main_exit secs (if outcome = Listening then 0 else 1) p1 = Some (status, p)" "px_pool p1 = Some tp"
      "listener_held (opens (Call_start fd outcome)) (px_acceptor p1)"
  proof (cases "outcome = Listening")
    case True
    then obtain st1 f p1 where r: "run_server J ?c ops (px_server p0) = Some st1" "main_finish J f (p0\<lparr>px_server := st1\<rparr>) = Some p1"
        "main_exit secs 0 p1 = Some (status, p)"
      using assms(1) s e(2) by (auto simp: main_process_def Let_def split: bind_splits if_splits)
    obtain q where q: "(pool_step ?m)\<^sup>*\<^sup>* (pool_init 1) q" "pool_sim q st1" "ps_accepted q = op_fds ops"
      using run_server_sim [OF i r(1) assms(3)] acc by auto
    then show thesis
      using that [of q p1] main_finish_effect [OF r(2)] pool_sim_clients [OF q(2)] r(3) tp(1) True listener_held_stop [OF e(3)] by simp
  next
    case False
    then show thesis using that [of "pool_init 1" p0] assms(1) s e(2,3) i tp(1) acc by (simp add: main_process_def)
  qed
  note x = main_exit_effect [OF p1(1,3,2) tp(2) pool_sim_wf [OF q(1,2)] assms(4)]
  have "m_queue (sv_queue (pool_shutdown (px_server p1))) = []" using x(2,3) by (simp add: all_released_def)
  then show ?thesis using x closed_at_exit [OF q(1,2)] q(3) by simp
qed

text \<open>
  C18. The server starts and stops. If threads can be created and the port can be opened, \<^verbatim>\<open>main\<close>
  gets ready; and if the threads survive what the clients send, it returns after the first SIGINT
  or SIGTERM, with status 0.
\<close>

theorem main_returns:
  assumes "dump_law J" "\<forall>i. spawn i = None" "sig \<in> {SIGINT, SIGTERM}" "0 \<le> fd" "list_all (\<lambda>fd. 0 \<le> fd) (op_fds ops)"
    and "in_time secs (unat (m_threadPoolSize (fst (fromEnv env))))"
  shows "\<exists>p0. main_start J env errmsg spawn exposer fd Listening (initial_server clock steady rng others) = Some (None, p0)
    \<and> (\<forall>st. run_server J (fst (fromEnv env)) ops (px_server p0) = Some st \<longrightarrow>
        (\<exists>p. main_process J env errmsg spawn exposer fd Listening ops (sig # sigs) secs
               (initial_server clock steady rng others) = Some (0, p)))"
proof -
  let ?st0 = "initial_server clock steady rng others"
  have "ot_stack (sv_world ?st0) = []" by (simp add: initial_server_def)
  then obtain p0 where s: "main_start J env errmsg spawn exposer fd Listening ?st0 = Some (None, p0)"
    using main_start_ready [OF assms(1)] assms(2) by blast
  note e = main_start_effect [OF s assms(4)]
  obtain tp where tp: "px_pool p0 = Some tp" "full_pool (unat (m_threadPoolSize (fst (fromEnv env)))) tp" using e(4) by blast
  have i: "pool_sim (pool_init 1) (px_server p0)" using pool_sim_clients [OF pool_sim_initial e(1)] .
  have "\<exists>p. main_process J env errmsg spawn exposer fd Listening ops (sig # sigs) secs ?st0 = Some (0, p)"
    if r: "run_server J (fst (fromEnv env)) ops (px_server p0) = Some st" for st
  proof -
    let ?f = "signalHandler sig \<lparr>g_running = True, g_signal_received = 0\<rparr>"
    have "ot_stack (sv_world st) = []"
      using run_server_stack [OF r] i assms(5) e(1) by (simp add: pool_sim_def same_clients_def initial_server_def)
    then obtain p1 where p1: "main_finish J ?f (p0\<lparr>px_server := st\<rparr>) = Some p1"
      using main_finish_total [OF assms(1) _ assms(3), of "p0\<lparr>px_server := st\<rparr>" ?f] by (auto simp: signalHandler_def)
    obtain q where q: "(pool_step (m_maxClients (fst (fromEnv env))))\<^sup>*\<^sup>* (pool_init 1) q" "pool_sim q (px_server p1)"
      using run_server_sim [OF i r assms(5)] main_finish_effect [OF p1] pool_sim_clients by (metis process.select_convs(1) process.surjective process.update_convs(1))
    obtain status p where x: "main_exit secs 0 p1 = Some (status, p)"
      using main_exit_total [OF _ tp(2), of p1 secs 0] main_finish_effect [OF p1] tp(1) by auto
    have "status = 0"
      using main_exit_effect(1) [OF x _ _ tp(2) pool_sim_wf [OF q] assms(6)] main_finish_effect [OF p1] tp(1) listener_held_stop [OF e(3)] by simp
    then show ?thesis
      using s r p1 x wait_for_signal_first [of "\<lparr>g_running = True, g_signal_received = 0\<rparr>" sig sigs]
      by (simp add: main_process_def signalHandler_def)
  qed
  then show ?thesis using s by blast
qed

text \<open>A start without clients, ended by SIGTERM.\<close>

lemma sample_dump_law: "dump_law (sample_lib [] JNull)"
  by (simp add: dump_law_def)

lemma sample_in_time: "in_time (\<lambda>_. Some 1) k"
  by (simp add: in_time_def GRACEFUL_SHUTDOWN_TIMEOUT_SECS_def list_all_iff)

definition sample_main :: "(int \<times> process) option" where
  "sample_main = main_process (sample_lib [] JNull) (\<lambda>_. None) (\<lambda>_. []) (\<lambda>_. None) ExposerOk 3 Listening [] [SIGTERM]
     (\<lambda>_. Some 1) (initial_server (\<lambda>_. 0) (\<lambda>_. 0) (\<lambda>_. 0) [])"

lemma main_returns_witness: "\<exists>p. sample_main = Some (0, p)"
  using main_returns [of "sample_lib [] JNull" "\<lambda>_. None" SIGTERM 3 "[]" "\<lambda>_. Some 1" "\<lambda>_. None" "\<lambda>_. []" ExposerOk "\<lambda>_. 0" "\<lambda>_. 0" "\<lambda>_. 0" "[]" "[]"]
    sample_dump_law sample_in_time by (auto simp: sample_main_def)

lemma sample_main_returns: "\<exists>status p. sample_main = Some (status, p)"
proof -
  let ?st0 = "initial_server (\<lambda>_. 0) (\<lambda>_. 0) (\<lambda>_. 0) []"
  let ?f = "signalHandler SIGTERM \<lparr>g_running = True, g_signal_received = 0\<rparr>"
  have "ot_stack (sv_world ?st0) = []" by (simp add: initial_server_def)
  then obtain p0 where s: "main_start (sample_lib [] JNull) (\<lambda>_. None) (\<lambda>_. []) (\<lambda>_. None) ExposerOk 3 Listening ?st0 = Some (None, p0)"
    using main_start_ready [OF sample_dump_law, of "\<lambda>_. None"] by fastforce
  have "ot_stack (sv_world (px_server p0)) = []" using main_start_effect(1) [OF s] by (simp add: same_clients_def initial_server_def)
  then obtain p1 where p1: "main_finish (sample_lib [] JNull) ?f p0 = Some p1"
    using main_finish_total [OF sample_dump_law, of p0 SIGTERM ?f] by (auto simp: signalHandler_def)
  obtain tp where tp: "px_pool p0 = Some tp" "full_pool (unat (m_threadPoolSize (fst (fromEnv (\<lambda>_. None))))) tp"
    using main_start_effect(4) [OF s] by auto
  obtain status p where "main_exit (\<lambda>_. Some 1) 0 p1 = Some (status, p)"
    using main_exit_total [OF _ tp(2), of p1] main_finish_effect [OF p1] tp(1) by fastforce
  then show ?thesis using s p1 by (simp add: sample_main_def main_process_def signalHandler_def)
qed

lemma main_releases_all_witness:
  "\<exists>p. sample_main = Some (0, p) \<and> closes (ac_trace (px_acceptor p)) = [3] \<and> mset (w_closed (sv_world (px_server p))) = {#}"
proof -
  obtain status p where "sample_main = Some (status, p)" using sample_main_returns by blast
  then show ?thesis
    using main_releases_all [of "sample_lib [] JNull" "\<lambda>_. None" "\<lambda>_. []" "\<lambda>_. None" ExposerOk 3 Listening "[]" "[SIGTERM]" "\<lambda>_. Some 1"
        "\<lambda>_. 0" "\<lambda>_. 0" "\<lambda>_. 0" "[]" status p] sample_in_time by (simp add: sample_main_def all_released_def)
qed

end
