(* ===== verification/SpanExporter.thy ===== *)
theory SpanExporter
  imports OtelScope
begin

text \<open>
  The thread of \<^verbatim>\<open>BatchExporter\<close> in \<^verbatim>\<open>src/otelScope.cpp\<close>, interleaved with the threads that enqueue spans
  and with the destructor. A step is what a thread does between two points where it gives the mutex
  away: \<^verbatim>\<open>enqueue\<close>; a wait of the flusher that ends, for whatever reason, with the swap of the pending
  spans that follows; the POST without the mutex, with the test of \<^verbatim>\<open>m_running\<close> after it. The destructor clears
  \<^verbatim>\<open>m_running\<close>, joins the flusher and flushes once more. \<open>ex_posted\<close> holds the batches handed to
  \<^verbatim>\<open>httpPost\<close>. When \<^verbatim>\<open>dump\<close> throws in either thread, the process ends: \<open>ex_crashed\<close>.
  A POST that SIGPIPE cuts short ends the process too; then the run simply has no further step.
\<close>

datatype flusher = FStart | FWait | FPost "FinishedSpan list" | FExit
datatype exporter_owner = OAlive | OJoin | OPost "FinishedSpan list" | ODone

record exporter =
  ex_pending :: "FinishedSpan list"
  ex_running :: bool
  ex_flusher :: flusher
  ex_owner :: exporter_owner
  ex_posted :: "FinishedSpan list list"
  ex_crashed :: bool

definition exporter_init :: exporter where
  "exporter_init = \<lparr>ex_pending = [], ex_running = True, ex_flusher = FStart, ex_owner = OAlive, ex_posted = [], ex_crashed = False\<rparr>"

text \<open>\<^verbatim>\<open>while (m_running)\<close>.\<close>

definition loop_test :: "exporter \<Rightarrow> exporter" where
  "loop_test p = p\<lparr>ex_flusher := (if ex_running p then FWait else FExit)\<rparr>"

definition flusher_wake :: "exporter \<Rightarrow> exporter" where
  "flusher_wake p =
     (if ex_pending p = [] then loop_test p else p\<lparr>ex_flusher := FPost (ex_pending p), ex_pending := []\<rparr>)"

definition flusher_post :: "json_lib \<Rightarrow> FinishedSpan list \<Rightarrow> exporter \<Rightarrow> exporter" where
  "flusher_post J batch p =
     (case dump J (batch_json batch) of
        None \<Rightarrow> p\<lparr>ex_crashed := True\<rparr>
      | Some _ \<Rightarrow> loop_test (p\<lparr>ex_posted := ex_posted p @ [batch]\<rparr>))"

definition owner_stop :: "exporter \<Rightarrow> exporter" where
  "owner_stop p = p\<lparr>ex_running := False, ex_owner := OJoin\<rparr>"

definition owner_flush :: "exporter \<Rightarrow> exporter" where
  "owner_flush p =
     (if ex_pending p = [] then p\<lparr>ex_owner := ODone\<rparr> else p\<lparr>ex_owner := OPost (ex_pending p), ex_pending := []\<rparr>)"

definition owner_post :: "json_lib \<Rightarrow> FinishedSpan list \<Rightarrow> exporter \<Rightarrow> exporter" where
  "owner_post J batch p =
     (case dump J (batch_json batch) of
        None \<Rightarrow> p\<lparr>ex_crashed := True\<rparr>
      | Some _ \<Rightarrow> p\<lparr>ex_posted := ex_posted p @ [batch], ex_owner := ODone\<rparr>)"

datatype exporter_event = Enqueue FinishedSpan | Flusher | Owner

inductive exporter_step :: "json_lib \<Rightarrow> exporter_event \<Rightarrow> exporter \<Rightarrow> exporter \<Rightarrow> bool" for J :: json_lib where
  step_enqueue: "\<not> ex_crashed p \<Longrightarrow> exporter_step J (Enqueue s) p (p\<lparr>ex_pending := ex_pending p @ [s]\<rparr>)"
| step_start: "\<not> ex_crashed p \<Longrightarrow> ex_flusher p = FStart \<Longrightarrow> exporter_step J Flusher p (loop_test p)"
| step_wake: "\<not> ex_crashed p \<Longrightarrow> ex_flusher p = FWait \<Longrightarrow> exporter_step J Flusher p (flusher_wake p)"
| step_post: "\<not> ex_crashed p \<Longrightarrow> ex_flusher p = FPost b \<Longrightarrow> exporter_step J Flusher p (flusher_post J b p)"
| step_stop: "\<not> ex_crashed p \<Longrightarrow> ex_owner p = OAlive \<Longrightarrow> exporter_step J Owner p (owner_stop p)"
| step_join: "\<not> ex_crashed p \<Longrightarrow> ex_owner p = OJoin \<Longrightarrow> ex_flusher p = FExit \<Longrightarrow> exporter_step J Owner p (owner_flush p)"
| step_last: "\<not> ex_crashed p \<Longrightarrow> ex_owner p = OPost b \<Longrightarrow> exporter_step J Owner p (owner_post J b p)"

inductive_simps exporter_step_enqueue: "exporter_step J (Enqueue s) p q"
inductive_cases exporter_flusher: "exporter_step J Flusher p q"
inductive_cases exporter_owner: "exporter_step J Owner p q"

lemmas exporter_defs = loop_test_def flusher_wake_def flusher_post_def owner_stop_def owner_flush_def owner_post_def

inductive exporter_run :: "json_lib \<Rightarrow> exporter_event list \<Rightarrow> exporter \<Rightarrow> exporter \<Rightarrow> bool" for J :: json_lib where
  run_done: "exporter_run J [] p p"
| run_more: "exporter_run J es p q \<Longrightarrow> exporter_step J e q r \<Longrightarrow> exporter_run J (es @ [e]) p r"

fun enqueued_spans :: "exporter_event list \<Rightarrow> FinishedSpan list" where
  "enqueued_spans [] = []"
| "enqueued_spans (Enqueue s # es) = s # enqueued_spans es"
| "enqueued_spans (_ # es) = enqueued_spans es"

lemma enqueued_spans_append [simp]: "enqueued_spans (xs @ ys) = enqueued_spans xs @ enqueued_spans ys"
  by (induction xs rule: enqueued_spans.induct) simp_all

text \<open>The spans that a thread has taken out of the buffer and not handed over yet.\<close>

definition in_flight :: "exporter \<Rightarrow> FinishedSpan list" where
  "in_flight p = (case ex_flusher p of FPost b \<Rightarrow> b | _ \<Rightarrow> []) @ (case ex_owner p of OPost b \<Rightarrow> b | _ \<Rightarrow> [])"

text \<open>What holds in every reachable state: the destructor flushes only after the flusher has left.\<close>

definition exporter_inv :: "exporter \<Rightarrow> bool" where
  "exporter_inv p \<longleftrightarrow> (ex_running p \<longleftrightarrow> ex_owner p = OAlive)
     \<and> (ex_flusher p = FExit \<longrightarrow> \<not> ex_running p) \<and> (ex_owner p \<notin> {OAlive, OJoin} \<longrightarrow> ex_flusher p = FExit)
     \<and> (ex_flusher p \<noteq> FPost []) \<and> (ex_owner p \<noteq> OPost [])"

lemma exporter_step_inv:
  assumes "exporter_step J e p q" "exporter_inv p"
  shows "exporter_inv q"
  using assms
  by (cases rule: exporter_step.cases) (auto simp: exporter_inv_def exporter_defs split: option.splits if_splits)

definition accounted :: "exporter \<Rightarrow> FinishedSpan list" where
  "accounted p = concat (ex_posted p) @ in_flight p @ ex_pending p"

lemma exporter_step_accounted:
  assumes "exporter_step J e p q" "exporter_inv p"
  shows "accounted q = accounted p @ enqueued_spans [e]"
  using assms
  by (cases rule: exporter_step.cases)
     (auto simp: exporter_inv_def accounted_def in_flight_def exporter_defs split: option.splits if_splits flusher.splits exporter_owner.splits)

lemma exporter_run_inv:
  assumes "exporter_run J es p q" "exporter_inv p"
  shows "exporter_inv q \<and> accounted q = accounted p @ enqueued_spans es"
  using assms
  by (induction rule: exporter_run.induct) (auto simp: exporter_step_inv exporter_step_accounted)

subsection \<open>Shutting down\<close>

fun flusher_rank :: "flusher \<Rightarrow> nat" where
  "flusher_rank FStart = 1"
| "flusher_rank FWait = 2"
| "flusher_rank (FPost b) = 1"
| "flusher_rank FExit = 0"

fun owner_rank :: "exporter_owner \<Rightarrow> nat" where
  "owner_rank OAlive = 3"
| "owner_rank OJoin = 2"
| "owner_rank (OPost b) = 1"
| "owner_rank ODone = 0"

text \<open>The steps that are left: none after a crash.\<close>

definition steps_left :: "exporter \<Rightarrow> nat" where
  "steps_left p = (if ex_crashed p then 0 else flusher_rank (ex_flusher p) + owner_rank (ex_owner p))"

fun is_enqueue :: "exporter_event \<Rightarrow> bool" where
  "is_enqueue (Enqueue s) = True"
| "is_enqueue _ = False"

lemma steps_left_step:
  assumes "exporter_step J e p q" "\<not> ex_running p" "exporter_inv p"
  shows "\<not> ex_running q \<and> steps_left q + (if is_enqueue e then 0 else 1) \<le> steps_left p"
  using assms
  by (cases rule: exporter_step.cases)
     (auto simp: exporter_inv_def steps_left_def exporter_defs split: option.splits if_splits)

lemma steps_left_run:
  assumes "exporter_run J es p q" "\<not> ex_running p" "exporter_inv p"
  shows "\<not> ex_running q \<and> steps_left q + length (filter (\<lambda>e. \<not> is_enqueue e) es) \<le> steps_left p"
  using assms
proof (induction rule: exporter_run.induct)
  case (run_more es p q e r)
  have "exporter_inv q" using exporter_run_inv [OF run_more.hyps(1) run_more.prems(2)] by simp
  then show ?case using steps_left_step [OF run_more.hyps(2)] run_more.IH run_more.prems by fastforce
qed simp

lemma steps_left_bound: "\<not> ex_running p \<Longrightarrow> exporter_inv p \<Longrightarrow> steps_left p \<le> 4"
  by (cases "ex_flusher p"; cases "ex_owner p") (auto simp: steps_left_def exporter_inv_def)

lemma exporter_progress:
  assumes "exporter_inv p" "\<not> ex_crashed p" "ex_owner p \<noteq> ODone"
  shows "\<exists>e q. \<not> is_enqueue e \<and> exporter_step J e p q"
proof (cases "ex_flusher p")
  case FExit
  then show ?thesis
    using assms step_stop [OF assms(2)] step_join [OF assms(2)] step_last [OF assms(2)]
    by (cases "ex_owner p") (metis is_enqueue.simps(3))+
qed (use assms(2) step_start step_wake step_post is_enqueue.simps(2) in metis)+

lemma exporter_init_inv: "exporter_inv exporter_init" "accounted exporter_init = []"
  by (simp_all add: exporter_inv_def exporter_init_def accounted_def in_flight_def)

subsection \<open>Spans that can be serialised\<close>

lemma exporter_step_crash:
  assumes "exporter_step J e p q" "ex_crashed q"
  shows "\<exists>b. set b \<subseteq> set (in_flight p) \<and> dump J (batch_json b) = None"
proof -
  have "\<exists>b. (ex_flusher p = FPost b \<or> ex_owner p = OPost b) \<and> dump J (batch_json b) = None"
    using assms by (cases rule: exporter_step.cases) (auto simp: exporter_defs split: option.splits if_splits)
  then show ?thesis by (auto simp: in_flight_def)
qed

lemma exporter_run_safe:
  assumes "exporter_run J es exporter_init q" "dump_law J" "\<And>b. set b \<subseteq> set (enqueued_spans es) \<Longrightarrow> json_utf8 (batch_json b)"
  shows "\<not> ex_crashed q"
  using assms(1,3)
proof (cases rule: exporter_run.cases)
  case run_done
  then show ?thesis by (simp add: exporter_init_def)
next
  case (run_more es' q' e)
  have "accounted q' = enqueued_spans es'"
    using exporter_run_inv [OF run_more(2)] exporter_init_inv by simp
  moreover have "set (in_flight q') \<subseteq> set (accounted q')" by (auto simp: accounted_def)
  ultimately have "set (in_flight q') \<subseteq> set (enqueued_spans es)" using run_more(1) by auto
  then show ?thesis using exporter_step_crash [OF run_more(3)] assms(2,3) unfolding dump_law_def by blast
qed

subsection \<open>The sequential flush\<close>

text \<open>
  \<^verbatim>\<open>flush\<close> of theory \<open>OtelScope\<close>, which nobody interrupts, is one turn of the flusher here: the same
  buffer afterwards, the same batch handed over.
\<close>

definition waiting :: "FinishedSpan list \<Rightarrow> FinishedSpan list list \<Rightarrow> exporter" where
  "waiting pending posted = \<lparr>ex_pending = pending, ex_running = True, ex_flusher = FWait, ex_owner = OAlive,
     ex_posted = posted, ex_crashed = False\<rparr>"

lemma flush_turn:
  assumes "flush J conn ep w s = Some (w', s')"
  shows "\<exists>es. enqueued_spans es = [] \<and> exporter_run J es (waiting (ot_pending w) bs)
    (waiting (ot_pending w') (bs @ (if ot_pending w = [] then [] else [ot_pending w])))"
proof (cases "ot_pending w = []")
  case True
  then have "w' = w" using assms by (simp add: flush_def)
  then show ?thesis using True by (intro exI [of _ "[]"]) (simp add: run_done)
next
  case False
  let ?p = "waiting (ot_pending w) bs"
  obtain body where d: "dump J (batch_json (ot_pending w)) = Some body" and w': "ot_pending w' = []"
    using assms False by (auto simp: flush_def split: bind_splits prod.splits)
  have 1: "exporter_step J Flusher ?p (flusher_wake ?p)" by (rule step_wake) (simp_all add: waiting_def)
  have 2: "exporter_step J Flusher (flusher_wake ?p) (flusher_post J (ot_pending w) (flusher_wake ?p))"
    using False by (intro step_post) (simp_all add: waiting_def flusher_wake_def)
  have "flusher_post J (ot_pending w) (flusher_wake ?p) = waiting [] (bs @ [ot_pending w])"
    using False d by (simp add: waiting_def exporter_defs)
  then have "exporter_run J [Flusher, Flusher] ?p (waiting [] (bs @ [ot_pending w]))"
    using run_more [OF run_more [OF run_done 1] 2] by simp
  then show ?thesis using False w' by (intro exI [of _ "[Flusher, Flusher]"]) simp
qed

section \<open>Properties\<close>

text \<open>
  C15. The exporter neither loses nor duplicates nor reorders spans, however the enqueuing threads, the
  flusher and the destructor interleave: the batches handed to the collector so far, the batch in
  flight and the buffer are together exactly the spans that were enqueued, in their order. Once the
  destructor is done, everything has been handed over except what was enqueued after its last look at the buffer.
  If all texts are UTF-8, serialising never brings the process down.
\<close>

theorem exporter_conserves:
  assumes "exporter_run J es exporter_init q"
  shows "concat (ex_posted q) @ in_flight q @ ex_pending q = enqueued_spans es
    \<and> (ex_owner q = ODone \<longrightarrow> in_flight q = [])
    \<and> (dump_law J \<and> (\<forall>s \<in> set (enqueued_spans es). span_utf8 s) \<longrightarrow> \<not> ex_crashed q)"
proof -
  have i: "exporter_inv q" "accounted q = enqueued_spans es"
    using exporter_run_inv [OF assms] exporter_init_inv by auto
  have "in_flight q = []" if "ex_owner q = ODone"
    using that i(1) by (simp add: in_flight_def exporter_inv_def)
  moreover have "\<not> ex_crashed q" if "dump_law J" "\<forall>s \<in> set (enqueued_spans es). span_utf8 s"
    using that by (intro exporter_run_safe [OF assms]) (auto intro!: batch_json_utf8)
  ultimately show ?thesis using i(2) by (simp add: accounted_def)
qed

definition sample_span :: FinishedSpan where
  "sample_span = \<lparr>fs_traceId = ''a'', fs_spanId = ''b'', fs_parentSpanId = [], fs_name = ''op'', fs_startTimeNano = ''1'',
     fs_endTimeNano = ''2'', fs_statusCode = 0, fs_statusMessage = [], fs_attributes = []\<rparr>"

text \<open>A span is enqueued while the flusher starts; it wakes up and takes the batch.\<close>

lemma exporter_conserves_witness:
  "\<exists>q. exporter_run (sample_lib [] JNull) [Enqueue sample_span, Flusher, Flusher] exporter_init q
    \<and> concat (ex_posted q) @ in_flight q @ ex_pending q = [sample_span] \<and> \<not> ex_crashed q"
proof -
  let ?J = "sample_lib [] JNull"
  let ?p1 = "exporter_init\<lparr>ex_pending := [sample_span]\<rparr>"
  have 1: "exporter_step ?J (Enqueue sample_span) exporter_init ?p1"
    using step_enqueue [of exporter_init ?J sample_span] by (simp add: exporter_init_def)
  have 2: "exporter_step ?J Flusher ?p1 (loop_test ?p1)" by (rule step_start) (simp_all add: exporter_init_def)
  have 3: "exporter_step ?J Flusher (loop_test ?p1) (flusher_wake (loop_test ?p1))"
    by (rule step_wake) (simp_all add: exporter_init_def loop_test_def)
  have r: "exporter_run ?J [Enqueue sample_span, Flusher, Flusher] exporter_init (flusher_wake (loop_test ?p1))"
    using run_more [OF run_more [OF run_more [OF run_done 1] 2] 3] by simp
  have "dump_law ?J" "span_utf8 sample_span" by (auto simp: dump_law_def span_utf8_def sample_span_def utf8_literal)
  then show ?thesis using r exporter_conserves [OF r] by auto
qed

text \<open>
  C27. The destructor of the exporter ends. Once it has cleared \<^verbatim>\<open>m_running\<close>, at most four more
  steps of flusher and destructor are possible, however many spans other threads go on enqueuing; and as long as
  the destructor is not done and the process alive, one of the two can make a step: nobody waits for ever.
\<close>

theorem exporter_shutdown_terminates:
  assumes "exporter_run J es0 exporter_init p" "\<not> ex_running p" "exporter_run J es p q"
  shows "length (filter (\<lambda>e. \<not> is_enqueue e) es) \<le> 4
    \<and> (ex_crashed q \<or> ex_owner q = ODone \<or> (\<exists>e r. \<not> is_enqueue e \<and> exporter_step J e q r))"
proof
  have p: "exporter_inv p" using exporter_run_inv [OF assms(1)] exporter_init_inv by simp
  then have q: "exporter_inv q" using exporter_run_inv [OF assms(3)] by simp
  show "length (filter (\<lambda>e. \<not> is_enqueue e) es) \<le> 4"
    using steps_left_run [OF assms(3,2) p] steps_left_bound [OF assms(2) p] by simp
  show "ex_crashed q \<or> ex_owner q = ODone \<or> (\<exists>e r. \<not> is_enqueue e \<and> exporter_step J e q r)"
    using exporter_progress [OF q] by blast
qed

lemma exporter_shutdown_terminates_witness:
  "\<exists>p q. exporter_run (sample_lib [] JNull) [Owner] exporter_init p \<and> \<not> ex_running p
    \<and> exporter_run (sample_lib [] JNull) [Flusher] p q \<and> ex_owner q \<noteq> ODone
    \<and> (\<exists>e r. \<not> is_enqueue e \<and> exporter_step (sample_lib [] JNull) e q r)"
proof -
  let ?J = "sample_lib [] JNull" and ?p = "owner_stop exporter_init"
  have 1: "exporter_step ?J Owner exporter_init ?p" by (rule step_stop) (simp_all add: exporter_init_def)
  have 2: "exporter_step ?J Flusher ?p (loop_test ?p)" by (rule step_start) (simp_all add: exporter_init_def owner_stop_def)
  have r: "exporter_run ?J [Owner] exporter_init ?p" "exporter_run ?J [Flusher] ?p (loop_test ?p)"
    using run_more [OF run_done 1] run_more [OF run_done 2] by simp_all
  have q: "\<not> ex_running ?p" "\<not> ex_crashed (loop_test ?p)" "ex_owner (loop_test ?p) \<noteq> ODone"
    by (simp_all add: exporter_init_def owner_stop_def loop_test_def)
  show ?thesis using r q exporter_shutdown_terminates [OF r(1) q(1) r(2)] by blast
qed

end
