(* ===== verification/EopEnvelope.thy ===== *)
theory EopEnvelope
  imports MessageSerializer
begin

text \<open>
  \<^verbatim>\<open>client/src/eop_envelope.c\<close>: the envelope of the C client. Sizes are \<^verbatim>\<open>size_t\<close> (64 bits) or
  \<^verbatim>\<open>uint32_t\<close> as in the source, and wrap. A buffer is the memory it points to; \<^term>\<open>None\<close> as a payload
  argument is the null pointer. An access outside a buffer makes the result \<^term>\<open>None\<close>.
\<close>

datatype eop_error_code =
  EOP_OK | EOP_ERR_TIMEOUT | EOP_ERR_DISCONNECTED | EOP_ERR_CONNECT_FAILED | EOP_ERR_INVALID_ARGUMENT
  | EOP_ERR_ALLOC | EOP_ERR_NOT_ENOUGH_SPACE | EOP_ERR_INVALID_MESSAGE_TYPE

definition EOP_PROTOCOL_VERSION :: byte where "EOP_PROTOCOL_VERSION = 1"
definition EOP_ENVELOPE_HEADER_SIZE :: u32 where "EOP_ENVELOPE_HEADER_SIZE = 10"
definition EOP_REGISTER :: int where "EOP_REGISTER = 1"
definition EOP_ACK :: byte where "EOP_ACK = 2"
definition EOP_ERROR :: byte where "EOP_ERROR = 3"
definition EOP_QUERY_NODE :: int where "EOP_QUERY_NODE = 4"
definition EOP_LIST_NODES :: int where "EOP_LIST_NODES = 5"
definition EOP_HEARTBEAT :: int where "EOP_HEARTBEAT = 6"
definition EOP_EDGE_TELEMETRY :: int where "EOP_EDGE_TELEMETRY = 9"

definition eop_envelope_serialize ::
  "int \<Rightarrow> u32 \<Rightarrow> bytes option \<Rightarrow> u64 \<Rightarrow> bytes \<Rightarrow> u64 \<Rightarrow> (eop_error_code \<times> bytes) option" where
  "eop_envelope_serialize msg_type msg_id payload len out_buf out_len =
     (if out_len < ucast EOP_ENVELOPE_HEADER_SIZE + len then Some (EOP_ERR_NOT_ENOUGH_SPACE, out_buf)
      else if msg_type < EOP_REGISTER \<or> msg_type > EOP_EDGE_TELEMETRY
      then Some (EOP_ERR_INVALID_MESSAGE_TYPE, out_buf)
      else if payload = None \<and> len > 0 then Some (EOP_ERR_INVALID_ARGUMENT, out_buf)
      else do {
        out_buf \<leftarrow> write_at 0 [EOP_PROTOCOL_VERSION] out_buf;
        out_buf \<leftarrow> write_at 1 [word_of_int msg_type] out_buf;
        out_buf \<leftarrow> write_at 2 (store_u32 (htonl msg_id)) out_buf;
        out_buf \<leftarrow> write_at 6 (store_u32 (htonl (ucast len))) out_buf;
        out_buf \<leftarrow> (case payload of
            Some p \<Rightarrow>
              (if len > 0 then
                 (if unat len \<le> length p then write_at 10 (take (unat len) p) out_buf else None)
               else Some out_buf)
          | None \<Rightarrow> Some out_buf);
        Some (EOP_OK, out_buf)
      })"

text \<open>
  The decoder returns the type, the identifier and the length of the payload, which starts at
  offset 10 of the buffer. \<open>outs\<close>: none of the output pointers is null. \<open>buf\<close> has at least \<open>len\<close> bytes.
\<close>

definition eop_envelope_deserialize ::
  "bytes \<Rightarrow> u64 \<Rightarrow> bool \<Rightarrow> eop_error_code + (byte \<times> u32 \<times> u64)" where
  "eop_envelope_deserialize buf len outs =
     (if len < ucast EOP_ENVELOPE_HEADER_SIZE then Inl EOP_ERR_INVALID_ARGUMENT
      else if buf ! 0 \<noteq> EOP_PROTOCOL_VERSION then Inl EOP_ERR_INVALID_ARGUMENT
      else if \<not> outs then Inl EOP_ERR_INVALID_ARGUMENT
      else
        let msg_type = buf ! 1 in
        if uint msg_type < EOP_REGISTER \<or> uint msg_type > EOP_EDGE_TELEMETRY then Inl EOP_ERR_INVALID_MESSAGE_TYPE
        else
          let msg_id = ntohl (load_u32 (drop 2 buf));
              payload_len = ntohl (load_u32 (drop 6 buf))
          in if len < ucast (EOP_ENVELOPE_HEADER_SIZE + payload_len) then Inl EOP_ERR_INVALID_ARGUMENT
             else Inr (msg_type, msg_id, ucast payload_len))"

text \<open>The envelope as the protocol lays it out.\<close>

definition envelope_bytes :: "byte \<Rightarrow> u32 \<Rightarrow> bytes \<Rightarrow> bytes" where
  "envelope_bytes t i pl = [1, t] @ writeU32BE i @ writeU32BE (word_of_nat (length pl)) @ pl"

subsection \<open>Lemmas\<close>

lemma store_htonl: "store_u32 (htonl v) = writeU32BE v"
proof -
  obtain a b c d where s: "store_u32 v = [a, b, c, d]" by (simp add: store_u32_def)
  have "store_u32 (load_u32 [d, c, b, a]) = [d, c, b, a]"
    unfolding store_u32_def
    by (simp, intro conjI; rule bit_word_eqI) (auto simp: bit_simps dest: bit_imp_le_length)
  then show ?thesis by (simp add: htonl_def ntohl_def writeU32BE_store s del: load_u32.simps)
qed

lemma length_envelope_bytes [simp]: "length (envelope_bytes t i pl) = 10 + length pl"
  by (simp add: envelope_bytes_def)

lemma frame_envelope:
  "frame_bytes type i pl =
     writeU32BE (word_of_nat (10 + length pl)) @ envelope_bytes (MessageType_to_byte type) i (bytes_of_string pl)"
  by (simp add: frame_bytes_def envelope_bytes_def)

lemma ucast_len: "(ucast (word_of_nat n :: u64) :: u32) = word_of_nat n"
  by (simp add: unsigned_of_nat word_unat_eq_iff unat_of_nat)

lemma unat_u64: "n < 2 ^ 64 \<Longrightarrow> unat (word_of_nat n :: u64) = n"
  by (simp add: unat_of_nat take_bit_nat_eq_self)

text \<open>Writing a header of ten bytes at the front of a buffer.\<close>

lemma write_header:
  assumes "10 \<le> length buf" "length a = 4" "length b = 4"
  shows "do { buf \<leftarrow> write_at 0 [x] buf; buf \<leftarrow> write_at 1 [y] buf; buf \<leftarrow> write_at 2 a buf; write_at 6 b buf }
    = Some ([x, y] @ a @ b @ drop 10 buf)"
proof -
  obtain h r where b: "buf = h @ r" "length h = 10" using assms(1) by (metis append_take_drop_id length_take min.absorb2)
  obtain h0 h1 h2 h3 h4 h5 h6 h7 h8 h9 where h: "h = [h0, h1, h2, h3, h4, h5, h6, h7, h8, h9]"
    using b(2) by (auto simp: length_Suc_conv eval_nat_numeral)
  obtain a0 a1 a2 a3 where a: "a = [a0, a1, a2, a3]" using assms(2) by (auto simp: length_Suc_conv eval_nat_numeral)
  obtain b0 b1 b2 b3 where b': "b = [b0, b1, b2, b3]" using assms(3) by (auto simp: length_Suc_conv eval_nat_numeral)
  show ?thesis by (simp add: b(1) h a b' write_at_def)
qed

lemma serialize_envelope:
  assumes "length p < 2 ^ 63" "length buf = 10 + length p" "1 \<le> t" "t \<le> 9"
  shows "eop_envelope_serialize t i (Some p) (word_of_nat (length p)) buf (word_of_nat (10 + length p)) =
    Some (EOP_OK, envelope_bytes (word_of_int t) i p)"
proof -
  let ?h = "[EOP_PROTOCOL_VERSION, word_of_int t] @ writeU32BE i @ writeU32BE (word_of_nat (length p))"
  have l: "unat (word_of_nat (length p) :: u64) = length p" using assms(1) by (intro unat_u64) simp
  have room: "\<not> (word_of_nat (10 + length p) :: u64) < ucast EOP_ENVELOPE_HEADER_SIZE + word_of_nat (length p)"
    by (simp add: EOP_ENVELOPE_HEADER_SIZE_def)
  have pos: "(0 :: u64) < word_of_nat (length p) \<longleftrightarrow> p \<noteq> []" using l by (simp add: word_less_nat_alt)
  have d: "write_at 10 p (?h @ drop 10 buf) = Some (?h @ p)"
    using assms(2) by (simp add: write_at_def)
  have hdr: "do { buf \<leftarrow> write_at 0 [EOP_PROTOCOL_VERSION] buf; buf \<leftarrow> write_at 1 [word_of_int t] buf;
      buf \<leftarrow> write_at 2 (writeU32BE i) buf; write_at 6 (writeU32BE (word_of_nat (length p))) buf }
    = Some (?h @ drop 10 buf)"
    using write_header [of buf "writeU32BE i"] assms(2) by simp
  then obtain b1 b2 b3 where "write_at 0 [EOP_PROTOCOL_VERSION] buf = Some b1" "write_at 1 [word_of_int t] b1 = Some b2"
      "write_at 2 (writeU32BE i) b2 = Some b3"
      "write_at 6 (writeU32BE (word_of_nat (length p))) b3 = Some (?h @ drop 10 buf)"
    by (auto simp: bind_eq_Some_conv simp del: append.simps)
  then show ?thesis
    using assms(2-4) room pos d
    by (auto simp: eop_envelope_serialize_def EOP_REGISTER_def EOP_EDGE_TELEMETRY_def store_htonl ucast_len l
        envelope_bytes_def EOP_PROTOCOL_VERSION_def simp del: of_nat_add)
qed

text \<open>Reading the envelope back from a buffer that holds it.\<close>

lemma deserialize_envelope:
  assumes "length p < 2 ^ 32 - 10" "uint t \<in> {1..9}"
  shows "eop_envelope_deserialize (envelope_bytes t i p @ rest) (word_of_nat (10 + length p)) True =
    Inr (t, i, word_of_nat (length p))"
proof -
  let ?b = "envelope_bytes t i p @ rest"
  have nth: "?b ! 0 = 1" "?b ! 1 = t" by (simp_all add: envelope_bytes_def)
  have d: "drop 2 ?b = writeU32BE i @ writeU32BE (word_of_nat (length p)) @ p @ rest"
    "drop 6 ?b = writeU32BE (word_of_nat (length p)) @ p @ rest"
    by (simp_all add: envelope_bytes_def)
  have ld: "ntohl (load_u32 (drop 2 ?b)) = i" "ntohl (load_u32 (drop 6 ?b)) = word_of_nat (length p)"
    unfolding d by (rule ntohl_load_writeU32BE)+
  have u: "unat (word_of_nat (length p) :: u32) = length p" using assms(1) by (intro unat_len_u32) simp
  have "EOP_ENVELOPE_HEADER_SIZE + word_of_nat (length p) = (word_of_nat (10 + length p) :: u32)"
    by (simp add: EOP_ENVELOPE_HEADER_SIZE_def)
  moreover have "unat (word_of_nat (10 + length p) :: u32) = 10 + length p"
    using assms(1) by (intro unat_len_u32) simp
  ultimately have hd: "(ucast (EOP_ENVELOPE_HEADER_SIZE + word_of_nat (length p) :: u32) :: u64) = word_of_nat (10 + length p)"
    by (metis of_nat_unat)
  have pl: "(ucast (word_of_nat (length p) :: u32) :: u64) = word_of_nat (length p)" by (metis u of_nat_unat)
  have big: "\<not> (word_of_nat (10 + length p) :: u64) < ucast EOP_ENVELOPE_HEADER_SIZE"
    using unat_u64 [of "10 + length p"] assms(1)
    by (simp add: word_less_nat_alt EOP_ENVELOPE_HEADER_SIZE_def del: of_nat_add)
  show ?thesis
    unfolding eop_envelope_deserialize_def Let_def ld hd pl nth using big assms(2)
    by (simp add: EOP_PROTOCOL_VERSION_def EOP_REGISTER_def EOP_EDGE_TELEMETRY_def del: of_nat_add)
qed

section \<open>Properties\<close>

text \<open>
  C26. Envelopes of the client survive: what \<^verbatim>\<open>eop_envelope_serialize\<close> writes for a message type of
  the protocol, \<^verbatim>\<open>eop_envelope_deserialize\<close> reads back, with the payload at offset ten.
\<close>

theorem envelope_roundtrip:
  assumes "eop_envelope_serialize t i (Some p) (word_of_nat (length p)) buf (word_of_nat (10 + length p)) = Some (EOP_OK, out)"
    and "length p < 2 ^ 32 - 10" "length buf = 10 + length p" "1 \<le> t" "t \<le> 9"
  shows "eop_envelope_deserialize out (word_of_nat (10 + length p)) True = Inr (word_of_int t, i, word_of_nat (length p))
    \<and> drop 10 out = p"
proof -
  have "length p < 2 ^ 63" using assms(2) by simp
  then have out: "out = envelope_bytes (word_of_int t) i p"
    using serialize_envelope [OF _ assms(3-5), of i] assms(1) by (simp del: of_nat_add)
  have "uint (word_of_int t :: byte) = t" using assms(4,5) by (simp add: uint_word_of_int)
  then show ?thesis
    using deserialize_envelope [OF assms(2), of "word_of_int t" i "[]"] assms(4,5) length_writeU32BE
    by (simp add: out envelope_bytes_def)
qed

lemma envelope_roundtrip_witness:
  "\<exists>out. eop_envelope_serialize 3 7 (Some [1, 2]) 2 (replicate 12 0) 12 = Some (EOP_OK, out)
    \<and> eop_envelope_deserialize out 12 True = Inr (3, 7, 2)"
proof -
  have s: "eop_envelope_serialize 3 7 (Some [1, 2]) (word_of_nat (length [1 :: byte, 2])) (replicate 12 0) (word_of_nat (10 + length [1 :: byte, 2]))
      = Some (EOP_OK, envelope_bytes (word_of_int 3) 7 [1, 2])"
    by (rule serialize_envelope) simp_all
  show ?thesis using envelope_roundtrip [OF s] s by simp
qed

text \<open>
  A length field can lie. The check against the buffer adds in 32 bits, so a bare header of ten
  bytes whose length field is 0xFFFFFFF6 or more is accepted, and the caller is told of a
  payload of about 4 GiB behind it.
\<close>

theorem deserialize_accepts_lying_length:
  assumes "0xFFFFFFF6 \<le> n" "uint t \<in> {1..9}"
  shows "eop_envelope_deserialize ([1, t] @ writeU32BE i @ writeU32BE n) 10 True = Inr (t, i, ucast n)"
proof -
  have l: "ntohl (load_u32 (writeU32BE n)) = n" using ntohl_load_writeU32BE [of n "[]"] by simp
  have "EOP_ENVELOPE_HEADER_SIZE + n \<le> 9"
  proof -
    have "unat n \<ge> 4294967286" using assms(1) by (simp add: word_le_nat_alt)
    then have "unat (10 + n) \<le> 9"
      using unsigned_less [of n, where 'a = nat] le_mod_geq [of 4294967296 "10 + unat n"] by (simp add: unat_word_ariths)
    then show ?thesis by (simp add: EOP_ENVELOPE_HEADER_SIZE_def word_le_nat_alt)
  qed
  then have "unat (EOP_ENVELOPE_HEADER_SIZE + n) \<le> 9" by (simp add: word_le_nat_alt)
  then have "\<not> (10 :: u64) < ucast (EOP_ENVELOPE_HEADER_SIZE + n)"
    by (simp add: word_less_nat_alt unsigned_ucast_eq take_bit_nat_eq_self)
  moreover have "drop 2 ([1, t] @ writeU32BE i @ writeU32BE n) = writeU32BE i @ writeU32BE n"
    "drop 6 ([1, t] @ writeU32BE i @ writeU32BE n) = writeU32BE n" by simp_all
  ultimately show ?thesis
    using assms(2) l
    by (simp add: eop_envelope_deserialize_def Let_def EOP_REGISTER_def EOP_EDGE_TELEMETRY_def EOP_PROTOCOL_VERSION_def
        EOP_ENVELOPE_HEADER_SIZE_def)
qed

lemma deserialize_accepts_lying_length_witness:
  "eop_envelope_deserialize ([1, 2] @ writeU32BE 7 @ writeU32BE 0xFFFFFFFF) 10 True = Inr (2, 7, 0xFFFFFFFF)"
  using deserialize_accepts_lying_length [of "0xFFFFFFFF" 2 7] by simp

end
