(* ===== verification/EopClient.thy ===== *)
theory EopClient
  imports EopEnvelope
begin

text \<open>
  \<^verbatim>\<open>client/src/eop_client.c\<close>: the C client library. The result of \<^verbatim>\<open>malloc\<close>, \<^verbatim>\<open>inet_pton\<close>, \<^verbatim>\<open>socket\<close>,
  \<^verbatim>\<open>connect\<close>, \<^verbatim>\<open>poll\<close> and \<^verbatim>\<open>getsockopt\<close> are arguments; the connected socket is an \<open>io\<close> script (theory
  \<open>Posix\<close>) with a script of \<^verbatim>\<open>poll\<close> results in front. When the script of polls is used up, \<^verbatim>\<open>poll\<close>
  reports readiness as long as something is left to read. Functions run under the handle's
  mutex from the assignment of the identifier to the return, so calls on one handle are
  sequential.

  The two error records of the library are its global (per thread) one and the one of the
  handle; a C string of a fixed buffer is the text it holds.
\<close>

definition EOP_CONNECT_TIMEOUT :: int where "EOP_CONNECT_TIMEOUT = 5000"
definition EOP_ERROR_MSG_SIZE :: nat where "EOP_ERROR_MSG_SIZE = 256"
definition EOP_MAX_HOST_LEN :: nat where "EOP_MAX_HOST_LEN = 256"
definition EOP_FRAME_PREFIX_SIZE :: nat where "EOP_FRAME_PREFIX_SIZE = 4"
definition TCP_PORT_MIN_VALUE :: int where "TCP_PORT_MIN_VALUE = 1"
definition TCP_PORT_MAX_VALUE :: int where "TCP_PORT_MAX_VALUE = 65535"

record eop_error =
  ee_code :: eop_error_code
  ee_msg :: string

record eop_client =
  ec_socket_fd :: int
  ec_error :: eop_error
  ec_connection_timeout_ms :: int
  ec_next_msg_id :: u32
  ec_host :: string
  ec_port :: int

record eop_response =
  er_msg_type :: byte
  er_msg_id :: u32
  er_payload :: bytes

text \<open>\<^verbatim>\<open>strncpy(dst, src, n - 1); dst[n - 1] = 0\<close>: the text that is in \<open>dst\<close> afterwards.\<close>

definition strncpy_text :: "nat \<Rightarrow> string \<Rightarrow> string" where
  "strncpy_text n src = take (n - 1) src"

definition set_error :: "eop_error_code \<Rightarrow> string \<Rightarrow> eop_error" where
  "set_error code msg = \<lparr>ee_code = code, ee_msg = strncpy_text EOP_ERROR_MSG_SIZE msg\<rparr>"

definition set_client_error :: "eop_error_code \<Rightarrow> string \<Rightarrow> eop_client \<Rightarrow> eop_client" where
  "set_client_error code msg client = client\<lparr>ec_error := set_error code msg\<rparr>"

subsection \<open>Connecting\<close>

record connect_env =
  cv_alloc :: bool
  cv_pton :: bool
  cv_socket :: int
  cv_connect :: "errno option"
  cv_poll :: int
  cv_sockopt :: "int option"

text \<open>
  The part that \<^verbatim>\<open>eop_connect\<close> and \<^verbatim>\<open>eop_reconnect\<close> have in common, from \<^verbatim>\<open>connect\<close> on: the error
  and its text, or success. \<open>cv_connect\<close> is the \<^verbatim>\<open>errno\<close> of a failing \<^verbatim>\<open>connect\<close>; \<open>cv_sockopt\<close> the
  \<^verbatim>\<open>so_error\<close> that \<^verbatim>\<open>getsockopt\<close> stores when it succeeds.
\<close>

definition finish_connect :: "string \<times> string \<times> string \<times> string \<Rightarrow> connect_env \<Rightarrow> (eop_error_code \<times> string) option" where
  "finish_connect texts env =
     (case texts of (refused, timedOut, pollFailed, failed) \<Rightarrow>
        if cv_connect env \<noteq> None \<and> cv_connect env \<noteq> Some EINPROGRESS then Some (EOP_ERR_CONNECT_FAILED, refused)
        else if cv_poll env = 0 then Some (EOP_ERR_TIMEOUT, timedOut)
        else if cv_poll env < 0 then Some (EOP_ERR_CONNECT_FAILED, pollFailed)
        else if cv_sockopt env \<noteq> Some 0 then Some (EOP_ERR_CONNECT_FAILED, failed)
        else None)"

text \<open>The handle or null, the global error, and the descriptors closed.\<close>

definition eop_connect ::
  "string option \<Rightarrow> int \<Rightarrow> int \<Rightarrow> connect_env \<Rightarrow> eop_client option \<times> eop_error \<times> int list" where
  "eop_connect host port timeout_ms env =
     (case host of
        None \<Rightarrow> (None, set_error EOP_ERR_INVALID_ARGUMENT ''Invalid host'', [])
      | Some h \<Rightarrow>
          if port < TCP_PORT_MIN_VALUE \<or> port > TCP_PORT_MAX_VALUE
          then (None, set_error EOP_ERR_INVALID_ARGUMENT ''Invalid port number'', [])
          else if \<not> cv_alloc env then (None, set_error EOP_ERR_ALLOC ''Failed to allocate client handle'', [])
          else if \<not> cv_pton env then (None, set_error EOP_ERR_INVALID_ARGUMENT ''Invalid host address'', [])
          else if cv_socket env < 0 then (None, set_error EOP_ERR_CONNECT_FAILED ''Failed to create socket'', [])
          else (case finish_connect (''Connection refused'', ''Connection timed out'',
                       ''Poll failed during connection'', ''Connection failed after poll'') env of
                  Some (code, text) \<Rightarrow> (None, set_error code text, [cv_socket env])
                | None \<Rightarrow>
                    (Some \<lparr>ec_socket_fd = cv_socket env, ec_error = \<lparr>ee_code = EOP_OK, ee_msg = []\<rparr>,
                           ec_connection_timeout_ms = (if timeout_ms > 0 then timeout_ms else EOP_CONNECT_TIMEOUT),
                           ec_next_msg_id = 0, ec_host = strncpy_text EOP_MAX_HOST_LEN h, ec_port = port\<rparr>,
                     set_error EOP_OK [], [])))"

definition eop_last_error ::
  "eop_client option \<Rightarrow> eop_error \<Rightarrow> nat option \<Rightarrow> eop_error_code \<times> string option" where
  "eop_last_error client glob buffer_size =
     (let e = (case client of None \<Rightarrow> glob | Some c \<Rightarrow> ec_error c)
      in (ee_code e, case buffer_size of
                       Some n \<Rightarrow> (if n > 0 then Some (strncpy_text n (ee_msg e)) else None)
                     | None \<Rightarrow> None))"

definition eop_disconnect :: "eop_client option \<Rightarrow> int list" where
  "eop_disconnect client = (case client of None \<Rightarrow> [] | Some c \<Rightarrow> [ec_socket_fd c])"

definition eop_reconnect ::
  "eop_client option \<Rightarrow> int \<Rightarrow> connect_env \<Rightarrow> eop_error
     \<Rightarrow> eop_error_code \<times> eop_client option \<times> eop_error \<times> int list" where
  "eop_reconnect client timeout_ms env glob =
     (case client of
        None \<Rightarrow> (EOP_ERR_INVALID_ARGUMENT, None, set_error EOP_ERR_INVALID_ARGUMENT ''Invalid client handle'', [])
      | Some c \<Rightarrow>
          let old = ec_socket_fd c; c = c\<lparr>ec_socket_fd := - 1\<rparr> in
          if \<not> cv_pton env
          then (EOP_ERR_INVALID_ARGUMENT,
                Some (set_client_error EOP_ERR_INVALID_ARGUMENT ''Invalid stored host address'' c), glob, [old])
          else if cv_socket env < 0
          then (EOP_ERR_CONNECT_FAILED,
                Some (set_client_error EOP_ERR_CONNECT_FAILED ''Failed to create socket on reconnect'' c), glob, [old])
          else (case finish_connect (''Reconnect refused'', ''Reconnect timed out'',
                       ''Poll failed during reconnect'', ''Reconnect failed after poll'') env of
                  Some (code, text) \<Rightarrow> (code, Some (set_client_error code text c), glob, [old, cv_socket env])
                | None \<Rightarrow>
                    (EOP_OK, Some (c\<lparr>ec_socket_fd := cv_socket env, ec_error := \<lparr>ee_code = EOP_OK, ee_msg = []\<rparr>\<rparr>),
                     glob, [old])))"

subsection \<open>Socket loops\<close>

datatype poll_result = PollReady | PollTimeout | PollError

type_synonym client_io = "poll_result list \<times> io"

definition client_poll :: "client_io \<Rightarrow> poll_result \<times> client_io" where
  "client_poll ci =
     (case ci of
        (p # ps, s) \<Rightarrow> (p, (ps, s))
      | ([], s) \<Rightarrow> (if io_rx s = [] then PollTimeout else PollReady, ([], s)))"

text \<open>The texts of the four failures of a receive loop: timeout, poll, end of stream, \<^verbatim>\<open>recv\<close>.\<close>

type_synonym recv_texts = "string \<times> string \<times> string \<times> string"

function client_recv :: "recv_texts \<Rightarrow> nat \<Rightarrow> bytes \<Rightarrow> client_io \<Rightarrow> ((eop_error_code \<times> string) + bytes) \<times> client_io" where
  "client_recv texts n buf ci =
     (if length buf < n then
        (case client_poll ci of
           (PollTimeout, ci') \<Rightarrow> (Inl (EOP_ERR_TIMEOUT, fst texts), ci')
         | (PollError, ci') \<Rightarrow> (Inl (EOP_ERR_DISCONNECTED, fst (snd texts)), ci')
         | (PollReady, ci') \<Rightarrow>
             (case recv (n - length buf) (snd ci') of
                (RecvBytes r, s') \<Rightarrow>
                  (if r = [] then (Inl (EOP_ERR_DISCONNECTED, fst (snd (snd texts))), (fst ci', s'))
                   else client_recv texts n (buf @ r) (fst ci', s'))
              | (RecvErr e, s') \<Rightarrow> (Inl (EOP_ERR_DISCONNECTED, snd (snd (snd texts))), (fst ci', s'))))
      else (Inr buf, ci))"
  by pat_completeness auto
termination
  by (relation "measure (\<lambda>(texts, n, buf, ci). rx_size (io_rx (snd ci)))")
     (auto simp: recv_def client_poll_def dest!: recv_event_size
       split: prod.splits recv_result.splits list.splits if_splits)

declare client_recv.simps [simp del]

text \<open>
  The sending loop passes no flags to \<^verbatim>\<open>send\<close>, and the library leaves the disposition of SIGPIPE alone: a
  \<^verbatim>\<open>send\<close> that would fail with EPIPE ends the process, \<^term>\<open>None\<close>.
\<close>

function client_send :: "bytes \<Rightarrow> io \<Rightarrow> (bool \<times> io) option" where
  "client_send data s =
     (if data \<noteq> [] then
        (case send data s of
           (SendErr e, s') \<Rightarrow> (if e = EPIPE then None else Some (False, s'))
         | (SendCount k, s') \<Rightarrow> client_send (drop k data) s')
      else Some (True, s))"
  by pat_completeness auto
termination
  by (relation "measures [\<lambda>(data, s). length (io_tx s), \<lambda>(data, s). length data]")
     (auto simp: send_def dest: send_event_size split: prod.splits send_result.splits)

declare client_send.simps [simp del]

subsection \<open>Commands\<close>

definition prefix_texts :: recv_texts where
  "prefix_texts = (''Timeout waiting for frame length prefix'', ''Poll error waiting for frame length prefix'',
     ''Server closed connection'', ''Recv error reading frame length prefix'')"

definition header_texts :: recv_texts where
  "header_texts = (''Timeout waiting for response header'', ''Poll error waiting for response header'',
     ''Server closed connection'', ''Recv error reading response header'')"

definition payload_texts :: recv_texts where
  "payload_texts = (''Timeout waiting for response payload'', ''Poll error waiting for response payload'',
     ''Server closed connection during payload recv'', ''Recv error reading response payload'')"

text \<open>The results of the three \<^verbatim>\<open>malloc\<close> calls: send buffer, response payload, response.\<close>

record command_alloc =
  ca_send :: bool
  ca_payload :: bool
  ca_response :: bool

definition eop_response_create :: "bool \<Rightarrow> byte \<Rightarrow> u32 \<Rightarrow> bytes \<Rightarrow> eop_response option" where
  "eop_response_create allocated msg_type msg_id payload =
     (if allocated then Some \<lparr>er_msg_type = msg_type, er_msg_id = msg_id, er_payload = payload\<rparr> else None)"

text \<open>A command that succeeded leaves no error behind.\<close>

definition clear_client_error :: "eop_client \<Rightarrow> eop_client" where
  "clear_client_error c = c\<lparr>ec_error := \<lparr>ee_code = EOP_OK, ee_msg = []\<rparr>\<rparr>"

declare eop_response_create_def [simp] clear_client_error_def [simp]

text \<open>Phases 0 to 2: the prefix, the header, the payload.\<close>

definition receive_payload ::
  "command_alloc \<Rightarrow> byte \<Rightarrow> u32 \<Rightarrow> u32 \<Rightarrow> client_io \<Rightarrow> ((eop_error_code \<times> string) + eop_response) \<times> client_io" where
  "receive_payload al msg_type msg_id payload_len ci =
     (let (r, ci) =
        (if payload_len > 0 then
           (if \<not> ca_payload al then (Inl (EOP_ERR_ALLOC, ''Failed to allocate response payload buffer''), ci)
            else client_recv payload_texts (unat payload_len) [] ci)
         else (Inr [], ci))
      in case r of
           Inl e \<Rightarrow> (Inl e, ci)
         | Inr bs \<Rightarrow>
             (case eop_response_create (ca_response al) msg_type msg_id bs of
                None \<Rightarrow> (Inl (EOP_ERR_ALLOC, ''Failed to allocate response struct''), ci)
              | Some response \<Rightarrow> (Inr response, ci)))"

definition receive_header ::
  "command_alloc \<Rightarrow> client_io \<Rightarrow> ((eop_error_code \<times> string) + eop_response) \<times> client_io" where
  "receive_header al ci =
     (case client_recv header_texts (unat EOP_ENVELOPE_HEADER_SIZE) [] ci of
        (Inl e, ci) \<Rightarrow> (Inl e, ci)
      | (Inr header, ci) \<Rightarrow>
          (if header ! 0 \<noteq> EOP_PROTOCOL_VERSION
           then (Inl (EOP_ERR_DISCONNECTED, ''Unsupported protocol version in response''), ci)
           else receive_payload al (header ! 1) (ntohl (load_u32 (drop 2 header)))
                  (ntohl (load_u32 (drop 6 header))) ci))"

definition receive_response ::
  "command_alloc \<Rightarrow> client_io \<Rightarrow> ((eop_error_code \<times> string) + eop_response) \<times> client_io" where
  "receive_response al ci =
     (case client_recv prefix_texts EOP_FRAME_PREFIX_SIZE [] ci of
        (Inl e, ci) \<Rightarrow> (Inl e, ci)
      | (Inr pre, ci) \<Rightarrow> receive_header al ci)"

text \<open>The send buffer: the length prefix and the serialised envelope, in a block of \<open>send_buf_size\<close> bytes.\<close>

definition build_command ::
  "int \<Rightarrow> u32 \<Rightarrow> bytes option \<Rightarrow> u64 \<Rightarrow> (eop_error_code \<times> bytes) option" where
  "build_command msg_type msg_id payload payload_len = do {
     let frame_body_size = ucast EOP_ENVELOPE_HEADER_SIZE + payload_len;
     let send_buf_size = (4 :: u64) + frame_body_size;
     let send_buf = replicate (unat send_buf_size) 0;
     send_buf \<leftarrow> write_at 0 (store_u32 (htonl (ucast frame_body_size))) send_buf;
     (rc, body) \<leftarrow> eop_envelope_serialize msg_type msg_id payload payload_len (drop 4 send_buf) frame_body_size;
     Some (rc, take 4 send_buf @ body)
   }"

definition eop_send_command ::
  "command_alloc \<Rightarrow> eop_client option \<Rightarrow> int \<Rightarrow> bytes option \<Rightarrow> u64 \<Rightarrow> eop_error \<Rightarrow> client_io
     \<Rightarrow> (eop_response option \<times> eop_client option \<times> eop_error \<times> client_io) option" where
  "eop_send_command al client msg_type payload payload_len glob ci =
     (case client of
        None \<Rightarrow> Some (None, None, set_error EOP_ERR_INVALID_ARGUMENT ''Invalid client handle'', ci)
      | Some c \<Rightarrow>
          if payload = None \<and> payload_len > 0
          then Some (None, Some c, set_error EOP_ERR_INVALID_ARGUMENT ''Payload is NULL but payload_len > 0'', ci)
          else
            let msg_id = ec_next_msg_id c; c = c\<lparr>ec_next_msg_id := msg_id + 1\<rparr> in
            if \<not> ca_send al
            then Some (None, Some (set_client_error EOP_ERR_ALLOC ''Failed to allocate send buffer'' c), glob, ci)
            else do {
              (rc, buf) \<leftarrow> build_command msg_type msg_id payload payload_len;
              if rc \<noteq> EOP_OK then Some (None, Some (set_client_error rc ''Failed to serialize envelope'' c), glob, ci)
              else
                do {
                  (sent, s) \<leftarrow> client_send buf (snd ci);
                  let ci = (fst ci, s);
                  if \<not> sent then Some (None, Some (set_client_error EOP_ERR_DISCONNECTED ''Send failed'' c), glob, ci)
                  else
                    (case receive_response al ci of
                       (Inl (code, text), ci) \<Rightarrow> Some (None, Some (set_client_error code text c), glob, ci)
                     | (Inr response, ci) \<Rightarrow>
                         Some (Some response, Some (clear_client_error c), glob, ci))
                }
            })"

subsection \<open>Lemmas on commands\<close>

lemma build_command_ok:
  assumes "length p < 2 ^ 32" "1 \<le> t" "t \<le> 9"
  shows "build_command t i (Some p) (word_of_nat (length p)) =
    Some (EOP_OK, writeU32BE (word_of_nat (10 + length p)) @ envelope_bytes (word_of_int t) i p)"
proof -
  have body: "ucast EOP_ENVELOPE_HEADER_SIZE + word_of_nat (length p) = (word_of_nat (10 + length p) :: u64)"
    by (simp add: EOP_ENVELOPE_HEADER_SIZE_def)
  have "(4 :: u64) + word_of_nat (10 + length p) = word_of_nat (14 + length p)" by simp
  then have total: "unat ((4 :: u64) + word_of_nat (10 + length p)) = 14 + length p"
    using assms(1) by (simp only:) (intro unat_u64, simp)
  define buf where "buf = writeU32BE (word_of_nat (10 + length p)) @ replicate (10 + length p) 0"
  have w: "write_at 0 (writeU32BE (word_of_nat (10 + length p))) (replicate (14 + length p) 0) = Some buf"
    using write_at_prefix [of "[]" "writeU32BE (word_of_nat (10 + length p))" "14 + length p" 0] by (simp add: buf_def)
  have s: "eop_envelope_serialize t i (Some p) (word_of_nat (length p)) (drop 4 buf) (word_of_nat (10 + length p)) =
      Some (EOP_OK, envelope_bytes (word_of_int t) i p)"
    using assms by (intro serialize_envelope) (simp_all add: buf_def)
  have "take 4 buf = writeU32BE (word_of_nat (10 + length p))" by (simp add: buf_def)
  then show ?thesis
    unfolding build_command_def Let_def body total store_htonl ucast_len w
    by (simp add: s del: of_nat_add)
qed

text \<open>A socket on which data arrive in chunks and nothing else happens; what is left to read.\<close>

definition plain_rx :: "bytes \<Rightarrow> client_io \<Rightarrow> bool" where
  "plain_rx bs ci \<longleftrightarrow>
     fst ci = [] \<and> (\<exists>chunks. io_rx (snd ci) = map RxData chunks \<and> [] \<notin> set chunks \<and> concat chunks = bs)"

lemma plain_recv:
  assumes "plain_rx bs ([], s)" "0 < n" "bs \<noteq> []"
  obtains r s' where "recv n s = (RecvBytes r, s')" "r \<noteq> []" "length r \<le> n" "bs = r @ drop (length r) bs"
    "plain_rx (drop (length r) bs) ([], s')" "io_kept s s'"
proof -
  obtain chunks where c: "io_rx s = map RxData chunks" "[] \<notin> set chunks" "concat chunks = bs"
    using assms(1) by (auto simp: plain_rx_def)
  then obtain x xs where x: "chunks = x # xs" "x \<noteq> []" using assms(3) by (cases chunks) auto
  show thesis
  proof (cases "length x \<le> n")
    case True
    show thesis
      by (rule that [of x "s\<lparr>io_rx := map RxData xs\<rparr>"])
         (use True c x in \<open>auto simp: recv_def plain_rx_def io_kept_def\<close>)
  next
    case False
    have "drop n x # xs = drop n x # xs" "[] \<notin> set (drop n x # xs)" using False c(2) x by auto
    then have "plain_rx (drop n bs) ([], s\<lparr>io_rx := map RxData (drop n x # xs)\<rparr>)"
      using False c x unfolding plain_rx_def by (intro conjI exI [of _ "drop n x # xs"]) auto
    then show thesis
      by (intro that [of "take n x" "s\<lparr>io_rx := map RxData (drop n x # xs)\<rparr>"])
         (use False c x assms(2) in \<open>auto simp: recv_def io_kept_def min_def\<close>)
  qed
qed

lemma plain_poll: "plain_rx bs ci \<Longrightarrow> bs \<noteq> [] \<Longrightarrow> client_poll ci = (PollReady, ci)"
  by (cases ci) (auto simp: plain_rx_def client_poll_def split: list.splits)

lemma client_recv_plain:
  assumes "plain_rx bs ci" "length buf \<le> n" "n \<le> length buf + length bs"
  shows "\<exists>ci'. client_recv texts n buf ci = (Inr (buf @ take (n - length buf) bs), ci')
    \<and> plain_rx (drop (n - length buf) bs) ci' \<and> io_kept (snd ci) (snd ci')"
  using assms
proof (induction "n - length buf" arbitrary: buf bs ci rule: less_induct)
  case less
  show ?case
  proof (cases "length buf < n")
    case False
    then show ?thesis using less.prems by (subst client_recv.simps) (auto simp: io_kept_def)
  next
    case True
    then have ne: "bs \<noteq> []" using less.prems by auto
    obtain s where ci: "ci = ([], s)" using less.prems(1) by (cases ci) (simp add: plain_rx_def)
    obtain r s' where r: "recv (n - length buf) s = (RecvBytes r, s')" "r \<noteq> []" "length r \<le> n - length buf"
      "bs = r @ drop (length r) bs" "plain_rx (drop (length r) bs) ([], s')" "io_kept s s'"
      using less.prems(1) [unfolded ci] True ne by (metis plain_recv zero_less_diff)
    have step: "client_recv texts n buf ci = client_recv texts n (buf @ r) ([], s')"
      using True r plain_poll [OF less.prems(1) ne] by (subst client_recv.simps) (simp add: ci)
    have fits: "n - length (buf @ r) < n - length buf" "length (buf @ r) \<le> n"
        "n \<le> length (buf @ r) + length (drop (length r) bs)"
      using r(2,3) True less.prems(3) by (cases r; simp)+
    obtain ci' where ih: "client_recv texts n (buf @ r) ([], s') =
        (Inr ((buf @ r) @ take (n - length (buf @ r)) (drop (length r) bs)), ci')"
      "plain_rx (drop (n - length (buf @ r)) (drop (length r) bs)) ci'" "io_kept s' (snd ci')"
      using less.hyps [OF fits(1) r(5) fits(2,3)] by (elim exE conjE) simp
    have k: "n - length buf = length r + (n - length (buf @ r))" using r(3) True by simp
    have "take (n - length buf) bs = r @ take (n - length (buf @ r)) (drop (length r) bs)"
      unfolding k take_add using r(4) by (metis append_eq_conv_conj)
    moreover have "drop (n - length buf) bs = drop (n - length (buf @ r)) (drop (length r) bs)"
      unfolding k by (simp add: add.commute)
    ultimately show ?thesis using step ih r(6) by (auto simp: ci io_kept_def)
  qed
qed

lemma client_recv_front:
  assumes "plain_rx (front @ rest) ci" "length front = n"
  obtains ci' where "client_recv texts n [] ci = (Inr front, ci')" "plain_rx rest ci'" "io_kept (snd ci) (snd ci')"
  using client_recv_plain [OF assms(1), of "[]" n texts] assms(2) by auto

text \<open>The client reads exactly one frame of the server, and all of it.\<close>

lemma receive_response_frame:
  assumes "plain_rx (frame_bytes type i pl @ rest) ci" "length pl < 2 ^ 32" "ca_payload al" "ca_response al"
  shows "\<exists>ci'. receive_response al ci =
      (Inr \<lparr>er_msg_type = MessageType_to_byte type, er_msg_id = i, er_payload = bytes_of_string pl\<rparr>, ci')
    \<and> plain_rx rest ci' \<and> io_kept (snd ci) (snd ci')"
proof -
  let ?len = "word_of_nat (length pl) :: u32"
  let ?hdr = "[1, MessageType_to_byte type] @ writeU32BE i @ writeU32BE ?len"
  have "plain_rx (writeU32BE (word_of_nat (10 + length pl)) @ ?hdr @ bytes_of_string pl @ rest) ci"
    using assms(1) by (simp add: frame_bytes_def)
  then obtain c1 where c1: "client_recv prefix_texts 4 [] ci = (Inr (writeU32BE (word_of_nat (10 + length pl))), c1)"
    "plain_rx (?hdr @ bytes_of_string pl @ rest) c1" "io_kept (snd ci) (snd c1)"
    by (rule client_recv_front) simp_all
  obtain c2 where c2: "client_recv header_texts 10 [] c1 = (Inr ?hdr, c2)"
    "plain_rx (bytes_of_string pl @ rest) c2" "io_kept (snd c1) (snd c2)"
    using c1(2) by (rule client_recv_front) simp_all
  have d: "drop 2 ?hdr = writeU32BE i @ writeU32BE ?len" "drop 6 ?hdr = writeU32BE ?len @ []" by simp_all
  have ld: "ntohl (load_u32 (drop 2 ?hdr)) = i" "ntohl (load_u32 (drop 6 ?hdr)) = ?len"
    unfolding d by (rule ntohl_load_writeU32BE)+
  have nth: "?hdr ! 0 = 1" "?hdr ! 1 = MessageType_to_byte type" by simp_all
  have u: "unat ?len = length pl" using assms(2) by (rule unat_len_u32)
  have h10: "unat EOP_ENVELOPE_HEADER_SIZE = 10" by (simp add: EOP_ENVELOPE_HEADER_SIZE_def)
  have rh: "receive_header al c1 = receive_payload al (MessageType_to_byte type) i ?len c2"
    unfolding receive_header_def h10 c2(1) by (simp only: prod.case sum.case ld nth EOP_PROTOCOL_VERSION_def) simp
  obtain c3 where "receive_payload al (MessageType_to_byte type) i ?len c2 =
      (Inr \<lparr>er_msg_type = MessageType_to_byte type, er_msg_id = i, er_payload = bytes_of_string pl\<rparr>, c3)"
      "plain_rx rest c3" "io_kept (snd c2) (snd c3)"
  proof (cases "pl = []")
    case True
    then show thesis using that [of c2] assms(4) c2(2) by (simp add: receive_payload_def bytes_of_string_def io_kept_def)
  next
    case False
    obtain c3 where c3: "client_recv payload_texts (length pl) [] c2 = (Inr (bytes_of_string pl), c3)" "plain_rx rest c3"
      "io_kept (snd c2) (snd c3)" using c2(2) by (rule client_recv_front) simp_all
    have "?len > 0" using u False by (simp add: word_less_nat_alt)
    then show thesis using that [of c3] c3 u assms(3,4) by (simp add: receive_payload_def)
  qed
  then show ?thesis
    using c1 c2(3) rh by (auto simp: receive_response_def EOP_FRAME_PREFIX_SIZE_def io_kept_def)
qed

lemma client_send_ok:
  assumes "\<forall>e. TxErr e \<notin> set (io_tx s)"
  shows "\<exists>s'. client_send data s = Some (True, s') \<and> io_sent s' = io_sent s @ data \<and> io_rx s' = io_rx s
    \<and> (\<forall>e. TxErr e \<notin> set (io_tx s'))"
  using assms
proof (induction data s rule: client_send.induct)
  case (1 data s)
  show ?case
  proof (cases "data = []")
    case True
    then show ?thesis using "1.prems" by (subst client_send.simps) simp
  next
    case False
    obtain r s1 where r: "send data s = (r, s1)" by fastforce
    note sc = send_cases [OF r]
    obtain k where k: "r = SendCount k" using sc "1.prems" by (cases r) auto
    have "\<forall>e. TxErr e \<notin> set (io_tx s1)" using sc "1.prems" by auto
    then obtain s' where "client_send (drop k data) s1 = Some (True, s')" "io_sent s' = io_sent s1 @ drop k data" "io_rx s' = io_rx s1"
        "\<forall>e. TxErr e \<notin> set (io_tx s')"
      using "1.IH" [OF False r [symmetric] k] by blast
    then show ?thesis using False sc k by (subst client_send.simps) (simp add: r)
  qed
qed

text \<open>Receiving, successful or not, sends nothing.\<close>

lemma recv_kept: "recv n s = (r, s') \<Longrightarrow> io_kept s s'"
  by (auto simp: recv_def io_kept_def split: prod.splits recv_result.splits)

lemma client_poll_io: "client_poll ci = (r, ci') \<Longrightarrow> snd ci' = snd ci"
  by (auto simp: client_poll_def split: prod.splits list.splits)

lemma client_recv_kept: "client_recv texts n buf ci = (r, ci') \<Longrightarrow> io_kept (snd ci) (snd ci')"
proof (induction texts n buf ci rule: client_recv.induct)
  case (1 texts n buf ci)
  obtain pr c1 where p: "client_poll ci = (pr, c1)" by (metis surj_pair)
  obtain rr s1 where rv: "recv (n - length buf) (snd c1) = (rr, s1)" by fastforce
  have k: "io_kept (snd ci) s1" using client_poll_io [OF p] recv_kept [OF rv] by simp
  show ?case
  proof (cases "length buf < n \<and> pr = PollReady \<and> (\<exists>bs. rr = RecvBytes bs \<and> bs \<noteq> [])")
    case True
    then obtain bs where bs: "length buf < n" "pr = PollReady" "rr = RecvBytes bs" "bs \<noteq> []" by blast
    then have "client_recv texts n (buf @ bs) (fst c1, s1) = (r, ci')"
      using "1.prems" p rv by (subst (asm) client_recv.simps) simp
    then have "io_kept s1 (snd ci')" using "1.IH" [OF bs(1) p [symmetric] bs(2) rv [symmetric] bs(3)] bs(4) by simp
    then show ?thesis using k io_kept_trans by blast
  next
    case False
    then show ?thesis
      using "1.prems" p rv k client_poll_io [OF p]
      by (subst (asm) client_recv.simps) (auto split: if_splits poll_result.splits recv_result.splits)
  qed
qed

lemma receive_response_kept: "receive_response al ci = (r, ci') \<Longrightarrow> io_kept (snd ci) (snd ci')"
  by (auto simp: receive_response_def receive_header_def receive_payload_def Let_def
      split: prod.splits sum.splits if_splits dest!: client_recv_kept elim!: io_kept_trans)

text \<open>A command without payload is one with an empty payload.\<close>

lemma build_command_null: "build_command t i None 0 = build_command t i (Some []) 0"
  by (simp add: build_command_def eop_envelope_serialize_def cong: if_cong)

lemma send_command_null: "eop_send_command al c t None 0 g ci = eop_send_command al c t (Some []) 0 g ci"
  by (cases c) (simp_all add: eop_send_command_def build_command_null Let_def cong: if_cong)

text \<open>Whatever the server answers, if anything, a command sends its frame and uses up one identifier.\<close>

lemma send_command_sends:
  assumes "\<forall>e. TxErr e \<notin> set (io_tx (snd ci))" "ca_send al" "length p < 2 ^ 32" "1 \<le> t" "t \<le> 9"
  shows "\<exists>resp c' ci'. eop_send_command al (Some c) t (Some p) (word_of_nat (length p)) glob ci = Some (resp, Some c', glob, ci')
    \<and> io_sent (snd ci') = io_sent (snd ci) @ writeU32BE (word_of_nat (10 + length p))
        @ envelope_bytes (word_of_int t) (ec_next_msg_id c) p
    \<and> (\<forall>e. TxErr e \<notin> set (io_tx (snd ci'))) \<and> ec_next_msg_id c' = ec_next_msg_id c + 1"
proof -
  let ?buf = "writeU32BE (word_of_nat (10 + length p)) @ envelope_bytes (word_of_int t) (ec_next_msg_id c) p"
  have b: "build_command t (ec_next_msg_id c) (Some p) (word_of_nat (length p)) = Some (EOP_OK, ?buf)"
    using assms(3-5) by (rule build_command_ok)
  obtain s where s: "client_send ?buf (snd ci) = Some (True, s)" "io_sent s = io_sent (snd ci) @ ?buf"
      "\<forall>e. TxErr e \<notin> set (io_tx s)"
    using client_send_ok [OF assms(1)] by blast
  obtain r ci' where r: "receive_response al (fst ci, s) = (r, ci')" by (metis surj_pair)
  show ?thesis
    using b s r assms(2) receive_response_kept [OF r]
    by (cases r; cases ci') (auto simp: eop_send_command_def io_kept_def set_client_error_def Let_def split: prod.splits)
qed

text \<open>On a stream that starts with a frame, a command returns this frame.\<close>

lemma send_command_reply:
  assumes "plain_rx (frame_bytes type i pl @ rest) ci" "length pl < 2 ^ 32" "\<forall>e. TxErr e \<notin> set (io_tx (snd ci))"
    and "ca_send al" "ca_payload al" "ca_response al"
    and "length p < 2 ^ 32" "1 \<le> t" "t \<le> 9"
  shows "\<exists>c' ci'. eop_send_command al (Some c) t (Some p) (word_of_nat (length p)) glob ci =
      Some (Some \<lparr>er_msg_type = MessageType_to_byte type, er_msg_id = i, er_payload = bytes_of_string pl\<rparr>, Some c', glob, ci')
    \<and> io_sent (snd ci') = io_sent (snd ci) @ writeU32BE (word_of_nat (10 + length p))
        @ envelope_bytes (word_of_int t) (ec_next_msg_id c) p
    \<and> plain_rx rest ci' \<and> (\<forall>e. TxErr e \<notin> set (io_tx (snd ci'))) \<and> ec_next_msg_id c' = ec_next_msg_id c + 1"
proof -
  let ?buf = "writeU32BE (word_of_nat (10 + length p)) @ envelope_bytes (word_of_int t) (ec_next_msg_id c) p"
  have b: "build_command t (ec_next_msg_id c) (Some p) (word_of_nat (length p)) = Some (EOP_OK, ?buf)"
    using assms(7-9) by (rule build_command_ok)
  obtain s where s: "client_send ?buf (snd ci) = Some (True, s)" "io_sent s = io_sent (snd ci) @ ?buf" "io_rx s = io_rx (snd ci)"
      "\<forall>e. TxErr e \<notin> set (io_tx s)"
    using client_send_ok [OF assms(3)] by blast
  have "plain_rx (frame_bytes type i pl @ rest) (fst ci, s)" using assms(1) s(3) by (simp add: plain_rx_def)
  then obtain ci' where r: "receive_response al (fst ci, s) =
      (Inr \<lparr>er_msg_type = MessageType_to_byte type, er_msg_id = i, er_payload = bytes_of_string pl\<rparr>, ci')"
    "plain_rx rest ci'" "io_kept s (snd ci')"
    using receive_response_frame [OF _ assms(2,5,6)] by fastforce
  show ?thesis
    using b s r assms(4) by (auto simp: eop_send_command_def Let_def io_kept_def)
qed

section \<open>Properties\<close>

text \<open>
  C24. Client and server agree on the wire format: for the message types both know, the frame
  that the client's \<^verbatim>\<open>eop_send_command\<close> builds is byte for byte the frame that the server's
  \<^verbatim>\<open>buildFrame\<close> builds.
\<close>

theorem client_frame_is_server_frame:
  assumes "length pl < 2 ^ 32 - 14" "1 \<le> uint (MessageType_to_byte type)" "uint (MessageType_to_byte type) \<le> 9"
  shows "\<exists>frame. buildFrame type i pl = Some frame
    \<and> build_command (uint (MessageType_to_byte type)) i (Some (bytes_of_string pl)) (word_of_nat (length pl)) = Some (EOP_OK, frame)"
proof -
  have l: "length (bytes_of_string pl) = length pl" by simp
  show ?thesis
    using buildFrame_eq [OF assms(1), of type i]
      build_command_ok [of "bytes_of_string pl" "uint (MessageType_to_byte type)" i] assms
    by (simp add: frame_envelope)
qed

lemma client_frame_is_server_frame_witness:
  "\<exists>frame. buildFrame LIST_NODES 3 ''{}'' = Some frame
    \<and> build_command (uint (MessageType_to_byte LIST_NODES)) 3 (Some (bytes_of_string ''{}'')) 2 = Some (EOP_OK, frame)"
  using client_frame_is_server_frame [of "''{}''" LIST_NODES 3] by simp

text \<open>
  C25. A command returns the first frame in the stream. On a working connection \<^verbatim>\<open>eop_send_command\<close>
  sends its frame and returns the next frame that the server sent, whatever message it answers:
  the identifier of the response is not compared with that of the command. The first command
  after connecting therefore returns the server's welcome, and the caller stays one reply behind
  unless it drains the welcome first, as the example programs do.
\<close>

theorem command_returns_first_frame:
  assumes "plain_rx (frame_bytes type i pl @ rest) ci" "length pl < 2 ^ 32" "\<forall>e. TxErr e \<notin> set (io_tx (snd ci))"
    and "ca_send al" "ca_payload al" "ca_response al"
    and "length p < 2 ^ 32" "1 \<le> t" "t \<le> 9"
  shows "\<exists>c' ci'. eop_send_command al (Some c) t (Some p) (word_of_nat (length p)) glob ci =
      Some (Some \<lparr>er_msg_type = MessageType_to_byte type, er_msg_id = i, er_payload = bytes_of_string pl\<rparr>, Some c', glob, ci')
    \<and> io_sent (snd ci') = io_sent (snd ci) @ writeU32BE (word_of_nat (10 + length p))
        @ envelope_bytes (word_of_int t) (ec_next_msg_id c) p
    \<and> plain_rx rest ci' \<and> ec_next_msg_id c' = ec_next_msg_id c + 1"
  using send_command_reply [OF assms] by blast

definition sample_client :: eop_client where
  "sample_client = \<lparr>ec_socket_fd = 3, ec_error = \<lparr>ee_code = EOP_OK, ee_msg = []\<rparr>, ec_connection_timeout_ms = 5000,
     ec_next_msg_id = 0, ec_host = ''10.0.0.1'', ec_port = 9026\<rparr>"

text \<open>The welcome and then the reply arrive; the client asks for a listing and gets the welcome.\<close>

lemma command_returns_first_frame_witness:
  "\<exists>c' ci'. eop_send_command \<lparr>ca_send = True, ca_payload = True, ca_response = True\<rparr> (Some sample_client) 5 (Some [123, 125]) 2
      \<lparr>ee_code = EOP_OK, ee_msg = []\<rparr>
      ([], \<lparr>io_rx = [RxData (frame_bytes ACK 9 ''welcome''), RxData (frame_bytes ACK 0 ''nodes'')], io_tx = [], io_sent = [], io_errno = E_NONE\<rparr>)
    = Some (Some \<lparr>er_msg_type = MessageType_to_byte ACK, er_msg_id = 9, er_payload = bytes_of_string ''welcome''\<rparr>,
        Some c', \<lparr>ee_code = EOP_OK, ee_msg = []\<rparr>, ci')
    \<and> plain_rx (frame_bytes ACK 0 ''nodes'') ci'"
proof -
  let ?ci = "([], \<lparr>io_rx = [RxData (frame_bytes ACK 9 ''welcome''), RxData (frame_bytes ACK 0 ''nodes'')], io_tx = [], io_sent = [], io_errno = E_NONE\<rparr>)"
  have n: "frame_bytes t i pl \<noteq> []" for t i pl using length_frame_bytes [of t i pl] by (metis add_is_0 list.size(3) zero_neq_numeral)
  have "plain_rx (frame_bytes ACK 9 ''welcome'' @ frame_bytes ACK 0 ''nodes'') ?ci"
    unfolding plain_rx_def
    by (auto simp: n [symmetric] n intro!: exI [of _ "[frame_bytes ACK 9 ''welcome'', frame_bytes ACK 0 ''nodes'']"])
  from command_returns_first_frame [OF this, of "\<lparr>ca_send = True, ca_payload = True, ca_response = True\<rparr>" "[123, 125]" 5 sample_client]
  show ?thesis by fastforce
qed

text \<open>
  The client library does not leak descriptors: every socket that \<^verbatim>\<open>eop_connect\<close> or
  \<^verbatim>\<open>eop_reconnect\<close> opens is either in the handle or closed again, and \<^verbatim>\<open>eop_reconnect\<close> closes the
  old one on every path.
\<close>

theorem client_descriptors_accounted:
  "(case eop_connect host port timeout env of
      (Some c, _, closed) \<Rightarrow> ec_socket_fd c = cv_socket env \<and> 0 \<le> cv_socket env \<and> closed = []
    | (None, _, closed) \<Rightarrow> closed = (if host \<noteq> None \<and> port \<in> {1..65535} \<and> cv_alloc env \<and> cv_pton env \<and> 0 \<le> cv_socket env
        then [cv_socket env] else []))
   \<and> (case eop_reconnect (Some c) timeout env glob of
        (rc, c', _, closed) \<Rightarrow> (\<exists>x. c' = Some x \<and>
          (if rc = EOP_OK then ec_socket_fd x = cv_socket env \<and> 0 \<le> cv_socket env \<and> closed = [ec_socket_fd c]
           else ec_socket_fd x = - 1
             \<and> closed = ec_socket_fd c # (if cv_pton env \<and> 0 \<le> cv_socket env then [cv_socket env] else []))))"
  by (auto simp: eop_connect_def eop_reconnect_def finish_connect_def set_client_error_def Let_def
      TCP_PORT_MIN_VALUE_def TCP_PORT_MAX_VALUE_def split: option.splits)

end
