(* ===== verification/ClientExamples.thy ===== *)
theory ClientExamples
  imports EopClient OtelScope
begin

text \<open>
  The programs \<^verbatim>\<open>client/examples/connect_basic.c\<close> and \<^verbatim>\<open>client/examples/eop_demo.c\<close>, which use the client
  library. The state of such a program is what is left of its standard input, what it has
  written, its handle with the socket behind it, the number of responses it has not freed, and the
  descriptors closed. The results of \<^verbatim>\<open>malloc\<close> come from scripts; with no entry left it succeeds.
  Reading an uninitialised buffer, and \<^verbatim>\<open>atoi\<close> of a number that is not an \<^verbatim>\<open>int\<close>, are undefined: \<^term>\<open>None\<close>.
\<close>

definition EXIT_SUCCESS :: int where "EXIT_SUCCESS = 0"
definition EXIT_FAILURE :: int where "EXIT_FAILURE = 1"

record prog =
  pr_in :: string
  pr_out :: string
  pr_err :: string
  pr_client :: "eop_client option"
  pr_glob :: eop_error
  pr_io :: client_io
  pr_allocs :: "command_alloc list"
  pr_mallocs :: "bool list"
  pr_live :: nat
  pr_closed :: "int list"

definition NL :: string where "NL = [CHR 10]"

definition print_out :: "string \<Rightarrow> prog \<Rightarrow> prog" where
  "print_out s p = p\<lparr>pr_out := pr_out p @ s\<rparr>"

definition print_err :: "string \<Rightarrow> prog \<Rightarrow> prog" where
  "print_err s p = p\<lparr>pr_err := pr_err p @ s\<rparr>"

definition prog_malloc :: "prog \<Rightarrow> bool \<times> prog" where
  "prog_malloc p = (case pr_mallocs p of [] \<Rightarrow> (True, p) | b # bs \<Rightarrow> (b, p\<lparr>pr_mallocs := bs\<rparr>))"

subsection \<open>Calls of the library\<close>

definition prog_connect :: "string \<Rightarrow> int \<Rightarrow> int \<Rightarrow> connect_env \<Rightarrow> prog \<Rightarrow> prog" where
  "prog_connect host port timeout_ms env p =
     (let (client, glob, closed) = eop_connect (Some host) port timeout_ms env
      in p\<lparr>pr_client := client, pr_glob := glob, pr_closed := pr_closed p @ closed\<rparr>)"

definition prog_command :: "int \<Rightarrow> bytes option \<Rightarrow> prog \<Rightarrow> (eop_response option \<times> prog) option" where
  "prog_command msg_type payload p = do {
     let (al, als) = (case pr_allocs p of
         [] \<Rightarrow> (\<lparr>ca_send = True, ca_payload = True, ca_response = True\<rparr>, []) | a # as \<Rightarrow> (a, as));
     let len = (case payload of None \<Rightarrow> 0 | Some bs \<Rightarrow> word_of_nat (length bs));
     (resp, client, glob, ci) \<leftarrow> eop_send_command al (pr_client p) msg_type payload len (pr_glob p) (pr_io p);
     Some (resp, p\<lparr>pr_client := client, pr_glob := glob, pr_io := ci, pr_allocs := als,
                   pr_live := pr_live p + (if resp = None then 0 else 1)\<rparr>)
   }"

definition eop_response_free :: "eop_response option \<Rightarrow> prog \<Rightarrow> prog" where
  "eop_response_free resp p = (case resp of None \<Rightarrow> p | Some r \<Rightarrow> p\<lparr>pr_live := pr_live p - 1\<rparr>)"

definition prog_disconnect :: "prog \<Rightarrow> prog" where
  "prog_disconnect p = p\<lparr>pr_client := None, pr_closed := pr_closed p @ eop_disconnect (pr_client p)\<rparr>"

definition last_error_text :: "nat \<Rightarrow> prog \<Rightarrow> string" where
  "last_error_text n p =
     (case snd (eop_last_error (pr_client p) (pr_glob p) (Some n)) of Some s \<Rightarrow> s | None \<Rightarrow> [])"

subsection \<open>C strings\<close>

definition cstr :: "string \<Rightarrow> string" where
  "cstr s = takeWhile (\<lambda>c. c \<noteq> CHR 0x00) s"

text \<open>\<^verbatim>\<open>snprintf\<close> into a buffer of a given size: its result and the text in the buffer.\<close>

definition snprintf :: "nat \<Rightarrow> string \<Rightarrow> nat \<times> string" where
  "snprintf n s = (length s, take (n - 1) s)"

text \<open>\<^verbatim>\<open>strtoul\<close> in base ten: saturating, and negating modulo \<open>2 ^ 64\<close>.\<close>

definition strtoul :: "string \<Rightarrow> u64" where
  "strtoul str =
     (let (neg, rest) = strip_sign (dropWhile isspace str);
          magnitude = undigits 10 (takeWhile isdigit rest)
      in if magnitude \<ge> 2 ^ 64 then 2 ^ 64 - 1
         else if neg then - word_of_nat magnitude else word_of_nat magnitude)"

text \<open>\<^verbatim>\<open>fgets\<close>: at most \<open>m - 1\<close> characters, up to and including the first newline; the null pointer at the end of the input.\<close>

definition fgets :: "nat \<Rightarrow> string \<Rightarrow> (string \<times> string) option" where
  "fgets m inp =
     (if inp = [] then None
      else
        let front = takeWhile (\<lambda>c. c \<noteq> CHR 10) inp;
            n = min (m - 1) (if length front < length inp then Suc (length front) else length front)
        in Some (take n inp, drop n inp))"

definition strip_newline :: "string \<Rightarrow> string" where
  "strip_newline s = (if s \<noteq> [] \<and> last s = CHR 10 then butlast s else s)"

definition register_json :: "string \<Rightarrow> string \<Rightarrow> string \<Rightarrow> string \<Rightarrow> string" where
  "register_json node_id bunker_name ip_address capacity =
     ''{'' @ quote ''node_id'' @ '':'' @ quote node_id @ '','' @ quote ''bunker_name'' @ '':'' @ quote bunker_name
       @ '','' @ quote ''ip_address'' @ '':'' @ quote ip_address @ '','' @ quote ''capacity'' @ '':'' @ capacity @ ''}''"

definition query_json :: "string \<Rightarrow> string" where
  "query_json node_id = ''{'' @ quote ''node_id'' @ '':'' @ quote node_id @ ''}''"

section \<open>The complete life cycle: \<^verbatim>\<open>connect_basic.c\<close>\<close>

definition DEFAULT_HOST :: string where "DEFAULT_HOST = ''127.0.0.1''"
definition DEFAULT_CLIENT_PORT :: int where "DEFAULT_CLIENT_PORT = 9026"
definition DEFAULT_TIMEOUT_MS :: int where "DEFAULT_TIMEOUT_MS = 5000"
definition DEMO_NODE_ID :: string where "DEMO_NODE_ID = ''vault-demo-01''"
definition DEMO_BUNKER_NAME :: string where "DEMO_BUNKER_NAME = ''Vault 101''"
definition DEMO_IP_ADDRESS :: string where "DEMO_IP_ADDRESS = ''10.0.0.1''"
definition DEMO_CAPACITY :: nat where "DEMO_CAPACITY = 250"
definition REGISTER_PAYLOAD_SIZE :: nat where "REGISTER_PAYLOAD_SIZE = 256"
definition QUERY_PAYLOAD_SIZE :: nat where "QUERY_PAYLOAD_SIZE = 64"
definition ERROR_MSG_SIZE :: nat where "ERROR_MSG_SIZE = 256"
definition STATUS_BUF_SIZE :: nat where "STATUS_BUF_SIZE = 32"

definition payload_to_cstr :: "eop_response option \<Rightarrow> prog \<Rightarrow> string option \<times> prog" where
  "payload_to_cstr resp p =
     (case resp of
        None \<Rightarrow> (None, p)
      | Some r \<Rightarrow>
          if er_payload r = [] then (None, p)
          else (let (ok, p) = prog_malloc p
                in if ok then (Some (cstr (string_of_bytes (er_payload r))), p) else (None, p)))"

text \<open>The text that is written to \<^verbatim>\<open>dst\<close>; \<^term>\<open>None\<close> when the function returns 0.\<close>

definition extract_json_string :: "string \<Rightarrow> string \<Rightarrow> nat \<Rightarrow> string option" where
  "extract_json_string json key dst_size =
     (let search = snd (snprintf 64 (quote key @ '':'' @ [CHR 0x22])) in
      case str_find search json of
        None \<Rightarrow> None
      | Some pos \<Rightarrow>
          let val = drop (pos + length search) json in
          if CHR 0x22 \<notin> set val then None
          else
            let len = length (takeWhile (\<lambda>c. c \<noteq> CHR 0x22) val);
                len = (if len \<ge> dst_size then dst_size - 1 else len)
            in Some (take len val))"

definition msg_type_hex :: "byte \<Rightarrow> string" where
  "msg_type_hex t = ''0x'' @ hex_setw 2 (unat t)"

definition command_failed :: "string \<Rightarrow> eop_response option \<Rightarrow> prog \<Rightarrow> prog" where
  "command_failed tag resp p =
     (let (body, p) = payload_to_cstr resp p;
          p = print_err (tag @ ''FAILED '' @ EM_DASH @ '' type=''
                @ msg_type_hex (case resp of Some r \<Rightarrow> er_msg_type r | None \<Rightarrow> 0xFF)
                @ '' payload='' @ (case body of Some b \<Rightarrow> b | None \<Rightarrow> ''(none)'') @ NL) p
      in prog_disconnect (eop_response_free resp p))"

text \<open>The three exchanges; the result says whether the program goes on.\<close>

definition drain_welcome :: "prog \<Rightarrow> (bool \<times> prog) option" where
  "drain_welcome p = do {
     (welcome, p) \<leftarrow> prog_command EOP_HEARTBEAT None p;
     Some (case welcome of
         None \<Rightarrow> (False, prog_disconnect (print_err (''[welcome] FAILED '' @ EM_DASH @ '' could not drain welcome frame'' @ NL) p))
       | Some r \<Rightarrow> (True, eop_response_free welcome
                     (print_out (''[welcome]    OK   type='' @ msg_type_hex (er_msg_type r) @ NL) p)))
   }"

definition reg_payload :: string where
  "reg_payload = snd (snprintf REGISTER_PAYLOAD_SIZE
     (register_json DEMO_NODE_ID DEMO_BUNKER_NAME DEMO_IP_ADDRESS (dec_of_nat DEMO_CAPACITY)))"

definition register_node :: "prog \<Rightarrow> (bool \<times> prog) option" where
  "register_node p = do {
     (resp, p) \<leftarrow> prog_command EOP_REGISTER (Some (bytes_of_string reg_payload)) p;
     Some (if resp = None \<or> er_msg_type (the resp) \<noteq> EOP_ACK
           then (False, command_failed ''[register] '' resp p)
           else (True, eop_response_free resp (print_out (''[register]   OK   node_id='' @ DEMO_NODE_ID @ NL) p)))
   }"

definition query_payload :: string where
  "query_payload = snd (snprintf QUERY_PAYLOAD_SIZE (query_json DEMO_NODE_ID))"

definition query_status :: "string option \<Rightarrow> string" where
  "query_status body =
     (case body of
        None \<Rightarrow> []
      | Some b \<Rightarrow> (case extract_json_string b ''status'' STATUS_BUF_SIZE of None \<Rightarrow> [] | Some s \<Rightarrow> s))"

definition query_node :: "prog \<Rightarrow> (bool \<times> prog) option" where
  "query_node p = do {
     (resp, p) \<leftarrow> prog_command EOP_QUERY_NODE (Some (bytes_of_string query_payload)) p;
     Some (if resp = None \<or> er_msg_type (the resp) \<noteq> EOP_ACK
           then (False, command_failed ''[query]    '' resp p)
           else (let (body, p) = payload_to_cstr resp p
                 in (True, eop_response_free resp (print_out
                       (''[query]      OK   node_id='' @ DEMO_NODE_ID @ '' status='' @ query_status body @ NL) p))))
   }"

text \<open>The program from its second step on.\<close>

definition basic_exchanges :: "prog \<Rightarrow> (int \<times> prog) option" where
  "basic_exchanges p = do {
     (ok, p) \<leftarrow> drain_welcome p;
     if \<not> ok then Some (EXIT_FAILURE, p) else do {
       (ok, p) \<leftarrow> register_node p;
       if \<not> ok then Some (EXIT_FAILURE, p) else do {
         (ok, p) \<leftarrow> query_node p;
         if \<not> ok then Some (EXIT_FAILURE, p)
         else Some (EXIT_SUCCESS, print_out (''[disconnect] OK'' @ NL) (prog_disconnect p))
       }
     }
   }"

text \<open>\<open>args\<close> are the command line arguments after the name of the program.\<close>

definition basic_host :: "string list \<Rightarrow> string" where
  "basic_host args = (case args of h # _ \<Rightarrow> h | [] \<Rightarrow> DEFAULT_HOST)"

definition basic_port :: "string list \<Rightarrow> int option" where
  "basic_port args = (case args of _ # q # _ \<Rightarrow> atoi q | _ \<Rightarrow> Some DEFAULT_CLIENT_PORT)"

definition connect_basic :: "string list \<Rightarrow> connect_env \<Rightarrow> prog \<Rightarrow> (int \<times> prog) option" where
  "connect_basic args env p = do {
     let host = basic_host args;
     port \<leftarrow> basic_port args;
     let p = prog_connect host port DEFAULT_TIMEOUT_MS env p;
     if pr_client p = None then
       Some (EXIT_FAILURE, print_err (''[connect] FAILED '' @ EM_DASH @ '' '' @ last_error_text ERROR_MSG_SIZE p @ NL) p)
     else do {
       let p = print_out (''[connect]    OK   host='' @ host @ '' port='' @ dec_of_int port @ NL) p;
       basic_exchanges p
     }
   }"

section \<open>The interactive console: \<^verbatim>\<open>eop_demo.c\<close>\<close>

definition CONNECT_TIMEOUT_MS :: int where "CONNECT_TIMEOUT_MS = 5000"
definition ERR_MSG_SIZE :: nat where "ERR_MSG_SIZE = 256"
definition JSON_BUF_SIZE :: nat where "JSON_BUF_SIZE = 512"
definition INPUT_BUF_SIZE :: nat where "INPUT_BUF_SIZE = 128"

definition print_payload :: "eop_response \<Rightarrow> prog \<Rightarrow> prog" where
  "print_payload resp p =
     (if er_payload resp = [] then print_out (''  (empty payload)'' @ NL) p
      else (let (ok, p) = prog_malloc p in
            if \<not> ok then print_out (''  (alloc error while printing payload)'' @ NL) p
            else print_out (''  '' @ cstr (string_of_bytes (er_payload resp)) @ NL) p))"

definition msg_type_name :: "byte \<Rightarrow> string" where
  "msg_type_name t = (if t = EOP_ACK then ''ACK'' else if t = EOP_ERROR then ''ERROR'' else ''UNKNOWN'')"

text \<open>One prompt: the answer without its newline. At the end of the input the buffer stays uninitialised.\<close>

definition read_field :: "string \<Rightarrow> prog \<Rightarrow> (string \<times> prog) option" where
  "read_field prompt p = do {
     let p = print_out prompt p;
     (line, rest) \<leftarrow> fgets INPUT_BUF_SIZE (pr_in p);
     Some (strip_newline (cstr line), p\<lparr>pr_in := rest\<rparr>)
   }"

definition print_response :: "eop_response \<Rightarrow> prog \<Rightarrow> prog" where
  "print_response r p =
     eop_response_free (Some r) (print_payload r (print_out (''  ['' @ msg_type_name (er_msg_type r) @ ''] '') p))"

definition report_response :: "eop_response option \<Rightarrow> prog \<Rightarrow> prog" where
  "report_response resp p =
     (case resp of
        None \<Rightarrow> print_err (''  [error] '' @ last_error_text ERR_MSG_SIZE p @ NL) p
      | Some r \<Rightarrow> print_response r p)"

text \<open>\<^verbatim>\<open>snprintf\<close> of the payload, the test of its length, and the command.\<close>

definition send_json :: "int \<Rightarrow> string \<Rightarrow> prog \<Rightarrow> prog option" where
  "send_json msg_type text p =
     (let (written, json) = snprintf JSON_BUF_SIZE text in
      if written \<ge> JSON_BUF_SIZE then Some (print_err (''  [error] JSON payload too large'' @ NL) p)
      else do {
        (resp, p) \<leftarrow> prog_command msg_type (Some (bytes_of_string json)) p;
        Some (report_response resp p)
      })"

definition cmd_register :: "prog \<Rightarrow> prog option" where
  "cmd_register p = do {
     let p = print_out (NL @ ''--- REGISTER NODE ---'' @ NL) p;
     (node_id, p) \<leftarrow> read_field ''  node_id      : '' p;
     (bunker_name, p) \<leftarrow> read_field ''  bunker_name  : '' p;
     (ip_address, p) \<leftarrow> read_field ''  ip_address   : '' p;
     (capacity_str, p) \<leftarrow> read_field ''  capacity     : '' p;
     let capacity = strtoul capacity_str;
     send_json EOP_REGISTER (register_json node_id bunker_name ip_address (dec_of_nat (unat capacity))) p
   }"

definition cmd_query_node :: "prog \<Rightarrow> prog option" where
  "cmd_query_node p = do {
     let p = print_out (NL @ ''--- QUERY NODE ---'' @ NL) p;
     (node_id, p) \<leftarrow> read_field ''  node_id: '' p;
     send_json EOP_QUERY_NODE (query_json node_id) p
   }"

definition cmd_list_nodes :: "prog \<Rightarrow> prog option" where
  "cmd_list_nodes p = do {
     let p = print_out (NL @ ''--- LIST NODES ---'' @ NL) p;
     (resp, p) \<leftarrow> prog_command EOP_LIST_NODES None p;
     Some (report_response resp p)
   }"

definition cmd_heartbeat :: "prog \<Rightarrow> prog option" where
  "cmd_heartbeat p = do {
     let p = print_out (NL @ ''--- HEARTBEAT ---'' @ NL) p;
     (resp, p) \<leftarrow> prog_command EOP_HEARTBEAT None p;
     Some (case resp of
         None \<Rightarrow>
           (if fst (eop_last_error (pr_client p) (pr_glob p) (Some ERR_MSG_SIZE)) = EOP_ERR_TIMEOUT
            then print_out (''  [OK] Heartbeat sent (no response from server '' @ EM_DASH @ '' expected)'' @ NL) p
            else print_err (''  [error] '' @ last_error_text ERR_MSG_SIZE p @ NL) p)
       | Some r \<Rightarrow> print_response r p)
   }"

text \<open>The menu is framed with box-drawing characters, three bytes each in UTF-8.\<close>

definition box_char :: "byte \<Rightarrow> string" where
  "box_char b = [CHR 0xE2, CHR 0x95, char_of_byte b]"

definition box_line :: "byte \<Rightarrow> byte \<Rightarrow> string" where
  "box_line l r = box_char l @ concat (replicate 30 (box_char 0x90)) @ box_char r @ NL"

definition box_text :: "string \<Rightarrow> string" where
  "box_text s = box_char 0x91 @ s @ box_char 0x91 @ NL"

definition menu :: string where
  "menu = NL @ box_line 0x94 0x97
     @ box_text ''     EOP Interactive Demo     ''
     @ box_line 0xA0 0xA3
     @ box_text ''  1) Register node            ''
     @ box_text ''  2) Query node               ''
     @ box_text ''  3) List nodes               ''
     @ box_text ''  4) Send heartbeat           ''
     @ box_text ''  0) Disconnect & exit        ''
     @ box_line 0x9A 0x9D
     @ ''Choice: ''"

definition print_menu :: "prog \<Rightarrow> prog" where
  "print_menu p = print_out menu p"

text \<open>One turn of the menu: whether the program goes on.\<close>

definition demo_choice :: "int \<Rightarrow> prog \<Rightarrow> (bool \<times> prog) option" where
  "demo_choice n p =
     (if n = 1 then map_option (Pair True) (cmd_register p)
      else if n = 2 then map_option (Pair True) (cmd_query_node p)
      else if n = 3 then map_option (Pair True) (cmd_list_nodes p)
      else if n = 4 then map_option (Pair True) (cmd_heartbeat p)
      else if n = 0 then Some (False, p)
      else Some (True, print_out (''  Unknown option.'' @ NL) p))"

subsection \<open>What is left of the input\<close>

lemma fgets_rest: "fgets m inp = Some (l, rest) \<Longrightarrow> inp = l @ rest"
  by (auto simp: fgets_def Let_def split: if_splits)

lemma fgets_shrinks:
  assumes "fgets m inp = Some (l, rest)" "2 \<le> m"
  shows "length rest < length inp"
proof -
  define front where "front = takeWhile (\<lambda>c. c \<noteq> CHR 10) inp"
  have ne: "inp \<noteq> []" using assms(1) by (auto simp: fgets_def)
  have "0 < (if length front < length inp then Suc (length front) else length front)"
    using ne by (cases "length front < length inp") (auto simp: front_def)
  then show ?thesis
    using assms ne by (auto simp: fgets_def front_def Let_def split: if_splits)
qed

text \<open>Printing and freeing leave everything else alone.\<close>

lemma print_simps [simp]:
  "pr_in (print_out s p) = pr_in p" "pr_client (print_out s p) = pr_client p" "pr_io (print_out s p) = pr_io p"
  "pr_live (print_out s p) = pr_live p" "pr_closed (print_out s p) = pr_closed p" "pr_allocs (print_out s p) = pr_allocs p"
  "pr_in (print_err s p) = pr_in p" "pr_client (print_err s p) = pr_client p" "pr_io (print_err s p) = pr_io p"
  "pr_live (print_err s p) = pr_live p" "pr_closed (print_err s p) = pr_closed p" "pr_allocs (print_err s p) = pr_allocs p"
  by (simp_all add: print_out_def print_err_def)

lemma free_simps [simp]:
  "pr_in (eop_response_free r p) = pr_in p" "pr_client (eop_response_free r p) = pr_client p"
  "pr_io (eop_response_free r p) = pr_io p" "pr_closed (eop_response_free r p) = pr_closed p"
  "pr_allocs (eop_response_free r p) = pr_allocs p"
  "pr_live (eop_response_free r p) = pr_live p - (if r = None then 0 else 1)"
  by (simp_all add: eop_response_free_def split: option.splits)

lemma malloc_simps [simp]:
  "pr_in (snd (prog_malloc p)) = pr_in p" "pr_client (snd (prog_malloc p)) = pr_client p"
  "pr_io (snd (prog_malloc p)) = pr_io p" "pr_closed (snd (prog_malloc p)) = pr_closed p"
  "pr_allocs (snd (prog_malloc p)) = pr_allocs p" "pr_live (snd (prog_malloc p)) = pr_live p"
  by (simp_all add: prog_malloc_def split: list.splits)

lemma payload_simps [simp]:
  "pr_in (print_payload r p) = pr_in p" "pr_client (print_payload r p) = pr_client p"
  "pr_io (print_payload r p) = pr_io p" "pr_closed (print_payload r p) = pr_closed p"
  "pr_allocs (print_payload r p) = pr_allocs p" "pr_live (print_payload r p) = pr_live p"
  using malloc_simps [of p] by (simp_all add: print_payload_def split_beta Let_def del: malloc_simps)

lemma report_simps [simp]:
  "pr_in (report_response r p) = pr_in p" "pr_client (report_response r p) = pr_client p"
  "pr_io (report_response r p) = pr_io p" "pr_closed (report_response r p) = pr_closed p"
  "pr_allocs (report_response r p) = pr_allocs p"
  "pr_live (report_response r p) = pr_live p - (if r = None then 0 else 1)"
  by (simp_all add: report_response_def print_response_def split: option.splits)

text \<open>A command leaves input and closed descriptors alone, keeps the handle, and returns at most one response to free.\<close>

lemma send_command_fd:
  "eop_send_command al c t pl n g ci = Some (r, c', g', ci') \<Longrightarrow> map_option ec_socket_fd c' = map_option ec_socket_fd c"
  by (auto simp: eop_send_command_def set_client_error_def Let_def
      split: option.splits if_splits bind_splits prod.splits sum.splits)

lemma prog_command_cases:
  assumes "prog_command t pl p = Some (resp, p')"
  obtains al als c g ci where
    "eop_send_command al (pr_client p) t pl (case pl of None \<Rightarrow> 0 | Some bs \<Rightarrow> word_of_nat (length bs)) (pr_glob p) (pr_io p)
       = Some (resp, c, g, ci)"
    "p' = p\<lparr>pr_client := c, pr_glob := g, pr_io := ci, pr_allocs := als, pr_live := pr_live p + (if resp = None then 0 else 1)\<rparr>"
  using assms by (auto simp: prog_command_def Let_def split: bind_splits prod.splits)

lemma prog_command_frame:
  assumes "prog_command t pl p = Some (resp, p')"
  shows "pr_in p' = pr_in p" "pr_closed p' = pr_closed p" "pr_live p' = pr_live p + (if resp = None then 0 else 1)"
    "map_option ec_socket_fd (pr_client p') = map_option ec_socket_fd (pr_client p)"
  using assms by (auto elim!: prog_command_cases dest!: send_command_fd)

text \<open>What every command of the menu keeps, and what is left of the input.\<close>

definition kept :: "prog \<Rightarrow> prog \<Rightarrow> bool" where
  "kept p p' \<longleftrightarrow> length (pr_in p') \<le> length (pr_in p) \<and> pr_closed p' = pr_closed p \<and> pr_live p' = pr_live p
     \<and> map_option ec_socket_fd (pr_client p') = map_option ec_socket_fd (pr_client p)"

lemma kept_refl [simp]: "kept p p"
  by (simp add: kept_def)

lemma kept_trans: "kept p q \<Longrightarrow> kept q r \<Longrightarrow> kept p r"
  by (simp add: kept_def)

lemma kept_print [simp]: "kept (print_out s p) q \<longleftrightarrow> kept p q" "kept p (print_out s q) \<longleftrightarrow> kept p q"
  "kept (print_err s p) q \<longleftrightarrow> kept p q" "kept p (print_err s q) \<longleftrightarrow> kept p q"
  by (simp_all add: kept_def)

lemma kept_command: "prog_command t pl p = Some (resp, p') \<Longrightarrow> kept p (report_response resp p')"
  by (frule prog_command_frame) (simp add: kept_def prog_command_frame)

lemma kept_read_field: "read_field prompt p = Some (s, p') \<Longrightarrow> kept p p'"
  by (auto simp: read_field_def kept_def INPUT_BUF_SIZE_def Let_def split: bind_splits dest: fgets_shrinks)

lemma kept_send_json: "send_json t s p = Some p' \<Longrightarrow> kept p p'"
  by (auto simp: send_json_def snprintf_def split: if_splits bind_splits intro: kept_command)

lemmas kept_steps = kept_read_field kept_send_json kept_command

lemma kept_register: "cmd_register p = Some p' \<Longrightarrow> kept p p'"
  by (auto simp: cmd_register_def Let_def simp del: append.simps split: bind_splits dest!: kept_steps) (simp add: kept_def)

lemma kept_query: "cmd_query_node p = Some p' \<Longrightarrow> kept p p'"
  by (auto simp: cmd_query_node_def Let_def simp del: append.simps split: bind_splits dest!: kept_steps) (simp add: kept_def)

lemma kept_list: "cmd_list_nodes p = Some p' \<Longrightarrow> kept p p'"
  by (auto simp: cmd_list_nodes_def Let_def simp del: append.simps split: bind_splits dest!: kept_steps)

lemma kept_heartbeat: "cmd_heartbeat p = Some p' \<Longrightarrow> kept p p'"
  by (auto simp: cmd_heartbeat_def Let_def report_response_def simp del: append.simps
      split: bind_splits option.splits if_splits dest!: kept_command)

lemma kept_choice: "demo_choice n p = Some (running, p') \<Longrightarrow> kept p p'"
  by (auto simp: demo_choice_def split: if_splits dest: kept_register kept_query kept_list kept_heartbeat)

subsection \<open>The loop and the program\<close>

function demo_loop :: "prog \<Rightarrow> prog option" where
  "demo_loop p =
     (case fgets INPUT_BUF_SIZE (pr_in p) of
        None \<Rightarrow> Some (print_menu p)
      | Some (line, rest) \<Rightarrow>
          (case atoi (strip_newline (cstr line)) of
             None \<Rightarrow> None
           | Some n \<Rightarrow>
               (case demo_choice n ((print_menu p)\<lparr>pr_in := rest\<rparr>) of
                  None \<Rightarrow> None
                | Some (running, p') \<Rightarrow> (if running then demo_loop p' else Some p'))))"
  by pat_completeness auto
termination
  by (relation "measure (\<lambda>p. length (pr_in p))")
     (auto simp: kept_def INPUT_BUF_SIZE_def dest!: kept_choice fgets_shrinks)

declare demo_loop.simps [simp del]

text \<open>A prompt before connecting: the program ends when there is no answer.\<close>

definition read_answer :: "string \<Rightarrow> prog \<Rightarrow> (string option \<times> prog)" where
  "read_answer prompt p =
     (let p = print_out prompt p in
      case fgets INPUT_BUF_SIZE (pr_in p) of
        None \<Rightarrow> (None, p)
      | Some (line, rest) \<Rightarrow> (Some (strip_newline (cstr line)), p\<lparr>pr_in := rest\<rparr>))"

definition demo_session :: "string \<Rightarrow> int \<Rightarrow> int \<Rightarrow> connect_env \<Rightarrow> prog \<Rightarrow> (int \<times> prog) option" where
  "demo_session host port timeout_ms env p = do {
     let p = print_out (''Connecting to '' @ host @ '':'' @ dec_of_int port @ '' (timeout '' @ dec_of_int timeout_ms @ '' ms) ...'' @ NL) p;
     let p = prog_connect host port timeout_ms env p;
     if pr_client p = None then
       Some (EXIT_FAILURE, print_err (''Connection failed: '' @ last_error_text ERR_MSG_SIZE p @ NL) p)
     else do {
       let p = print_out (''Connected.'' @ NL) p;
       (welcome, p) \<leftarrow> prog_command EOP_HEARTBEAT None p;
       p \<leftarrow> demo_loop (eop_response_free welcome p);
       Some (EXIT_SUCCESS, print_out (''Disconnected.'' @ NL) (prog_disconnect p))
     }
   }"

text \<open>
  Where to connect: from the command line, or asked for. Outer \<open>None\<close>: \<^verbatim>\<open>atoi\<close> is undefined; inner
  \<open>None\<close>: the input ends before the questions are answered.
\<close>

definition demo_params :: "string list \<Rightarrow> prog \<Rightarrow> ((string \<times> int \<times> int) option \<times> prog) option" where
  "demo_params args p =
     (case args of
        host # rest \<Rightarrow> do {
          port \<leftarrow> (case rest of q # _ \<Rightarrow> atoi q | [] \<Rightarrow> Some DEFAULT_CLIENT_PORT);
          timeout_ms \<leftarrow> (case rest of _ # t # _ \<Rightarrow> atoi t | _ \<Rightarrow> Some CONNECT_TIMEOUT_MS);
          Some (Some (host, port, timeout_ms), p)
        }
      | [] \<Rightarrow>
          (case read_answer (''Host ['' @ DEFAULT_HOST @ '']: '') p of
             (None, p) \<Rightarrow> Some (None, p)
           | (Some host_buf, p) \<Rightarrow>
               (case read_answer (''Port ['' @ dec_of_int DEFAULT_CLIENT_PORT @ '']: '') p of
                  (None, p) \<Rightarrow> Some (None, p)
                | (Some port_buf, p) \<Rightarrow> do {
                    port \<leftarrow> (if port_buf \<noteq> [] then atoi port_buf else Some DEFAULT_CLIENT_PORT);
                    (case read_answer (''Timeout ms ['' @ dec_of_int CONNECT_TIMEOUT_MS @ '']: '') p of
                       (None, p) \<Rightarrow> Some (None, p)
                     | (Some timeout_buf, p) \<Rightarrow> do {
                         timeout_ms \<leftarrow> (if timeout_buf \<noteq> [] then atoi timeout_buf else Some CONNECT_TIMEOUT_MS);
                         Some (Some (if host_buf \<noteq> [] then host_buf else DEFAULT_HOST, port, timeout_ms), p)
                       })
                  })))"

definition eop_demo :: "string list \<Rightarrow> connect_env \<Rightarrow> prog \<Rightarrow> (int \<times> prog) option" where
  "eop_demo args env p = do {
     (params, p) \<leftarrow> demo_params args p;
     case params of
       None \<Rightarrow> Some (EXIT_FAILURE, p)
     | Some (host, port, timeout_ms) \<Rightarrow> demo_session host port timeout_ms env p
   }"

section \<open>Lemmas\<close>

subsection \<open>Resources\<close>

text \<open>Whether \<^verbatim>\<open>eop_connect\<close> gets as far as opening a socket.\<close>

definition opens_socket :: "int \<Rightarrow> connect_env \<Rightarrow> bool" where
  "opens_socket port env \<longleftrightarrow> 1 \<le> port \<and> port \<le> 65535 \<and> cv_alloc env \<and> cv_pton env \<and> 0 \<le> cv_socket env"

text \<open>The state at the end: every response freed, no handle left, the socket closed if it was opened, once.\<close>

definition released :: "int \<Rightarrow> connect_env \<Rightarrow> prog \<Rightarrow> prog \<Rightarrow> bool" where
  "released port env p p' \<longleftrightarrow> pr_live p' = pr_live p \<and> pr_client p' = None
     \<and> pr_closed p' = pr_closed p @ (if opens_socket port env then [cv_socket env] else [])"

text \<open>What an open connection still has to close.\<close>

definition connected :: "int \<Rightarrow> connect_env \<Rightarrow> prog \<Rightarrow> prog \<Rightarrow> bool" where
  "connected port env p p' \<longleftrightarrow> pr_live p' = pr_live p
     \<and> pr_closed p' @ eop_disconnect (pr_client p') = pr_closed p @ (if opens_socket port env then [cv_socket env] else [])"

lemma connected_connect: "connected port env p (prog_connect host port t env p)"
  by (auto simp: connected_def opens_socket_def prog_connect_def eop_connect_def eop_disconnect_def Let_def
      TCP_PORT_MIN_VALUE_def TCP_PORT_MAX_VALUE_def split: option.splits prod.splits)

lemma connected_failed: "connected port env p q \<Longrightarrow> pr_client q = None \<Longrightarrow> released port env p (print_err s q)"
  by (simp add: connected_def released_def eop_disconnect_def)

lemma disconnect_fd: "map_option ec_socket_fd c = map_option ec_socket_fd c' \<Longrightarrow> eop_disconnect c = eop_disconnect c'"
  by (cases c; cases c') (simp_all add: eop_disconnect_def)

lemma connected_kept:
  assumes "connected port env p q" "kept q r"
  shows "connected port env p r"
proof -
  have "eop_disconnect (pr_client r) = eop_disconnect (pr_client q)"
    using assms(2) by (intro disconnect_fd) (simp add: kept_def)
  then show ?thesis using assms by (simp add: connected_def kept_def)
qed

lemma connected_disconnect: "connected port env p q \<Longrightarrow> released port env p (prog_disconnect q)"
  by (simp add: connected_def released_def prog_disconnect_def)

lemma connected_print [simp]: "connected port env p (print_out s q) \<longleftrightarrow> connected port env p q"
  by (simp add: connected_def)

lemma kept_free: "prog_command t pl p = Some (resp, p') \<Longrightarrow> kept p (eop_response_free resp p')"
  by (frule prog_command_frame) (simp add: kept_def prog_command_frame)

lemma cstr_simps [simp]:
  "pr_in (snd (payload_to_cstr r p)) = pr_in p" "pr_client (snd (payload_to_cstr r p)) = pr_client p"
  "pr_closed (snd (payload_to_cstr r p)) = pr_closed p" "pr_live (snd (payload_to_cstr r p)) = pr_live p"
  "pr_io (snd (payload_to_cstr r p)) = pr_io p" "pr_allocs (snd (payload_to_cstr r p)) = pr_allocs p"
  using malloc_simps [of p]
  by (simp_all add: payload_to_cstr_def split_beta Let_def del: malloc_simps split: option.splits)

text \<open>An exchange either keeps the connection open or releases everything.\<close>

definition exchange_ok :: "(prog \<Rightarrow> (bool \<times> prog) option) \<Rightarrow> bool" where
  "exchange_ok f \<longleftrightarrow> (\<forall>port env p q ok r. f q = Some (ok, r) \<longrightarrow> connected port env p q \<longrightarrow>
     (if ok then connected port env p r else released port env p r))"

lemma exchange_okD:
  "exchange_ok f \<Longrightarrow> f q = Some (ok, r) \<Longrightarrow> connected port env p q \<Longrightarrow>
   if ok then connected port env p r else released port env p r"
  unfolding exchange_ok_def by blast

lemma released_failed:
  assumes "prog_command t pl q = Some (resp, r)" "connected port env p q"
  shows "released port env p (command_failed tag resp r)"
proof -
  have "kept q (eop_response_free resp (print_err s (snd (payload_to_cstr resp r))))" for s
    using kept_free [OF assms(1)] by (simp add: kept_def)
  then show ?thesis
    using connected_disconnect connected_kept [OF assms(2)]
    by (simp add: command_failed_def split_beta Let_def)
qed

lemma drain_welcome_ok: "exchange_ok drain_welcome"
  unfolding exchange_ok_def drain_welcome_def
proof (intro allI impI)
  fix port env p q ok r
  assume a: "prog_command EOP_HEARTBEAT None q \<bind> (\<lambda>(welcome, p). Some (case welcome of
         None \<Rightarrow> (False, prog_disconnect (print_err (''[welcome] FAILED '' @ EM_DASH @ '' could not drain welcome frame'' @ NL) p))
       | Some r \<Rightarrow> (True, eop_response_free welcome
                     (print_out (''[welcome]    OK   type='' @ msg_type_hex (er_msg_type r) @ NL) p)))) = Some (ok, r)"
    and c: "connected port env p q"
  then obtain w q' where w: "prog_command EOP_HEARTBEAT None q = Some (w, q')" by (auto split: bind_splits)
  have "kept q (eop_response_free w (print_out s q'))" "w = None \<Longrightarrow> kept q (print_err s q')" for s
    using kept_free [OF w] by (simp_all add: kept_def)
  then show "if ok then connected port env p r else released port env p r"
    using a w connected_kept [OF c] connected_disconnect by (cases w) (auto simp del: append.simps)
qed

lemma register_node_ok: "exchange_ok register_node"
  unfolding exchange_ok_def
proof (intro allI impI)
  fix port env p q ok r
  assume a: "register_node q = Some (ok, r)" and c: "connected port env p q"
  then obtain w q' where w: "prog_command EOP_REGISTER (Some (bytes_of_string reg_payload)) q = Some (w, q')"
    by (auto simp: register_node_def split: bind_splits)
  have "kept q (eop_response_free w (print_out s q'))" for s using kept_free [OF w] by (simp add: kept_def)
  then show "if ok then connected port env p r else released port env p r"
    using a w connected_kept [OF c] released_failed [OF w c] by (auto simp: register_node_def simp del: append.simps split: if_splits)
qed

lemma query_node_ok: "exchange_ok query_node"
  unfolding exchange_ok_def
proof (intro allI impI)
  fix port env p q ok r
  assume a: "query_node q = Some (ok, r)" and c: "connected port env p q"
  then obtain w q' where w: "prog_command EOP_QUERY_NODE (Some (bytes_of_string query_payload)) q = Some (w, q')"
    by (auto simp: query_node_def split: bind_splits)
  have "kept q (eop_response_free w (print_out s (snd (payload_to_cstr w q'))))" for s
    using kept_free [OF w] by (simp add: kept_def)
  then show "if ok then connected port env p r else released port env p r"
    using a w connected_kept [OF c] released_failed [OF w c]
    by (auto simp: query_node_def split_beta Let_def simp del: append.simps split: if_splits)
qed

lemma demo_loop_kept: "demo_loop p = Some p' \<Longrightarrow> kept p p'"
proof (induction p rule: demo_loop.induct)
  case (1 p)
  show ?case
  proof (cases "fgets INPUT_BUF_SIZE (pr_in p)")
    case None
    then show ?thesis using "1.prems" by (subst (asm) demo_loop.simps) (auto simp: print_menu_def)
  next
    case (Some lr)
    then obtain line rest where f: "fgets INPUT_BUF_SIZE (pr_in p) = Some (line, rest)" by (cases lr) simp
    let ?q = "(print_menu p)\<lparr>pr_in := rest\<rparr>"
    have k: "kept p ?q" using fgets_shrinks [OF f] by (simp add: kept_def print_menu_def INPUT_BUF_SIZE_def)
    obtain n running q where n: "atoi (strip_newline (cstr line)) = Some n" "demo_choice n ?q = Some (running, q)"
      and r: "if running then demo_loop q = Some p' else p' = q"
      using "1.prems" f by (subst (asm) demo_loop.simps) (auto split: option.splits if_splits)
    have "kept ?q q" using kept_choice [OF n(2)] .
    moreover have "running \<Longrightarrow> kept q p'" using "1.IH" [OF f _ n(1,2)] r by simp
    ultimately show ?thesis using k r kept_trans by (cases running) auto
  qed
qed

lemma exchange_bind:
  assumes "exchange_ok f" "connected port env p q"
    and "f q \<bind> (\<lambda>(ok, r). if \<not> ok then Some (EXIT_FAILURE, r) else g r) = Some (code, p')"
    and "\<And>r. connected port env p r \<Longrightarrow> g r = Some (code, p') \<Longrightarrow> released port env p p'"
  shows "released port env p p'"
proof -
  obtain ok r where r: "f q = Some (ok, r)" using assms(3) by (auto split: bind_splits)
  show ?thesis using exchange_okD [OF assms(1) r assms(2)] assms(3,4) r by (cases ok) auto
qed

lemma released_basic:
  assumes "connect_basic args env p = Some (code, p')" "basic_port args = Some port"
  shows "released port env p p'"
proof -
  define host where "host = basic_host args"
  define q0 where "q0 = prog_connect host port DEFAULT_TIMEOUT_MS env p"
  define q1 where "q1 = print_out (''[connect]    OK   host='' @ host @ '' port='' @ dec_of_int port @ NL) q0"
  have c0: "connected port env p q0" unfolding q0_def by (rule connected_connect)
  show ?thesis
  proof (cases "pr_client q0 = None")
    case True
    then show ?thesis
      using assms connected_failed [OF c0]
      by (auto simp: connect_basic_def host_def [symmetric] q0_def [symmetric] Let_def simp del: append.simps)
  next
    case False
    have chain: "basic_exchanges q1 = Some (code, p')"
      using assms False
      unfolding connect_basic_def Let_def host_def [symmetric] by (simp add: q0_def [symmetric] q1_def del: append.simps)
    have c1: "connected port env p q1" using c0 by (simp add: q1_def)
    show ?thesis
      by (rule exchange_bind [OF drain_welcome_ok c1 chain [unfolded basic_exchanges_def]], rule exchange_bind [OF register_node_ok], assumption, assumption,
          rule exchange_bind [OF query_node_ok], assumption, assumption)
         (auto simp: released_def simp del: append.simps dest!: connected_disconnect)
  qed
qed

lemma released_demo:
  assumes "demo_session host port t env p = Some (code, p')"
  shows "released port env p p'"
proof -
  define q0 where "q0 = prog_connect host port t env
    (print_out (''Connecting to '' @ host @ '':'' @ dec_of_int port @ '' (timeout '' @ dec_of_int t @ '' ms) ...'' @ NL) p)"
  have c0: "connected port env p q0" using connected_connect unfolding q0_def by (fastforce simp: connected_def)
  show ?thesis
  proof (cases "pr_client q0 = None")
    case True
    then show ?thesis
      using assms connected_failed [OF c0]
      by (auto simp: demo_session_def q0_def [symmetric] Let_def simp del: append.simps)
  next
    case False
    then obtain w q1 q2 where q: "prog_command EOP_HEARTBEAT None (print_out (''Connected.'' @ NL) q0) = Some (w, q1)"
        "demo_loop (eop_response_free w q1) = Some q2" "p' = print_out (''Disconnected.'' @ NL) (prog_disconnect q2)"
      using assms by (auto simp: demo_session_def q0_def [symmetric] Let_def simp del: append.simps split: bind_splits)
    have "kept q0 q2" using kept_trans [OF kept_free [OF q(1)] demo_loop_kept [OF q(2)]] by simp
    then show ?thesis
      using connected_disconnect [OF connected_kept [OF c0]] by (simp add: q(3) released_def)
  qed
qed

subsection \<open>Lines and payloads\<close>

lemma length_strip: "length (strip_newline s) \<le> length s"
  by (simp add: strip_newline_def)

lemma length_cstr: "length (cstr s) \<le> length s"
  by (simp add: cstr_def length_takeWhile_le)

lemma fgets_length: "fgets m inp = Some (l, rest) \<Longrightarrow> length l \<le> m - 1"
  by (auto simp: fgets_def Let_def split: if_splits)

lemma read_field_length:
  assumes "read_field prompt p = Some (s, p')"
  shows "length s \<le> 127"
proof -
  obtain line rest where "fgets INPUT_BUF_SIZE (pr_in p) = Some (line, rest)" "s = strip_newline (cstr line)"
    using assms by (auto simp: read_field_def Let_def split: bind_splits)
  then show ?thesis
    using fgets_length length_strip [of "cstr line"] length_cstr [of line] by (fastforce simp: INPUT_BUF_SIZE_def)
qed

lemma read_field_io: "read_field prompt p = Some (s, p') \<Longrightarrow> pr_io p' = pr_io p \<and> pr_client p' = pr_client p \<and> pr_allocs p' = pr_allocs p"
  by (auto simp: read_field_def Let_def split: bind_splits)

lemma length_dec_u64: "length (dec_of_nat (unat (v :: u64))) \<le> 20"
proof -
  have "unat v < 2 ^ 64" using unsigned_less [of v, where 'a = nat] by simp
  then have "unat v < 10 ^ 20" by simp
  then show ?thesis unfolding dec_of_nat_def by (intro length_digits) simp_all
qed

lemma register_json_length:
  "length (register_json n b i c) = length n + length b + length i + length c + 59"
  by (simp add: register_json_def quote_def)

text \<open>A line that an answer to a prompt can hold.\<close>

definition good_line :: "string \<Rightarrow> bool" where
  "good_line s \<longleftrightarrow> length s \<le> 126 \<and> CHR 10 \<notin> set s \<and> CHR 0x00 \<notin> set s"

lemma fgets_line:
  assumes "good_line s"
  shows "fgets INPUT_BUF_SIZE (s @ NL @ rest) = Some (s @ NL, rest)"
proof -
  have "takeWhile (\<lambda>c. c \<noteq> CHR 10) (s @ NL @ rest) = s"
    using assms by (auto simp: good_line_def NL_def takeWhile_append takeWhile_eq_all_conv)
  moreover have "min 127 (Suc (length s)) = Suc (length s)" using assms by (simp add: good_line_def)
  ultimately show ?thesis by (simp add: fgets_def INPUT_BUF_SIZE_def NL_def)
qed

lemma strip_line: "good_line s \<Longrightarrow> strip_newline (cstr (s @ NL)) = s"
  by (subgoal_tac "takeWhile (\<lambda>c. c \<noteq> CHR 0x00) (s @ NL) = s @ NL")
     (auto simp: strip_newline_def cstr_def NL_def good_line_def takeWhile_eq_all_conv)

lemma read_field_line:
  "good_line s \<Longrightarrow> pr_in p = s @ NL @ rest \<Longrightarrow> read_field prompt p = Some (s, (print_out prompt p)\<lparr>pr_in := rest\<rparr>)"
  by (simp add: read_field_def fgets_line strip_line)

subsection \<open>What the console sends\<close>

definition sendable :: "prog \<Rightarrow> bool" where
  "sendable p \<longleftrightarrow> pr_client p \<noteq> None \<and> (\<forall>e. TxErr e \<notin> set (io_tx (snd (pr_io p)))) \<and> list_all ca_send (pr_allocs p)"

definition next_id :: "prog \<Rightarrow> u32" where
  "next_id p = ec_next_msg_id (the (pr_client p))"

definition prog_sent :: "prog \<Rightarrow> bytes" where
  "prog_sent p = io_sent (snd (pr_io p))"

definition performs :: "prog \<Rightarrow> bytes \<Rightarrow> string \<Rightarrow> prog \<Rightarrow> bool" where
  "performs p frame rest p' \<longleftrightarrow> sendable p' \<and> prog_sent p' = prog_sent p @ frame \<and> next_id p' = next_id p + 1 \<and> pr_in p' = rest"

lemma view_simps [simp]:
  "sendable (print_out s p) = sendable p" "next_id (print_out s p) = next_id p" "prog_sent (print_out s p) = prog_sent p"
  "sendable (print_err s p) = sendable p" "next_id (print_err s p) = next_id p" "prog_sent (print_err s p) = prog_sent p"
  "sendable (report_response r p) = sendable p" "next_id (report_response r p) = next_id p"
  "prog_sent (report_response r p) = prog_sent p"
  "sendable (p\<lparr>pr_in := inp\<rparr>) = sendable p" "next_id (p\<lparr>pr_in := inp\<rparr>) = next_id p"
  "prog_sent (p\<lparr>pr_in := inp\<rparr>) = prog_sent p"
  by (simp_all add: sendable_def next_id_def prog_sent_def)

lemma performs_simps [simp]:
  "performs p f rest (print_out s q) = performs p f rest q" "performs p f rest (print_err s q) = performs p f rest q"
  "performs p f rest (report_response r q) = performs p f rest q"
  "performs (print_out s p) f rest q = performs p f rest q" "performs (p\<lparr>pr_in := inp\<rparr>) f rest q = performs p f rest q"
  by (simp_all add: performs_def)

lemma performs_print_response [simp]: "performs p f rest (print_response r q) = performs p f rest q"
  using performs_simps(3) [of p f rest "Some r" q] by (simp add: report_response_def del: performs_simps)

lemma command_performs:
  assumes "sendable p" "length pl < 2 ^ 32" "1 \<le> t" "t \<le> 9" "MessageType_to_byte ty = word_of_int t"
  shows "\<exists>resp p'. prog_command t (Some (bytes_of_string pl)) p = Some (resp, p')
    \<and> performs p (frame_bytes ty (next_id p) pl) (pr_in p) p'"
proof -
  obtain c where c: "pr_client p = Some c" using assms(1) by (auto simp: sendable_def)
  obtain al als where al: "(case pr_allocs p of
      [] \<Rightarrow> (\<lparr>ca_send = True, ca_payload = True, ca_response = True\<rparr>, []) | a # as \<Rightarrow> (a, as)) = (al, als)"
    by (metis surj_pair)
  have ok: "ca_send al" "list_all ca_send als" using assms(1) al by (auto simp: sendable_def split: list.splits)
  have len: "length (bytes_of_string pl) = length pl" by simp
  obtain resp c' ci' where s: "eop_send_command al (Some c) t (Some (bytes_of_string pl)) (word_of_nat (length pl)) (pr_glob p) (pr_io p)
        = Some (resp, Some c', pr_glob p, ci')"
      "io_sent (snd ci') = io_sent (snd (pr_io p)) @ writeU32BE (word_of_nat (10 + length pl))
        @ envelope_bytes (word_of_int t) (ec_next_msg_id c) (bytes_of_string pl)"
      "\<forall>e. TxErr e \<notin> set (io_tx (snd ci'))" "ec_next_msg_id c' = ec_next_msg_id c + 1"
    using send_command_sends [of "pr_io p" al "bytes_of_string pl" t c "pr_glob p"] assms ok(1)
    unfolding len sendable_def by blast
  show ?thesis
    using al c s ok(2)
    by (auto simp: prog_command_def performs_def sendable_def next_id_def prog_sent_def frame_envelope assms(5) simp del: of_nat_add)
qed

lemma command_null_performs:
  assumes "sendable p" "1 \<le> t" "t \<le> 9" "MessageType_to_byte ty = word_of_int t"
  shows "\<exists>resp p'. prog_command t None p = Some (resp, p') \<and> performs p (frame_bytes ty (next_id p) []) (pr_in p) p'"
  using command_performs [OF assms(1) _ assms(2-), of "[]"]
  by (simp add: prog_command_def send_command_null bytes_of_string_def)

text \<open>What a user asks for, the lines typed for it, and the frame it means.\<close>

datatype choice = Choose_register string string string string | Choose_query string | Choose_list | Choose_heartbeat

fun choice_lines :: "choice \<Rightarrow> string list" where
  "choice_lines (Choose_register n b i c) = [''1'', n, b, i, c]"
| "choice_lines (Choose_query n) = [''2'', n]"
| "choice_lines Choose_list = [''3'']"
| "choice_lines Choose_heartbeat = [''4'']"

fun choice_frame :: "u32 \<Rightarrow> choice \<Rightarrow> bytes" where
  "choice_frame msg_id (Choose_register n b i c) =
     frame_bytes REGISTER msg_id (register_json n b i (dec_of_nat (unat (strtoul c))))"
| "choice_frame msg_id (Choose_query n) = frame_bytes QUERY_NODE msg_id (query_json n)"
| "choice_frame msg_id Choose_list = frame_bytes LIST_NODES msg_id []"
| "choice_frame msg_id Choose_heartbeat = frame_bytes HEARTBEAT msg_id []"

definition typed :: "string list \<Rightarrow> string" where
  "typed ls = concat (map (\<lambda>l. l @ NL) ls)"

fun script_frames :: "u32 \<Rightarrow> choice list \<Rightarrow> bytes" where
  "script_frames msg_id [] = []"
| "script_frames msg_id (c # cs) = choice_frame msg_id c @ script_frames (msg_id + 1) cs"

lemma typed_simps [simp]: "typed [] = []" "typed (l # ls) = l @ NL @ typed ls" "typed (xs @ ys) = typed xs @ typed ys"
  by (simp_all add: typed_def)

lemma send_json_performs:
  assumes "sendable p" "length s < JSON_BUF_SIZE" "1 \<le> t" "t \<le> 9" "MessageType_to_byte ty = word_of_int t"
  shows "\<exists>p'. send_json t s p = Some p' \<and> performs p (frame_bytes ty (next_id p) s) (pr_in p) p'"
proof -
  have "length s < 2 ^ 32" using assms(2) by (simp add: JSON_BUF_SIZE_def)
  then obtain resp p' where "prog_command t (Some (bytes_of_string s)) p = Some (resp, p')"
      "performs p (frame_bytes ty (next_id p) s) (pr_in p) p'"
    using command_performs [OF assms(1) _ assms(3-)] by blast
  then show ?thesis using assms(2) by (simp add: send_json_def snprintf_def JSON_BUF_SIZE_def)
qed

lemma cmd_register_performs:
  assumes "sendable p" "good_line n" "good_line b" "good_line i" "good_line c" "pr_in p = typed [n, b, i, c] @ rest"
  shows "\<exists>p'. cmd_register p = Some p' \<and> performs p (choice_frame (next_id p) (Choose_register n b i c)) rest p'"
proof -
  let ?json = "register_json n b i (dec_of_nat (unat (strtoul c)))"
  have len: "length ?json < JSON_BUF_SIZE"
    using assms(2-5) length_dec_u64 [of "strtoul c"] by (simp add: register_json_length good_line_def JSON_BUF_SIZE_def)
  define q where "q = (print_out ''  capacity     : '' ((print_out ''  ip_address   : '' ((print_out ''  bunker_name  : ''
    ((print_out ''  node_id      : '' (print_out (NL @ ''--- REGISTER NODE ---'' @ NL) p))\<lparr>pr_in := typed [b, i, c] @ rest\<rparr>))
      \<lparr>pr_in := typed [i, c] @ rest\<rparr>))\<lparr>pr_in := typed [c] @ rest\<rparr>))\<lparr>pr_in := rest\<rparr>"
  have r: "cmd_register p = send_json EOP_REGISTER ?json q"
    using assms(2-6) by (simp add: cmd_register_def read_field_line q_def del: append.simps)
  have "sendable q" "next_id q = next_id p" "pr_in q = rest" "performs q f rest p' = performs p f rest p'" for f p'
    using assms(1) by (simp_all add: q_def del: append.simps)
  then show ?thesis
    using send_json_performs [of q ?json EOP_REGISTER REGISTER] len unfolding r by (simp add: EOP_REGISTER_def)
qed

lemma cmd_query_performs:
  assumes "sendable p" "good_line n" "pr_in p = typed [n] @ rest"
  shows "\<exists>p'. cmd_query_node p = Some p' \<and> performs p (choice_frame (next_id p) (Choose_query n)) rest p'"
proof -
  have len: "length (query_json n) < JSON_BUF_SIZE"
    using assms(2) by (simp add: query_json_def quote_def good_line_def JSON_BUF_SIZE_def)
  define q where "q = (print_out ''  node_id: '' (print_out (NL @ ''--- QUERY NODE ---'' @ NL) p))\<lparr>pr_in := rest\<rparr>"
  have r: "cmd_query_node p = send_json EOP_QUERY_NODE (query_json n) q"
    using assms(2,3) by (simp add: cmd_query_node_def read_field_line q_def del: append.simps)
  have "sendable q" "next_id q = next_id p" "pr_in q = rest" "performs q f rest p' = performs p f rest p'" for f p'
    using assms(1) by (simp_all add: q_def del: append.simps)
  then show ?thesis
    using send_json_performs [of q "query_json n" EOP_QUERY_NODE QUERY_NODE] len unfolding r by (simp add: EOP_QUERY_NODE_def)
qed

lemma cmd_list_performs:
  assumes "sendable p"
  shows "\<exists>p'. cmd_list_nodes p = Some p' \<and> performs p (choice_frame (next_id p) Choose_list) (pr_in p) p'"
proof -
  define q where "q = print_out (NL @ ''--- LIST NODES ---'' @ NL) p"
  have q: "sendable q" "next_id q = next_id p" "pr_in q = pr_in p" "performs q f rest p' = performs p f rest p'" for f rest p'
    using assms by (simp_all add: q_def del: append.simps)
  obtain resp p' where "prog_command EOP_LIST_NODES None q = Some (resp, p')"
      "performs q (frame_bytes LIST_NODES (next_id q) []) (pr_in q) p'"
    using command_null_performs [OF q(1), of EOP_LIST_NODES LIST_NODES] by (auto simp: EOP_LIST_NODES_def)
  then show ?thesis using q by (simp add: cmd_list_nodes_def q_def [symmetric] Let_def del: append.simps)
qed

lemma cmd_heartbeat_performs:
  assumes "sendable p"
  shows "\<exists>p'. cmd_heartbeat p = Some p' \<and> performs p (choice_frame (next_id p) Choose_heartbeat) (pr_in p) p'"
proof -
  define q where "q = print_out (NL @ ''--- HEARTBEAT ---'' @ NL) p"
  have q: "sendable q" "next_id q = next_id p" "pr_in q = pr_in p" "performs q f rest p' = performs p f rest p'" for f rest p'
    using assms by (simp_all add: q_def del: append.simps)
  obtain resp p' where "prog_command EOP_HEARTBEAT None q = Some (resp, p')"
      "performs q (frame_bytes HEARTBEAT (next_id q) []) (pr_in q) p'"
    using command_null_performs [OF q(1), of EOP_HEARTBEAT HEARTBEAT] by (auto simp: EOP_HEARTBEAT_def)
  then show ?thesis
    using q by (cases resp) (simp_all add: cmd_heartbeat_def q_def [symmetric] Let_def del: append.simps)
qed

lemma atoi_choices: "atoi ''0'' = Some 0" "atoi ''1'' = Some 1" "atoi ''2'' = Some 2" "atoi ''3'' = Some 3" "atoi ''4'' = Some 4"
  by code_simp+

fun choice_number :: "choice \<Rightarrow> nat" where
  "choice_number (Choose_register n b i c) = 1"
| "choice_number (Choose_query n) = 2"
| "choice_number Choose_list = 3"
| "choice_number Choose_heartbeat = 4"

lemma choice_performs:
  assumes "sendable p" "list_all good_line (choice_lines c)" "pr_in p = typed (tl (choice_lines c)) @ rest"
  shows "\<exists>p'. demo_choice (int (choice_number c)) p = Some (True, p') \<and> performs p (choice_frame (next_id p) c) rest p'"
proof (cases c)
  case (Choose_register n b i cap)
  then show ?thesis using cmd_register_performs [of p n b i cap rest] assms by (auto simp: demo_choice_def)
next
  case (Choose_query n)
  then show ?thesis using cmd_query_performs [of p n rest] assms by (auto simp: demo_choice_def)
next
  case Choose_list
  then show ?thesis using cmd_list_performs [of p] assms by (auto simp: demo_choice_def)
next
  case Choose_heartbeat
  then show ?thesis using cmd_heartbeat_performs [of p] assms by (auto simp: demo_choice_def)
qed

lemma choice_lines_cons:
  "choice_lines c = hd (choice_lines c) # tl (choice_lines c) \<and> atoi (hd (choice_lines c)) = Some (int (choice_number c))"
  by (cases c) (simp_all add: atoi_choices)

text \<open>A whole session with the menu.\<close>

lemma demo_loop_performs:
  assumes "sendable p" "\<forall>c \<in> set cs. list_all good_line (choice_lines c)"
    and "pr_in p = typed (concat (map choice_lines cs) @ [''0'']) @ rest"
  shows "\<exists>p'. demo_loop p = Some p' \<and> prog_sent p' = prog_sent p @ script_frames (next_id p) cs \<and> pr_in p' = rest"
  using assms
proof (induction cs arbitrary: p)
  case Nil
  have g: "good_line ''0''" by (simp add: good_line_def)
  have f: "fgets INPUT_BUF_SIZE (pr_in p) = Some (''0'' @ NL, rest)"
    unfolding Nil.prems(3) using fgets_line [OF g, of rest] by simp
  show ?case
    by (subst demo_loop.simps) (simp add: f strip_line [OF g, simplified] atoi_choices demo_choice_def print_menu_def)
next
  case (Cons c cs)
  let ?rest = "typed (concat (map choice_lines cs) @ [''0'']) @ rest"
  let ?l = "hd (choice_lines c)" and ?ls = "tl (choice_lines c)"
  have g: "good_line ?l" by (cases c) (simp_all add: good_line_def)
  have i: "pr_in p = ?l @ NL @ typed ?ls @ ?rest"
    using Cons.prems(3) choice_lines_cons [of c] by (metis (no_types, lifting) append.assoc concat.simps(2) list.simps(9) typed_simps(2,3))
  let ?q = "(print_menu p)\<lparr>pr_in := typed ?ls @ ?rest\<rparr>"
  obtain p1 where p1: "demo_choice (int (choice_number c)) ?q = Some (True, p1)"
      "performs ?q (choice_frame (next_id ?q) c) ?rest p1"
    using choice_performs [of ?q c ?rest] Cons.prems(1,2) by (auto simp: print_menu_def)
  then obtain p' where p': "demo_loop p1 = Some p'" "prog_sent p' = prog_sent p1 @ script_frames (next_id p1) cs" "pr_in p' = rest"
    using Cons.IH [of p1] Cons.prems(2) by (auto simp: performs_def)
  have "demo_loop p = demo_loop p1"
    using choice_lines_cons [of c] p1(1) by (subst demo_loop.simps) (simp add: i fgets_line [OF g] strip_line [OF g])
  then show ?case using p' p1(2) by (simp add: performs_def print_menu_def)
qed

subsection \<open>The life cycle against a server that answers\<close>

definition aligned :: "bytes \<Rightarrow> prog \<Rightarrow> bool" where
  "aligned bs p \<longleftrightarrow> sendable p \<and> pr_allocs p = [] \<and> plain_rx bs (pr_io p)"

lemma aligned_simps [simp]:
  "aligned bs (print_out s p) = aligned bs p" "aligned bs (eop_response_free r p) = aligned bs p"
  "prog_sent (eop_response_free r p) = prog_sent p" "next_id (eop_response_free r p) = next_id p"
  "aligned bs (snd (payload_to_cstr r p)) = aligned bs p"
  "prog_sent (snd (payload_to_cstr r p)) = prog_sent p" "next_id (snd (payload_to_cstr r p)) = next_id p"
  "prog_sent (prog_disconnect p) = prog_sent p"
  by (simp_all add: aligned_def sendable_def prog_sent_def next_id_def prog_disconnect_def)

lemma command_failed_sent [simp]: "prog_sent (command_failed tag r p) = prog_sent p"
  by (simp add: command_failed_def split_beta Let_def)

lemma command_reply:
  assumes "aligned (frame_bytes rt i x @ rest) p" "length x < 2 ^ 32" "length pl < 2 ^ 32" "1 \<le> t" "t \<le> 9"
    "MessageType_to_byte ty = word_of_int t"
  shows "\<exists>p'. prog_command t (Some (bytes_of_string pl)) p =
      Some (Some \<lparr>er_msg_type = MessageType_to_byte rt, er_msg_id = i, er_payload = bytes_of_string x\<rparr>, p')
    \<and> prog_sent p' = prog_sent p @ frame_bytes ty (next_id p) pl \<and> next_id p' = next_id p + 1 \<and> aligned rest p'"
proof -
  obtain c where c: "pr_client p = Some c" using assms(1) by (auto simp: aligned_def sendable_def)
  let ?al = "\<lparr>ca_send = True, ca_payload = True, ca_response = True\<rparr>"
  have len: "length (bytes_of_string pl) = length pl" by simp
  have tx: "\<forall>e. TxErr e \<notin> set (io_tx (snd (pr_io p)))" and rx: "plain_rx (frame_bytes rt i x @ rest) (pr_io p)"
    using assms(1) by (auto simp: aligned_def sendable_def)
  obtain c' ci' where s: "eop_send_command ?al (Some c) t (Some (bytes_of_string pl)) (word_of_nat (length pl)) (pr_glob p) (pr_io p)
        = Some (Some \<lparr>er_msg_type = MessageType_to_byte rt, er_msg_id = i, er_payload = bytes_of_string x\<rparr>, Some c', pr_glob p, ci')"
      "io_sent (snd ci') = io_sent (snd (pr_io p)) @ writeU32BE (word_of_nat (10 + length pl))
        @ envelope_bytes (word_of_int t) (ec_next_msg_id c) (bytes_of_string pl)"
      "plain_rx rest ci'" "\<forall>e. TxErr e \<notin> set (io_tx (snd ci'))" "ec_next_msg_id c' = ec_next_msg_id c + 1"
    using send_command_reply [OF rx assms(2) tx, of ?al "bytes_of_string pl" t c "pr_glob p"] assms(3-5) unfolding len by auto
  show ?thesis
    using assms(1) c s
    by (auto simp: prog_command_def aligned_def sendable_def next_id_def prog_sent_def frame_envelope assms(6) simp del: of_nat_add)
qed

lemma reg_payload_eq: "reg_payload = register_json DEMO_NODE_ID DEMO_BUNKER_NAME DEMO_IP_ADDRESS (dec_of_nat DEMO_CAPACITY)"
proof -
  have "dec_of_nat DEMO_CAPACITY = ''250''" by code_simp
  then show ?thesis
    by (simp add: reg_payload_def snprintf_def register_json_length REGISTER_PAYLOAD_SIZE_def
        DEMO_NODE_ID_def DEMO_BUNKER_NAME_def DEMO_IP_ADDRESS_def)
qed

lemma payload_lengths: "length reg_payload < 2 ^ 32" "length query_payload < 2 ^ 32"
  by (simp_all add: reg_payload_def query_payload_def snprintf_def REGISTER_PAYLOAD_SIZE_def QUERY_PAYLOAD_SIZE_def)

lemma drain_welcome_reply:
  assumes "aligned (frame_bytes rt i x @ rest) p" "length x < 2 ^ 32"
  shows "\<exists>p'. drain_welcome p = Some (True, p') \<and> prog_sent p' = prog_sent p @ frame_bytes HEARTBEAT (next_id p) []
    \<and> next_id p' = next_id p + 1 \<and> aligned rest p'"
proof -
  obtain p' where "prog_command EOP_HEARTBEAT None p =
      Some (Some \<lparr>er_msg_type = MessageType_to_byte rt, er_msg_id = i, er_payload = bytes_of_string x\<rparr>, p')"
      "prog_sent p' = prog_sent p @ frame_bytes HEARTBEAT (next_id p) []" "next_id p' = next_id p + 1" "aligned rest p'"
    using command_reply [OF assms, of "[]" EOP_HEARTBEAT HEARTBEAT]
    by (auto simp: EOP_HEARTBEAT_def prog_command_def send_command_null bytes_of_string_def)
  then show ?thesis by (simp add: drain_welcome_def del: append.simps)
qed

text \<open>The commands go out whatever comes back; what comes back decides how the program goes on.\<close>

lemma register_node_sends:
  assumes "sendable p"
  shows "\<exists>ok p'. register_node p = Some (ok, p') \<and> prog_sent p' = prog_sent p @ frame_bytes REGISTER (next_id p) reg_payload
    \<and> (ok \<longrightarrow> sendable p' \<and> next_id p' = next_id p + 1)"
proof -
  obtain resp p' where "prog_command EOP_REGISTER (Some (bytes_of_string reg_payload)) p = Some (resp, p')"
      "performs p (frame_bytes REGISTER (next_id p) reg_payload) (pr_in p) p'"
    using command_performs [OF assms payload_lengths(1), of EOP_REGISTER REGISTER] by (auto simp: EOP_REGISTER_def)
  then show ?thesis
    by (auto simp: register_node_def performs_def sendable_def simp del: append.simps)
qed

lemma query_node_sends:
  assumes "sendable p"
  shows "\<exists>ok p'. query_node p = Some (ok, p') \<and> prog_sent p' = prog_sent p @ frame_bytes QUERY_NODE (next_id p) query_payload"
proof -
  obtain resp p' where "prog_command EOP_QUERY_NODE (Some (bytes_of_string query_payload)) p = Some (resp, p')"
      "performs p (frame_bytes QUERY_NODE (next_id p) query_payload) (pr_in p) p'"
    using command_performs [OF assms payload_lengths(2), of EOP_QUERY_NODE QUERY_NODE] by (auto simp: EOP_QUERY_NODE_def)
  then show ?thesis
    by (auto simp: query_node_def performs_def split_beta Let_def simp del: append.simps)
qed

lemma register_node_reply:
  assumes "aligned (frame_bytes rt i x @ rest) p" "length x < 2 ^ 32"
  shows "\<exists>p'. register_node p = Some (MessageType_to_byte rt = EOP_ACK, p')
    \<and> prog_sent p' = prog_sent p @ frame_bytes REGISTER (next_id p) reg_payload
    \<and> (MessageType_to_byte rt = EOP_ACK \<longrightarrow> aligned rest p' \<and> next_id p' = next_id p + 1)"
proof -
  obtain p' where "prog_command EOP_REGISTER (Some (bytes_of_string reg_payload)) p =
      Some (Some \<lparr>er_msg_type = MessageType_to_byte rt, er_msg_id = i, er_payload = bytes_of_string x\<rparr>, p')"
      "prog_sent p' = prog_sent p @ frame_bytes REGISTER (next_id p) reg_payload" "next_id p' = next_id p + 1" "aligned rest p'"
    using command_reply [OF assms payload_lengths(1), of EOP_REGISTER REGISTER] by (auto simp: EOP_REGISTER_def)
  then show ?thesis by (auto simp: register_node_def simp del: append.simps)
qed

lemma query_node_reply:
  assumes "aligned (frame_bytes rt i x @ rest) p" "length x < 2 ^ 32"
  shows "\<exists>p'. query_node p = Some (MessageType_to_byte rt = EOP_ACK, p')
    \<and> prog_sent p' = prog_sent p @ frame_bytes QUERY_NODE (next_id p) query_payload"
proof -
  obtain p' where "prog_command EOP_QUERY_NODE (Some (bytes_of_string query_payload)) p =
      Some (Some \<lparr>er_msg_type = MessageType_to_byte rt, er_msg_id = i, er_payload = bytes_of_string x\<rparr>, p')"
      "prog_sent p' = prog_sent p @ frame_bytes QUERY_NODE (next_id p) query_payload"
    using command_reply [OF assms payload_lengths(2), of EOP_QUERY_NODE QUERY_NODE] by (auto simp: EOP_QUERY_NODE_def)
  then show ?thesis by (auto simp: query_node_def split_beta Let_def simp del: append.simps)
qed

definition basic_opening :: bytes where
  "basic_opening = frame_bytes HEARTBEAT 0 [] @ frame_bytes REGISTER 1 reg_payload"

text \<open>The possible courses of the life cycle, by what follows the welcome.\<close>

lemma exchanges_sent:
  assumes "aligned (frame_bytes wt wi wx @ bs) p" "length wx < 2 ^ 32" "next_id p = 0"
  shows "\<exists>code p'. basic_exchanges p = Some (code, p')
    \<and> (prog_sent p' = prog_sent p @ basic_opening \<or> prog_sent p' = prog_sent p @ basic_opening @ frame_bytes QUERY_NODE 2 query_payload)"
proof -
  obtain p1 where p1: "drain_welcome p = Some (True, p1)" "prog_sent p1 = prog_sent p @ frame_bytes HEARTBEAT 0 []"
      "next_id p1 = 1" "aligned bs p1" using drain_welcome_reply [OF assms(1,2)] assms(3) by auto
  obtain ok p2 where p2: "register_node p1 = Some (ok, p2)" "prog_sent p2 = prog_sent p @ basic_opening"
      "ok \<longrightarrow> sendable p2 \<and> next_id p2 = 2"
    using register_node_sends [of p1] p1 by (auto simp: aligned_def basic_opening_def)
  show ?thesis
  proof (cases ok)
    case True
    then obtain ok3 p3 where "query_node p2 = Some (ok3, p3)"
        "prog_sent p3 = prog_sent p @ basic_opening @ frame_bytes QUERY_NODE 2 query_payload"
      using query_node_sends [of p2] p2 by auto
    then show ?thesis using True p1(1) p2(1) by (cases ok3) (simp_all add: basic_exchanges_def del: append.simps)
  next
    case False
    then show ?thesis using p1(1) p2 by (simp add: basic_exchanges_def)
  qed
qed

lemma exchanges_refused:
  assumes "aligned (frame_bytes wt wi wx @ frame_bytes rt i x @ bs) p" "length wx < 2 ^ 32" "length x < 2 ^ 32" "next_id p = 0"
    and "MessageType_to_byte rt \<noteq> EOP_ACK"
  shows "\<exists>p'. basic_exchanges p = Some (EXIT_FAILURE, p') \<and> prog_sent p' = prog_sent p @ basic_opening"
proof -
  obtain p1 where p1: "drain_welcome p = Some (True, p1)" "prog_sent p1 = prog_sent p @ frame_bytes HEARTBEAT 0 []"
      "next_id p1 = 1" "aligned (frame_bytes rt i x @ bs) p1" using drain_welcome_reply [OF assms(1,2)] assms(4) by auto
  then show ?thesis
    using register_node_reply [OF p1(4) assms(3)] assms(5) by (auto simp: basic_exchanges_def basic_opening_def)
qed

lemma exchanges_accepted:
  assumes "aligned (frame_bytes wt wi wx @ frame_bytes rt i x @ bs) p" "length wx < 2 ^ 32" "length x < 2 ^ 32" "next_id p = 0"
    and "MessageType_to_byte rt = EOP_ACK"
  obtains p2 where "aligned bs p2" "next_id p2 = 2" "prog_sent p2 = prog_sent p @ basic_opening"
    "basic_exchanges p = query_node p2 \<bind> (\<lambda>(ok, p). if \<not> ok then Some (EXIT_FAILURE, p)
       else Some (EXIT_SUCCESS, print_out (''[disconnect] OK'' @ NL) (prog_disconnect p)))"
proof -
  obtain p1 where p1: "drain_welcome p = Some (True, p1)" "prog_sent p1 = prog_sent p @ frame_bytes HEARTBEAT 0 []"
      "next_id p1 = 1" "aligned (frame_bytes rt i x @ bs) p1" using drain_welcome_reply [OF assms(1,2)] assms(4) by auto
  then show thesis
    using register_node_reply [OF p1(4) assms(3)] assms(5) that by (auto simp: basic_exchanges_def basic_opening_def simp del: append.simps)
qed

lemma connect_basic_connected:
  assumes "basic_port args = Some port" "fst (eop_connect (Some (basic_host args)) port DEFAULT_TIMEOUT_MS env) \<noteq> None"
    and "\<forall>e. TxErr e \<notin> set (io_tx (snd (pr_io p)))" "pr_allocs p = []" "plain_rx bs (pr_io p)"
  obtains q where "connect_basic args env p = basic_exchanges q" "aligned bs q" "next_id q = 0" "prog_sent q = prog_sent p"
proof -
  obtain c g cl where c: "eop_connect (Some (basic_host args)) port DEFAULT_TIMEOUT_MS env = (Some c, g, cl)"
    using assms(2) by (cases "eop_connect (Some (basic_host args)) port DEFAULT_TIMEOUT_MS env") auto
  have i: "ec_next_msg_id c = 0" using c by (auto simp: eop_connect_def split: if_splits option.splits)
  define q where "q = print_out (''[connect]    OK   host='' @ basic_host args @ '' port='' @ dec_of_int port @ NL)
    (prog_connect (basic_host args) port DEFAULT_TIMEOUT_MS env p)"
  have "connect_basic args env p = basic_exchanges q"
    using assms(1) c by (simp add: connect_basic_def prog_connect_def q_def Let_def del: append.simps)
  moreover have "aligned bs q" "next_id q = 0" "prog_sent q = prog_sent p"
    using assms(3-) c i
    by (simp_all add: q_def aligned_def sendable_def next_id_def prog_sent_def prog_connect_def del: append.simps)
  ultimately show thesis by (rule that)
qed

section \<open>Properties\<close>

text \<open>A program that has just started, and a server that accepts the connection and says nothing.\<close>

definition sample_env :: connect_env where
  "sample_env = \<lparr>cv_alloc = True, cv_pton = True, cv_socket = 3, cv_connect = Some EINPROGRESS, cv_poll = 1, cv_sockopt = Some 0\<rparr>"

definition sample_prog :: "string \<Rightarrow> prog" where
  "sample_prog inp = \<lparr>pr_in = inp, pr_out = [], pr_err = [], pr_client = None, pr_glob = \<lparr>ee_code = EOP_OK, ee_msg = []\<rparr>,
     pr_io = ([], \<lparr>io_rx = [], io_tx = [], io_sent = [], io_errno = E_NONE\<rparr>), pr_allocs = [], pr_mallocs = [], pr_live = 0, pr_closed = []\<rparr>"

lemma demo_session_performs:
  assumes "fst (eop_connect (Some host) port t env) \<noteq> None" "\<forall>e. TxErr e \<notin> set (io_tx (snd (pr_io p)))"
    and "list_all ca_send (pr_allocs p)" "\<forall>c \<in> set cs. list_all good_line (choice_lines c)"
    and "pr_in p = typed (concat (map choice_lines cs) @ [''0'']) @ rest"
  shows "\<exists>p'. demo_session host port t env p = Some (EXIT_SUCCESS, p')
    \<and> prog_sent p' = prog_sent p @ frame_bytes HEARTBEAT 0 [] @ script_frames 1 cs \<and> pr_in p' = rest"
proof -
  define q where "q = print_out (''Connected.'' @ NL) (prog_connect host port t env
    (print_out (''Connecting to '' @ host @ '':'' @ dec_of_int port @ '' (timeout '' @ dec_of_int t @ '' ms) ...'' @ NL) p))"
  obtain c g cl where c: "eop_connect (Some host) port t env = (Some c, g, cl)"
    using assms(1) by (cases "eop_connect (Some host) port t env") auto
  have "ec_next_msg_id c = 0" using c by (auto simp: eop_connect_def split: if_splits option.splits)
  then have q: "sendable q" "next_id q = 0" "prog_sent q = prog_sent p" "pr_in q = pr_in p" "pr_client q = Some c"
    using assms(2,3) c by (simp_all add: q_def sendable_def next_id_def prog_sent_def prog_connect_def del: append.simps)
  obtain w q1 where w: "prog_command EOP_HEARTBEAT None q = Some (w, q1)" "performs q (frame_bytes HEARTBEAT (next_id q) []) (pr_in q) q1"
    using command_null_performs [OF q(1), of EOP_HEARTBEAT HEARTBEAT] by (auto simp: EOP_HEARTBEAT_def)
  let ?q2 = "eop_response_free w q1"
  have q2: "sendable ?q2" "next_id ?q2 = 1" "prog_sent ?q2 = prog_sent p @ frame_bytes HEARTBEAT 0 []" "pr_in ?q2 = pr_in p"
    using w(2) q by (simp_all add: performs_def sendable_def next_id_def prog_sent_def)
  obtain p1 where p1: "demo_loop ?q2 = Some p1" "prog_sent p1 = prog_sent ?q2 @ script_frames 1 cs" "pr_in p1 = rest"
    using demo_loop_performs [OF q2(1) assms(4)] assms(5) q2(2,4) by auto
  have "demo_session host port t env p = Some (EXIT_SUCCESS, print_out (''Disconnected.'' @ NL) (prog_disconnect p1))"
    using q(5) w(1) p1(1) by (simp add: demo_session_def Let_def q_def del: append.simps)
  then show ?thesis using p1(2,3) q2(3) by (simp add: prog_disconnect_def prog_sent_def del: append.simps)
qed

text \<open>Asking for the parameters touches neither the network nor the memory of the client.\<close>

lemma demo_params_kept:
  "demo_params args p = Some (params, q) \<Longrightarrow> pr_io q = pr_io p \<and> pr_allocs q = pr_allocs p \<and> pr_client q = pr_client p
    \<and> pr_live q = pr_live p \<and> pr_closed q = pr_closed p"
  by (auto simp: demo_params_def read_answer_def Let_def simp del: append.simps split: list.splits option.splits bind_splits if_splits)

text \<open>
  What a user types is what the server gets. Once the console knows where to connect, from its
  arguments or from the first answers of the user, and on a connection that takes the data, it
  sends its HEARTBEAT and then exactly one frame per choice of the user, in order and with consecutive
  identifiers, whatever the server answers and also when it does not answer at all; it ends when the user asks for it
  and leaves the rest of the input unread.
\<close>

theorem demo_sends_script:
  assumes "demo_params args p = Some (Some (host, port, t), q)" "fst (eop_connect (Some host) port t env) \<noteq> None"
    and "\<forall>e. TxErr e \<notin> set (io_tx (snd (pr_io p)))" "list_all ca_send (pr_allocs p)"
    and "\<forall>c \<in> set cs. list_all good_line (choice_lines c)" "pr_in q = typed (concat (map choice_lines cs) @ [''0'']) @ rest"
  shows "\<exists>p'. eop_demo args env p = Some (EXIT_SUCCESS, p')
    \<and> prog_sent p' = prog_sent p @ frame_bytes HEARTBEAT 0 [] @ script_frames 1 cs \<and> pr_in p' = rest"
  using demo_session_performs [OF assms(2) _ _ assms(5,6)] demo_params_kept [OF assms(1)] assms(1,3,4)
  by (simp add: eop_demo_def prog_sent_def)

lemma demo_params_default:
  obtains q where "demo_params [] (sample_prog (typed ([] # [] # [] # ls))) = Some (Some (DEFAULT_HOST, DEFAULT_CLIENT_PORT, CONNECT_TIMEOUT_MS), q)"
    "pr_in q = typed ls"
proof -
  have "fgets INPUT_BUF_SIZE (NL @ rest) = Some (NL, rest)" "strip_newline (cstr NL) = []" for rest
    using fgets_line [of "[]" rest] strip_line [of "[]"] by (simp_all add: good_line_def)
  then show thesis
    using that by (simp del: append.simps add: append_Nil demo_params_def read_answer_def sample_prog_def typed_def)
qed

lemma sample_connects: "fst (eop_connect (Some DEFAULT_HOST) DEFAULT_CLIENT_PORT CONNECT_TIMEOUT_MS sample_env) \<noteq> None"
  by (simp add: sample_env_def eop_connect_def finish_connect_def DEFAULT_CLIENT_PORT_def CONNECT_TIMEOUT_MS_def
      TCP_PORT_MIN_VALUE_def TCP_PORT_MAX_VALUE_def DEFAULT_HOST_def)

text \<open>A user who takes the defaults, registers a node and asks for the list.\<close>

lemma demo_sends_script_witness:
  "\<exists>p'. eop_demo [] sample_env (sample_prog (typed [[], [], [], ''1'', ''n1'', ''b'', ''10.0.0.1'', ''4'', ''3'', ''0''])) = Some (EXIT_SUCCESS, p')
    \<and> prog_sent p' = frame_bytes HEARTBEAT 0 [] @ script_frames 1 [Choose_register ''n1'' ''b'' ''10.0.0.1'' ''4'', Choose_list]
    \<and> pr_in p' = []"
proof -
  let ?p = "sample_prog (typed [[], [], [], ''1'', ''n1'', ''b'', ''10.0.0.1'', ''4'', ''3'', ''0''])"
  obtain q where q: "demo_params [] ?p = Some (Some (DEFAULT_HOST, DEFAULT_CLIENT_PORT, CONNECT_TIMEOUT_MS), q)"
    "pr_in q = typed [''1'', ''n1'', ''b'', ''10.0.0.1'', ''4'', ''3'', ''0'']"
    by (rule demo_params_default)
  then show ?thesis
    using demo_sends_script [OF q(1) sample_connects, of "[Choose_register ''n1'' ''b'' ''10.0.0.1'' ''4'', Choose_list]" "[]"]
    by (simp add: sample_prog_def prog_sent_def good_line_def del: script_frames.simps)
qed

text \<open>
  C28. Both example programs release what they acquire on every path: when they return, each response
  has been freed once, and the socket that \<^verbatim>\<open>eop_connect\<close> opened, if it got that far, has been
  closed exactly once.
\<close>

theorem examples_release_resources:
  assumes "pr_client p = None"
    and "connect_basic args env p = Some (code, p') \<and> basic_port args = Some port \<and> target = Some port
    \<or> eop_demo args env p = Some (code, p') \<and> demo_params args p = Some (params, q) \<and> target = map_option (fst \<circ> snd) params"
  shows "pr_live p' = pr_live p \<and> pr_client p' = None
    \<and> pr_closed p' = pr_closed p @ (case target of Some port \<Rightarrow> if opens_socket port env then [cv_socket env] else [] | None \<Rightarrow> [])"
  using assms(2)
proof
  assume "connect_basic args env p = Some (code, p') \<and> basic_port args = Some port \<and> target = Some port"
  then show ?thesis using released_basic [of args env p code p' port] by (simp add: released_def)
next
  assume d: "eop_demo args env p = Some (code, p') \<and> demo_params args p = Some (params, q) \<and> target = map_option (fst \<circ> snd) params"
  then have k: "pr_client q = None" "pr_live q = pr_live p" "pr_closed q = pr_closed p" using demo_params_kept assms(1) by auto
  show ?thesis
  proof (cases params)
    case None
    then show ?thesis using d k by (auto simp: eop_demo_def)
  next
    case (Some hpt)
    then show ?thesis
      using d k released_demo [of "fst hpt" "fst (snd hpt)" "snd (snd hpt)" env q code p']
      by (auto simp: eop_demo_def released_def case_prod_beta)
  qed
qed

lemma examples_release_resources_witness:
  "\<exists>p'. connect_basic [] (sample_env\<lparr>cv_poll := 0\<rparr>) (sample_prog []) = Some (EXIT_FAILURE, p') \<and> pr_closed p' = [3] \<and> pr_live p' = 0"
proof -
  obtain p' where p': "connect_basic [] (sample_env\<lparr>cv_poll := 0\<rparr>) (sample_prog []) = Some (EXIT_FAILURE, p')"
    by (simp add: connect_basic_def basic_port_def prog_connect_def eop_connect_def finish_connect_def sample_env_def Let_def
        DEFAULT_CLIENT_PORT_def TCP_PORT_MIN_VALUE_def TCP_PORT_MAX_VALUE_def del: append.simps)
  then show ?thesis
    using examples_release_resources [of "sample_prog []" "[]" "sample_env\<lparr>cv_poll := 0\<rparr>" EXIT_FAILURE p' 9026 "Some 9026"]
    by (simp add: basic_port_def DEFAULT_CLIENT_PORT_def opens_socket_def sample_env_def sample_prog_def)
qed

text \<open>
  The console's buffers are large enough: four answers of a user, each at most a line buffer long,
  always fit into the JSON buffer. A registration that is typed in completely is sent; the branch that
  reports an oversized payload is never taken.
\<close>

theorem demo_register_always_sends:
  assumes "cmd_register p = Some p'"
  shows "\<exists>json q resp q'. length json < JSON_BUF_SIZE \<and> pr_io q = pr_io p \<and> pr_client q = pr_client p
    \<and> prog_command EOP_REGISTER (Some (bytes_of_string json)) q = Some (resp, q') \<and> p' = report_response resp q'"
proof -
  obtain n b i c q0 q1 q2 q3 q4 where r: "q0 = print_out (NL @ ''--- REGISTER NODE ---'' @ NL) p"
      "read_field ''  node_id      : '' q0 = Some (n, q1)" "read_field ''  bunker_name  : '' q1 = Some (b, q2)"
      "read_field ''  ip_address   : '' q2 = Some (i, q3)" "read_field ''  capacity     : '' q3 = Some (c, q4)"
    and s: "send_json EOP_REGISTER (register_json n b i (dec_of_nat (unat (strtoul c)))) q4 = Some p'"
    using assms by (auto simp: cmd_register_def Let_def simp del: append.simps split: bind_splits)
  have len: "length (register_json n b i (dec_of_nat (unat (strtoul c)))) < JSON_BUF_SIZE"
    using r(2-) [THEN read_field_length] length_dec_u64 [of "strtoul c"] by (simp add: register_json_length JSON_BUF_SIZE_def)
  obtain resp q' where "prog_command EOP_REGISTER (Some (bytes_of_string (register_json n b i (dec_of_nat (unat (strtoul c)))))) q4
      = Some (resp, q')" "p' = report_response resp q'"
    using s len by (auto simp: send_json_def snprintf_def split: bind_splits)
  moreover have "pr_io q4 = pr_io p" "pr_client q4 = pr_client p"
    using r(2-) [THEN read_field_io] r(1) by simp_all
  ultimately show ?thesis using len by blast
qed

lemma demo_register_always_sends_witness:
  "\<exists>p' json q resp q'. cmd_register ((sample_prog (typed [''n1'', ''b'', ''10.0.0.1'', ''4'']))\<lparr>pr_client := Some sample_client\<rparr>) = Some p'
    \<and> length json < JSON_BUF_SIZE \<and> pr_client q = Some sample_client
    \<and> prog_command EOP_REGISTER (Some (bytes_of_string json)) q = Some (resp, q') \<and> p' = report_response resp q'"
proof -
  let ?p = "(sample_prog (typed [''n1'', ''b'', ''10.0.0.1'', ''4'']))\<lparr>pr_client := Some sample_client\<rparr>"
  obtain p' where "cmd_register ?p = Some p'"
    using cmd_register_performs [of ?p "''n1''" "''b''" "''10.0.0.1''" "''4''" "[]"]
    by (auto simp: sendable_def good_line_def sample_prog_def)
  then show ?thesis
    using demo_register_always_sends [of ?p p'] by fastforce
qed

end
