(* ===== verification/Interop.thy ===== *)
theory Interop
  imports SessionSafety ThreadPool ClientExamples
begin

text \<open>
  Client and server together: the program \<^verbatim>\<open>connect_basic.c\<close> on one end of a connection and a worker of the
  server on the other. What one end sends is what the other receives, in any chunks. The lemmas
  follow the session on the server's side (the welcome, then the requests of the program) and
  compose it with the courses that theory \<open>ClientExamples\<close> gives for the client's side.
\<close>

subsection \<open>The welcome\<close>

lemma welcome_total:
  assumes "json_laws J" "length ts \<le> 64" "utf8 ts"
  shows "\<exists>x. buildWelcomePayload J \<lparr>wp_serverVersion = SERVER_VERSION, wp_timestamp = ts, wp_sessionId = fst (nextSessionId m)\<rparr> = Some x
    \<and> length x < 2 ^ 32 - 14"
proof -
  let ?sid = "fst (nextSessionId m)"
  let ?fs = "[(''server_version'', JString SERVER_VERSION), (''timestamp'', JString ts), (''session_id'', JString ?sid)]"
  have sid: "length ?sid = 16" "utf8 ?sid"
    using session_id_shape(1) [of m] session_id_shape(2) [where m = m] by (auto intro!: utf8_ascii is_digit_ascii [of 16])
  have "json_utf8 (json_fields ?fs)"
    using sid(2) assms(3) by (auto simp: utf8_literal SERVER_VERSION_def intro!: json_utf8_fields)
  then obtain x where x: "dump J (json_fields ?fs) = Some x" using dump_returns [OF assms(1)] by (auto simp: returns_def)
  have "json_weight (json_fields ?fs) \<le> 4 + sum_list (map field_weight ?fs)" by (rule json_fields_weight)
  also have "\<dots> < 2 ^ 32 - 14" using sid(1) assms(2) by (simp add: field_weight_def SERVER_VERSION_def)
  finally have "length x < 2 ^ 32 - 14" using x assms(1) by (auto simp: json_laws_def size_law_def dest: le_less_trans)
  then show ?thesis using x by (simp add: buildWelcomePayload_def)
qed

text \<open>A served socket gets the welcome, then the connection runs on it.\<close>

definition served :: "json_lib \<Rightarrow> int \<Rightarrow> string \<Rightarrow> server \<Rightarrow> u32 \<Rightarrow> string \<Rightarrow> ConnectionContext \<Rightarrow> world \<Rightarrow> bool" where
  "served J fd ip st i x ctx w \<longleftrightarrow> length x < 2 ^ 32 - 14 \<and> cc_nodeId ctx = [] \<and> cc_clientIp ctx = ip
     \<and> hex_id 16 (cc_sessionId ctx) \<and> w_registry w = w_registry (sv_world st)
     \<and> w_interference w = w_interference (sv_world st) \<and> io_rx (w_io w) = io_rx (sv_sockets st fd) \<and> tx_ok (w_io w)
     \<and> io_sent (w_io w) = io_sent (sv_sockets st fd) @ frame_bytes ACK i x
     \<and> (\<forall>k. session_ok k [] (sv_world st) \<longrightarrow> session_ok k [] w)"

lemma serve_socket_cases:
  assumes "json_laws J" "clock_ok (sv_world st)" "tx_ok (sv_sockets st fd)"
  obtains i x ctx w st1 where "served J fd ip st i x ctx w"
    "serve_socket J None \<lparr>as_fd = fd, as_ip = ip\<rparr> st =
       map_option (\<lambda>w'. st1\<lparr>sv_world := w', sv_sockets := (sv_sockets st1)(fd := w_io w')\<rparr>) (handleConnection J None fd ctx w)"
proof -
  define sid sm where "sid = fst (nextSessionId (sv_session st))" and "sm = snd (nextSessionId (sv_session st))"
  define i sm' where "i = fst (nextMessageId sm)" and "sm' = snd (nextMessageId sm)"
  define ts w1 where "ts = fst (getIso8601Timestamp (sv_world st))" and "w1 = snd (getIso8601Timestamp (sv_world st))"
  have ts: "length ts \<le> 64" "utf8 ts"
    using assms(2) by (simp_all add: ts_def getIso8601Timestamp_def system_now_def clock_ok_def time_ok_def)
  obtain x where x: "buildWelcomePayload J \<lparr>wp_serverVersion = SERVER_VERSION, wp_timestamp = ts, wp_sessionId = sid\<rparr> = Some x"
    "length x < 2 ^ 32 - 14" using welcome_total [OF assms(1) ts] unfolding sid_def by blast
  let ?s = "snd (sendAll (frame_bytes ACK i x) (sv_sockets st fd))"
  define st1 where "st1 = st\<lparr>sv_session := sm', sv_sockets := (sv_sockets st)(fd := ?s)\<rparr>"
  define ctx where "ctx = \<lparr>cc_nodeId = [], cc_sessionId = sid, cc_clientIp = ip\<rparr>"
  have ok: "fst (sendAll (frame_bytes ACK i x) (sv_sockets st fd))" using assms(3) by (intro sendAll_ok) (simp add: tx_ok_def)
  have w1: "w_registry w1 = w_registry (sv_world st)" "w_interference w1 = w_interference (sv_world st)"
      "session_ok k [] (sv_world st) \<Longrightarrow> session_ok k [] (w1\<lparr>w_io := s\<rparr>)" for k s
    by (simp_all add: w1_def getIso8601Timestamp_def system_now_def session_ok_def stack_ok_def clock_ok_def)
  have "hex_id 16 sid" using session_id_shape(1) [of "sv_session st"] session_id_shape(2) [where m = "sv_session st"] by (auto simp: hex_id_def sid_def)
  then have "served J fd ip st i x ctx (w1\<lparr>w_io := ?s\<rparr>)"
    using x(2) w1 assms(3) by (simp add: served_def ctx_def sendAll_frame)
  moreover have "serve_socket J None \<lparr>as_fd = fd, as_ip = ip\<rparr> st =
      map_option (\<lambda>w'. st1\<lparr>sv_world := w', sv_sockets := (sv_sockets st1)(fd := w_io w')\<rparr>) (handleConnection J None fd ctx (w1\<lparr>w_io := ?s\<rparr>))"
    using x buildFrame_eq [OF x(2), of ACK i] ok
    by (simp add: serve_socket_def split_beta Let_def sid_def sm_def i_def sm'_def ts_def w1_def st1_def ctx_def map_conv_bind_option comp_def)
  ultimately show thesis by (rule that)
qed

text \<open>A worker returns on every stream of safe messages, and has served them.\<close>

lemma serve_socket_serves:
  assumes "json_laws J" "session_ok (length ms) [] (sv_world st)" "safe_text ip" "0 \<le> fd" "tx_ok (sv_sockets st fd)"
    and "decode_all decode_message (rx_bytes (io_rx (sv_sockets st fd))) = (ms, rest)" "list_all (message_safe J) ms"
  obtains st' reps n r i x bs where "serve_socket J None \<lparr>as_fd = fd, as_ip = ip\<rparr> st = Some st'"
    "serves J (w_interference (sv_world st)) [] (w_registry (sv_world st)) ms reps n r" "left_offline n r (w_registry (sv_world st'))"
    "reply_frames J reps = Some bs" "length x < 2 ^ 32" "io_sent (sv_sockets st' fd) = io_sent (sv_sockets st fd) @ frame_bytes ACK i x @ bs"
proof -
  have "clock_ok (sv_world st)" using assms(2) by (simp add: session_ok_def)
  then obtain i x ctx w st1 where sv: "served J fd ip st i x ctx w" and ss: "serve_socket J None \<lparr>as_fd = fd, as_ip = ip\<rparr> st =
      map_option (\<lambda>w'. st1\<lparr>sv_world := w', sv_sockets := (sv_sockets st1)(fd := w_io w')\<rparr>) (handleConnection J None fd ctx w)"
    using serve_socket_cases [OF assms(1) _ assms(5)] by blast
  have ctx: "context_ok ctx" "session_ok (length ms) (cc_nodeId ctx) w"
    using sv assms(2,3) safe_hex_id by (auto simp: served_def context_ok_def)
  have d: "decode_all decode_message (rx_bytes (io_rx (w_io w))) = (ms, rest)" using sv assms(6) by (simp add: served_def)
  obtain w' where w': "handleConnection J None fd ctx w = Some w'"
    using handleConnection_ok [OF assms(1) ctx(1) d assms(7) ctx(2)] by (auto simp: returns_def)
  obtain reps n r bs where "serves J (w_interference w) (cc_nodeId ctx) (w_registry w) ms reps n r" "left_offline n r (w_registry w')"
      "reply_frames J reps = Some bs" "io_sent (w_io w') = io_sent (w_io w) @ bs"
    using handleConnection_effect(1) [OF w' assms(4) d] sv by (auto simp: served_def)
  then show thesis using that [of "st1\<lparr>sv_world := w', sv_sockets := (sv_sockets st1)(fd := w_io w')\<rparr>" reps n r bs x i] ss w' sv
    by (simp add: served_def)
qed

subsection \<open>The choices of a user, on the server\<close>

text \<open>The messages that stand for what a user chooses at the console.\<close>

fun choice_message :: "u32 \<Rightarrow> choice \<Rightarrow> message" where
  "choice_message msg_id (Choose_register n b i c) = (REGISTER, msg_id, register_json n b i (dec_of_nat (unat (strtoul c))))"
| "choice_message msg_id (Choose_query n) = (QUERY_NODE, msg_id, query_json n)"
| "choice_message msg_id Choose_list = (LIST_NODES, msg_id, [])"
| "choice_message msg_id Choose_heartbeat = (HEARTBEAT, msg_id, [])"

fun script_messages :: "u32 \<Rightarrow> choice list \<Rightarrow> message list" where
  "script_messages msg_id [] = []"
| "script_messages msg_id (c # cs) = choice_message msg_id c # script_messages (msg_id + 1) cs"

definition console_messages :: "choice list \<Rightarrow> message list" where
  "console_messages cs = (HEARTBEAT, 0, []) # script_messages 1 cs"

lemma length_console [simp]: "length (console_messages cs) = Suc (length cs)"
proof -
  have "length (script_messages i cs) = length cs" for i by (induction cs arbitrary: i) simp_all
  then show ?thesis by (simp add: console_messages_def)
qed

lemma console_encode: "encode_many encode_message (console_messages cs) = frame_bytes HEARTBEAT 0 [] @ script_frames 1 cs"
proof -
  have "encode_message (choice_message i c) = choice_frame i c" for i c by (cases c) simp_all
  then have "encode_many encode_message (script_messages i cs) = script_frames i cs" for i
    by (induction cs arbitrary: i) (simp_all add: encode_many_def)
  then show ?thesis by (simp add: console_messages_def encode_many_def)
qed

lemma choice_message_wf: "list_all good_line (choice_lines c) \<Longrightarrow> wf_message (choice_message i c)"
  using length_dec_u64 [of "strtoul (case c of Choose_register _ _ _ x \<Rightarrow> x)"]
  by (cases c) (auto simp: good_line_def register_json_length query_json_def quote_def)

lemma console_decode:
  assumes "\<forall>c \<in> set cs. list_all good_line (choice_lines c)"
  shows "decode_all decode_message (frame_bytes HEARTBEAT 0 [] @ script_frames 1 cs) = (console_messages cs, [])"
proof -
  have "\<forall>m \<in> set (script_messages i cs). wf_message m" for i
    using assms choice_message_wf by (induction cs arbitrary: i) auto
  then have "\<forall>m \<in> set (console_messages cs). wf_message m" by (auto simp: console_messages_def)
  then show ?thesis using decode_encoded_messages by (simp add: console_encode [symmetric])
qed

subsection \<open>The requests of the program, on the server\<close>

text \<open>
  What the JSON library documents of the three payloads: the empty text is no JSON, and the other
  two are objects with the fields that their text shows.
\<close>

definition demo_parses :: "json_lib \<Rightarrow> bool" where
  "demo_parses J \<longleftrightarrow> parse J [] = None
     \<and> parse J reg_payload = Some (JObject [(''bunker_name'', JString DEMO_BUNKER_NAME), (''capacity'', JUInt (word_of_nat DEMO_CAPACITY)),
         (''ip_address'', JString DEMO_IP_ADDRESS), (''node_id'', JString DEMO_NODE_ID)])
     \<and> parse J query_payload = Some (JObject [(''node_id'', JString DEMO_NODE_ID)])"

definition demo_entry :: NodeEntry where
  "demo_entry = \<lparr>ne_node_id = DEMO_NODE_ID, ne_bunker_name = DEMO_BUNKER_NAME, ne_ip_address = DEMO_IP_ADDRESS,
     ne_capacity = word_of_nat DEMO_CAPACITY, ne_status = ONLINE, ne_last_seen_at = 0\<rparr>"

text \<open>The registry that the REGISTER of the program meets.\<close>

definition demo_registry :: "registry_op list list \<Rightarrow> registry \<Rightarrow> registry" where
  "demo_registry os r = run_registry (next_batch (tl os)) (run_registry (next_batch os) r)"

lemma demo_node_id [simp]: "DEMO_NODE_ID \<noteq> []" "ne_node_id demo_entry = DEMO_NODE_ID"
  by (simp_all add: DEMO_NODE_ID_def demo_entry_def)

lemma demo_register_spec:
  assumes "demo_parses J"
  shows "register_spec J i reg_payload r =
      (if fst (registerNode demo_entry r) = REG_OK then ack_reply i DEMO_NODE_ID
       else error_reply i ERR_DUPLICATE (''Node '' @ DEMO_NODE_ID @ '' already registered''), snd (registerNode demo_entry r))"
    "named_node J reg_payload = Some DEMO_NODE_ID"
proof -
  let ?j = "JObject [(''bunker_name'', JString DEMO_BUNKER_NAME), (''capacity'', JUInt (word_of_nat DEMO_CAPACITY)),
         (''ip_address'', JString DEMO_IP_ADDRESS), (''node_id'', JString DEMO_NODE_ID)]"
  have p: "parse J reg_payload = Some ?j" using assms by (simp add: demo_parses_def)
  have "\<not> register_invalid ?j" "register_entry ?j = demo_entry"
    by (simp_all add: register_invalid_def register_entry_def demo_entry_def contains_def json_at_def
        FIELD_NODE_ID_def FIELD_BUNKER_NAME_def FIELD_IP_ADDRESS_def FIELD_CAPACITY_def)
  then show "register_spec J i reg_payload r =
      (if fst (registerNode demo_entry r) = REG_OK then ack_reply i DEMO_NODE_ID
       else error_reply i ERR_DUPLICATE (''Node '' @ DEMO_NODE_ID @ '' already registered''), snd (registerNode demo_entry r))"
    by (simp add: register_spec_code p Let_def split_beta)
  show "named_node J reg_payload = Some DEMO_NODE_ID"
    by (simp add: named_node_def p)
qed

inductive_cases serves_nil: "serves J os n r [] reps n' r'"
inductive_cases request_heartbeat_elim: "request J (HEARTBEAT, i, pl) n r rep n' r'"
inductive_cases request_register_elim: "request J (REGISTER, i, pl) n r rep n' r'"
inductive_cases request_query_elim: "request J (QUERY_NODE, i, pl) n r rep n' r'"

lemma demo_serves:
  assumes "demo_parses J" "serves J os [] r ((HEARTBEAT, 0, []) # (REGISTER, 1, reg_payload) # ms) reps n' r'"
  obtains reps' where "reps = (1, fst (register_spec J 1 reg_payload (demo_registry os r))) # reps'"
    "serves J (tl (tl os)) DEMO_NODE_ID (snd (registerNode demo_entry (demo_registry os r))) ms reps' n' r'"
proof -
  have h: "snd (updateLastSeen now [] x) = x" for now x by (simp add: updateLastSeen_def)
  show thesis
    using assms(2) that
    by (elim serves_cons)
       (auto simp: h demo_registry_def demo_register_spec [OF assms(1)]
         elim!: request_heartbeat_elim request_register_elim)
qed

subsection \<open>The replies, as frames\<close>

lemma reply_frame_bytes:
  assumes "json_laws J" "json_weight (snd rep) < 2 ^ 32 - 14" "reply_frame J i rep = Some f"
  obtains x where "f = frame_bytes (fst rep) i x" "length x < 2 ^ 32"
proof -
  obtain x where x: "dump J (snd rep) = Some x" "buildFrame (fst rep) i x = Some f"
    using assms(3) by (auto simp: reply_frame_def split: bind_splits)
  have "length x \<le> json_weight (snd rep)" using assms(1) x(1) by (auto simp: json_laws_def size_law_def)
  then have "length x < 2 ^ 32 - 14" using assms(2) by simp
  then show thesis using x(2) buildFrame_eq that by fastforce
qed

lemma demo_register_weight:
  assumes "demo_parses J"
  shows "json_weight (snd (fst (register_spec J i reg_payload r))) < 2 ^ 32 - 14"
proof -
  have "json_weight (snd (ack_reply i DEMO_NODE_ID)) \<le> 4 + sum_list (map field_weight
      [(''ref_message_id'', JUInt (ucast i)), (''node_id'', JString DEMO_NODE_ID)])"
    unfolding ack_reply_def snd_conv by (rule json_fields_weight)
  also have "\<dots> < 2 ^ 32 - 14" by (simp add: field_weight_def DEMO_NODE_ID_def)
  moreover have "json_weight (snd (error_reply i ERR_DUPLICATE (''Node '' @ DEMO_NODE_ID @ '' already registered''))) < 2 ^ 32 - 14"
    by (rule error_reply_ok [THEN conjunct2]) (simp_all add: DEMO_NODE_ID_def utf8_literal)
  ultimately show ?thesis by (simp add: demo_register_spec [OF assms] del: append.simps)
qed

lemma demo_query_spec:
  assumes "demo_parses J" "queryNode DEMO_NODE_ID r = Some e"
  shows "query_spec J i query_payload r = (ACK, query_response i e)"
  using assms by (simp add: demo_parses_def query_spec_code FIELD_NODE_ID_def)

lemma demo_entry_ok: "entry_ok demo_entry"
  by (simp add: entry_ok_def demo_entry_def DEMO_NODE_ID_def DEMO_BUNKER_NAME_def DEMO_IP_ADDRESS_def utf8_literal time_ok_epoch)

lemma demo_known: "wf_registry r \<Longrightarrow> queryNode DEMO_NODE_ID (snd (registerNode demo_entry r)) \<noteq> None"
  by (auto simp: registerNode_def queryNode_def update_conv map_add_def split: option.splits)

lemma next_batch_ok: "list_all op_ok (concat os) \<Longrightarrow> list_all op_ok (next_batch os) \<and> list_all op_ok (concat (tl os))"
  by (cases os) (simp_all add: next_batch_def)

text \<open>What the program gets for its REGISTER and its QUERY_NODE.\<close>

lemma demo_replies:
  assumes "json_laws J" "demo_parses J" "wf_registry r" "reg_ok r" "list_all op_ok (concat os)"
    and "serves J os [] r ((HEARTBEAT, 0, []) # (REGISTER, 1, reg_payload) # ms) reps n' r'" "reply_frames J reps = Some bs"
  obtains x rest where "length x < 2 ^ 32"
    "bs = frame_bytes (if fst (registerNode demo_entry (demo_registry os r)) = REG_OK then ACK else ERROR_MSG) 1 x @ rest"
    "ms = [(QUERY_NODE, 2, query_payload)] \<longrightarrow> (\<exists>y. length y < 2 ^ 32 \<and> rest = frame_bytes ACK 2 y)"
proof -
  let ?r = "demo_registry os r" and ?rep = "fst (register_spec J 1 reg_payload (demo_registry os r))"
  obtain reps' where reps': "reps = (1, ?rep) # reps'"
      "serves J (tl (tl os)) DEMO_NODE_ID (snd (registerNode demo_entry ?r)) ms reps' n' r'"
    using assms(2,6) by (rule demo_serves)
  obtain f rest where f: "reply_frame J 1 ?rep = Some f" "reply_frames J reps' = Some rest" "bs = f @ rest"
    using assms(7) unfolding reps'(1) by (auto simp: reply_frames_def split: if_splits)
  obtain x where x: "f = frame_bytes (fst ?rep) 1 x" "length x < 2 ^ 32"
    using reply_frame_bytes [OF assms(1) demo_register_weight [OF assms(2)] f(1)] by blast
  have t: "fst ?rep = (if fst (registerNode demo_entry ?r) = REG_OK then ACK else ERROR_MSG)"
    by (simp add: demo_register_spec [OF assms(2)] ack_reply_def error_reply_def)
  have q: "\<exists>y. length y < 2 ^ 32 \<and> rest = frame_bytes ACK 2 y" if ms: "ms = [(QUERY_NODE, 2, query_payload)]"
  proof -
    let ?r2 = "run_registry (next_batch (tl (tl os))) (snd (registerNode demo_entry ?r))"
    have ok: "list_all op_ok (next_batch os)" "list_all op_ok (next_batch (tl os))" "list_all op_ok (next_batch (tl (tl os)))"
      using assms(5) next_batch_ok by blast+
    have wf: "wf_registry (snd (registerNode demo_entry ?r))"
      using assms(3) by (auto simp: demo_registry_def intro!: inv_intros wf_run_registry)
    obtain e where e: "queryNode DEMO_NODE_ID ?r2 = Some e"
      using run_registry_keeps [OF wf demo_known] assms(3) wf_run_registry unfolding demo_registry_def by blast
    have "reg_ok (apply_registry_op (Op_register demo_entry) ?r)"
      using ok assms(4) by (intro reg_ok_apply) (simp_all add: demo_entry_ok demo_registry_def reg_ok_run)
    then have "entry_ok e" using ok(3) e by (intro query_entry_ok [OF reg_ok_run e]) simp_all
    then have w: "json_weight (snd (ACK, query_response 2 e)) < 2 ^ 32 - 14" using query_response_ok(2) by simp
    have "reps' = [(2, ACK, query_response 2 e)]"
      using reps'(2) unfolding ms
      by (elim serves_cons) (auto simp: demo_query_spec [OF assms(2) e] elim!: serves_nil request_query_elim)
    then have "reply_frame J 2 (ACK, query_response 2 e) = Some rest"
      using f(2) by (auto simp: reply_frames_def split: if_splits)
    then obtain y where "rest = frame_bytes (fst (ACK, query_response 2 e)) 2 y" "length y < 2 ^ 32"
      by (rule reply_frame_bytes [OF assms(1) w])
    then show ?thesis by auto
  qed
  show thesis using x f(3) t q by (intro that) auto
qed

subsection \<open>Both ends together\<close>

text \<open>The messages of the program: without the query when the registration was refused.\<close>

definition demo_messages :: "bool \<Rightarrow> message list" where
  "demo_messages queried = [(HEARTBEAT, 0, []), (REGISTER, 1, reg_payload)] @ (if queried then [(QUERY_NODE, 2, query_payload)] else [])"

lemma payload_bounds: "length reg_payload \<le> 65536" "length query_payload \<le> 65536"
  by (simp_all add: reg_payload_def query_payload_def snprintf_def REGISTER_PAYLOAD_SIZE_def QUERY_PAYLOAD_SIZE_def)

lemma demo_messages_decode:
  "decode_all decode_message (encode_many encode_message (demo_messages b)) = (demo_messages b, [])"
  by (rule decode_encoded_messages) (use payload_bounds in \<open>auto simp: demo_messages_def\<close>)

lemma demo_messages_encode:
  "encode_many encode_message (demo_messages b) = basic_opening @ (if b then frame_bytes QUERY_NODE 2 query_payload else [])"
  by (simp add: demo_messages_def basic_opening_def encode_many_def)

lemma demo_messages_safe:
  assumes "demo_parses J"
  shows "list_all (message_safe J) (demo_messages b)"
  using assms payload_bounds
  by (auto simp: demo_messages_def message_safe_def name_safe_def demo_parses_def DEMO_NODE_ID_def safe_literal)

lemma demo_registered:
  assumes "demo_parses J" "wf_registry r" "serves J os [] r (demo_messages b) reps n' r'"
  shows "n' = DEMO_NODE_ID" "wf_registry r'" "queryNode DEMO_NODE_ID r' \<noteq> None"
proof -
  let ?r = "snd (registerNode demo_entry (demo_registry os r))"
  obtain reps' where s: "serves J (tl (tl os)) DEMO_NODE_ID ?r (if b then [(QUERY_NODE, 2, query_payload)] else []) reps' n' r'"
    using assms(3) demo_serves [OF assms(1)] unfolding demo_messages_def by (metis append_Cons append_Nil)
  have wf: "wf_registry (demo_registry os r)" using assms(2) by (simp add: demo_registry_def wf_run_registry)
  show "n' = DEMO_NODE_ID" using serves_node [OF s] by (simp split: if_splits)
  show "wf_registry r'" using serves_wf [OF assms(3,2)] .
  show "queryNode DEMO_NODE_ID r' \<noteq> None"
    using serves_keeps [OF s] wf demo_known [OF wf] wf_registerNode by blast
qed

lemma frame_bytes_nonempty: "frame_bytes t i pl \<noteq> []"
  by (simp add: frame_bytes_def)

text \<open>The client's side of a session whose replies are known.\<close>

lemma demo_client:
  assumes "aligned (frame_bytes wt wi wx @ frame_bytes rt 1 x @ rest) q" "length wx < 2 ^ 32" "length x < 2 ^ 32" "next_id q = 0"
    and "rt \<in> {ACK, ERROR_MSG}" "rt = ACK \<Longrightarrow> queried \<Longrightarrow> \<exists>y. length y < 2 ^ 32 \<and> rest = frame_bytes ACK 2 y"
    and "basic_exchanges q = Some (code, p')" "prog_sent p' = prog_sent q @ encode_many encode_message (demo_messages queried)"
  shows "code = (if rt = ACK then EXIT_SUCCESS else EXIT_FAILURE) \<and> queried = (rt = ACK)"
proof (cases "rt = ACK")
  case False
  then have "MessageType_to_byte rt \<noteq> EOP_ACK" using assms(5) by (auto simp: EOP_ACK_def)
  then have "code = EXIT_FAILURE" "prog_sent p' = prog_sent q @ basic_opening"
    using exchanges_refused [OF assms(1-4)] assms(7) by auto
  then show ?thesis using assms(8) False frame_bytes_nonempty [of QUERY_NODE 2 query_payload]
    by (auto simp: demo_messages_encode split: if_splits)
next
  case True
  then have "MessageType_to_byte rt = EOP_ACK" by (simp add: EOP_ACK_def)
  then obtain p2 where p2: "aligned rest p2" "next_id p2 = 2" "prog_sent p2 = prog_sent q @ basic_opening"
    "basic_exchanges q = query_node p2 \<bind> (\<lambda>(ok, p). if \<not> ok then Some (EXIT_FAILURE, p)
       else Some (EXIT_SUCCESS, print_out (''[disconnect] OK'' @ NL) (prog_disconnect p)))"
    using exchanges_accepted [OF assms(1-4)] by blast
  obtain ok p3 where p3: "query_node p2 = Some (ok, p3)" "prog_sent p3 = prog_sent p2 @ frame_bytes QUERY_NODE 2 query_payload"
    using query_node_sends [of p2] p2(1,2) by (auto simp: aligned_def)
  have sent: "prog_sent p' = prog_sent p3"
    using assms(7) p2(4) p3(1) by (auto split: if_splits simp del: append.simps)
  then have queried
    using assms(8) p2(3) p3(2) frame_bytes_nonempty [of QUERY_NODE 2 query_payload] by (auto simp: demo_messages_encode split: if_splits)
  then obtain y where "length y < 2 ^ 32" "rest = frame_bytes ACK 2 y" using assms(6) True by blast
  then have ok using query_node_reply [of ACK 2 y "[]" p2] p2(1) p3(1) by (simp add: EOP_ACK_def)
  then show ?thesis using assms(7) p2(4) p3(1) True \<open>queried\<close> by simp
qed

text \<open>
  The wires of a session: the server receives what the client sends, in any chunks, and the other way round.
\<close>

definition wired :: "prog \<Rightarrow> prog \<Rightarrow> io \<Rightarrow> io \<Rightarrow> bool" where
  "wired p p' s s' \<longleftrightarrow> prog_sent p = [] \<and> io_sent s = [] \<and> rx_bytes (io_rx s) = prog_sent p' \<and> plain_rx (io_sent s') (pr_io p)"

lemma demo_conversation:
  assumes "json_laws J" "demo_parses J" "wf_registry (w_registry (sv_world st))" "session_ok 3 [] (sv_world st)"
    and "0 \<le> fd" "tx_ok (sv_sockets st fd)" "serve_socket J None \<lparr>as_fd = fd, as_ip = ip\<rparr> st = Some st'"
    and "basic_port args = Some port" "fst (eop_connect (Some (basic_host args)) port DEFAULT_TIMEOUT_MS env) \<noteq> None"
    and "\<forall>e. TxErr e \<notin> set (io_tx (snd (pr_io p)))" "pr_allocs p = []" "connect_basic args env p = Some (code, p')"
    and "wired p p' (sv_sockets st fd) (sv_sockets st' fd)"
  shows "code = (if fst (registerNode demo_entry (demo_registry (w_interference (sv_world st)) (w_registry (sv_world st)))) = REG_OK
      then EXIT_SUCCESS else EXIT_FAILURE)
    \<and> (\<exists>e. queryNode DEMO_NODE_ID (w_registry (sv_world st')) = Some e \<and> ne_status e = OFFLINE)"
proof -
  let ?os = "w_interference (sv_world st)" and ?r = "w_registry (sv_world st)"
  let ?rt = "if fst (registerNode demo_entry (demo_registry ?os ?r)) = REG_OK then ACK else ERROR_MSG"
  have so: "clock_ok (sv_world st)" "reg_ok ?r" "list_all op_ok (concat ?os)" using assms(4) by (simp_all add: session_ok_def)
  obtain i x ctx w st1 where sv: "served J fd ip st i x ctx w" and ss: "serve_socket J None \<lparr>as_fd = fd, as_ip = ip\<rparr> st =
      map_option (\<lambda>w'. st1\<lparr>sv_world := w', sv_sockets := (sv_sockets st1)(fd := w_io w')\<rparr>) (handleConnection J None fd ctx w)"
    using serve_socket_cases [OF assms(1) so(1) assms(6)] by blast
  then obtain w' where w': "handleConnection J None fd ctx w = Some w'" "sv_world st' = w'" "sv_sockets st' fd = w_io w'"
    using assms(7) by (cases "handleConnection J None fd ctx w") auto
  obtain ms rest where d: "decode_all decode_message (rx_bytes (io_rx (w_io w))) = (ms, rest)" by fastforce
  obtain reps n r bs where hc: "serves J ?os [] ?r ms reps n r" "left_offline n r (w_registry w')"
      "reply_frames J reps = Some bs" "io_sent (w_io w') = frame_bytes ACK i x @ bs"
    using handleConnection_effect(1) [OF w'(1) assms(5) d] sv assms(13) by (auto simp: served_def wired_def)
  have "plain_rx (frame_bytes ACK i x @ bs) (pr_io p)" using assms(13) hc(4) w'(3) by (simp add: wired_def)
  then obtain q where q: "basic_exchanges q = Some (code, p')" "aligned (frame_bytes ACK i x @ bs) q" "next_id q = 0" "prog_sent q = []"
    using connect_basic_connected [OF assms(8-11)] assms(12,13) unfolding wired_def by metis
  have lx: "length x < 2 ^ 32" using sv by (simp add: served_def)
  have "prog_sent p' = encode_many encode_message (demo_messages True) \<or> prog_sent p' = encode_many encode_message (demo_messages False)"
    using exchanges_sent [OF q(2) lx q(3)] q(1,4) by (auto simp: demo_messages_encode)
  then obtain b where b: "prog_sent p' = encode_many encode_message (demo_messages b)" by blast
  then have "ms = demo_messages b" using d sv assms(13) demo_messages_decode [of b] by (simp add: served_def wired_def)
  then have ms: "serves J ?os [] ?r (demo_messages b) reps n r" using hc(1) by simp
  obtain y rest' where y: "length y < 2 ^ 32" "bs = frame_bytes ?rt 1 y @ rest'"
      "(if b then [(QUERY_NODE, 2 :: u32, query_payload)] else []) = [(QUERY_NODE, 2, query_payload)] \<longrightarrow>
         (\<exists>z. length z < 2 ^ 32 \<and> rest' = frame_bytes ACK 2 z)"
    by (rule demo_replies [OF assms(1-3) so(2,3) ms [unfolded demo_messages_def append_Cons append_Nil] hc(3)])
  have "code = (if ?rt = ACK then EXIT_SUCCESS else EXIT_FAILURE) \<and> b = (?rt = ACK)"
    using q b y by (intro demo_client [OF q(2) [unfolded y(2)] lx y(1) q(3)]) auto
  moreover note reg = demo_registered [OF assms(2,3) ms]
  have "\<exists>e. queryNode DEMO_NODE_ID (w_registry w') = Some e \<and> ne_status e = OFFLINE"
    using left_offline_status [OF hc(2)] reg by simp
  ultimately show ?thesis using w'(2) by simp
qed

text \<open>
  Such sessions exist: whenever the registration is acceptable, the worker returns on the bytes of
  the program, and the program, given what the worker sent, succeeds and sends just these bytes.
\<close>

lemma demo_conversation_exists:
  assumes "json_laws J" "demo_parses J" "wf_registry (w_registry (sv_world st))" "session_ok 3 [] (sv_world st)" "safe_text ip"
    and "0 \<le> fd" "tx_ok (sv_sockets st fd)" "io_sent (sv_sockets st fd) = []"
    and "rx_bytes (io_rx (sv_sockets st fd)) = encode_many encode_message (demo_messages True)"
    and "fst (registerNode demo_entry (demo_registry (w_interference (sv_world st)) (w_registry (sv_world st)))) = REG_OK"
  obtains st' where "serve_socket J None \<lparr>as_fd = fd, as_ip = ip\<rparr> st = Some st'"
    "\<And>q. aligned (io_sent (sv_sockets st' fd)) q \<Longrightarrow> next_id q = 0 \<Longrightarrow>
      \<exists>p'. basic_exchanges q = Some (EXIT_SUCCESS, p') \<and> prog_sent p' = prog_sent q @ encode_many encode_message (demo_messages True)"
proof -
  let ?os = "w_interference (sv_world st)" and ?r = "w_registry (sv_world st)"
  have so: "reg_ok ?r" "list_all op_ok (concat ?os)" using assms(4) by (simp_all add: session_ok_def)
  have l: "session_ok (length (demo_messages True)) [] (sv_world st)" using assms(4) by (simp add: demo_messages_def numeral_3_eq_3)
  have d: "decode_all decode_message (rx_bytes (io_rx (sv_sockets st fd))) = (demo_messages True, [])"
    using assms(9) demo_messages_decode [of True] by simp
  obtain st' reps n r i x bs where st': "serve_socket J None \<lparr>as_fd = fd, as_ip = ip\<rparr> st = Some st'"
    and hc: "serves J ?os [] ?r (demo_messages True) reps n r" "reply_frames J reps = Some bs" "io_sent (sv_sockets st' fd) = frame_bytes ACK i x @ bs"
    and lx: "length x < 2 ^ 32"
    using serve_socket_serves [OF assms(1) l assms(5-7) d demo_messages_safe [OF assms(2)]] assms(8) by (metis append_Nil)
  obtain y rest' where y: "length y < 2 ^ 32" "bs = frame_bytes (if fst (registerNode demo_entry (demo_registry ?os ?r)) = REG_OK then ACK else ERROR_MSG) 1 y @ rest'"
      "(if True then [(QUERY_NODE, 2 :: u32, query_payload)] else []) = [(QUERY_NODE, 2, query_payload)] \<longrightarrow>
         (\<exists>z. length z < 2 ^ 32 \<and> rest' = frame_bytes ACK 2 z)"
    by (rule demo_replies [OF assms(1-3) so hc(1) [unfolded demo_messages_def append_Cons append_Nil] hc(2)])
  then obtain z where z: "length z < 2 ^ 32" "bs = frame_bytes ACK 1 y @ frame_bytes ACK 2 z" using assms(10) by auto
  have ack: "MessageType_to_byte ACK = EOP_ACK" by (simp add: EOP_ACK_def)
  show thesis
  proof (rule that [OF st'])
    fix q
    assume q: "aligned (io_sent (sv_sockets st' fd)) q" "next_id q = 0"
    then have "aligned (frame_bytes ACK i x @ frame_bytes ACK 1 y @ frame_bytes ACK 2 z) q" using hc(3) z(2) by simp
    then obtain p2 where p2: "aligned (frame_bytes ACK 2 z) p2" "next_id p2 = 2" "prog_sent p2 = prog_sent q @ basic_opening"
        "basic_exchanges q = query_node p2 \<bind> (\<lambda>(ok, p). if \<not> ok then Some (EXIT_FAILURE, p)
           else Some (EXIT_SUCCESS, print_out (''[disconnect] OK'' @ NL) (prog_disconnect p)))"
      using exchanges_accepted [OF _ lx y(1) q(2) ack] by blast
    then show "\<exists>p'. basic_exchanges q = Some (EXIT_SUCCESS, p')
        \<and> prog_sent p' = prog_sent q @ encode_many encode_message (demo_messages True)"
      using query_node_reply [of ACK 2 z "[]" p2] z(1) ack by (auto simp: demo_messages_encode)
  qed
qed

end
