(* ===== verification/Spec2Isabelle.thy ===== *)
theory Spec2Isabelle
  imports Tracing SessionSafety ServerProcess SpanExporter Interop
begin

text \<open>
  A verification of the EOP server and its C client (\<^verbatim>\<open>src/sd-2026-404-motivation-lost-development\<close>;
  the paths below are relative to it). The server keeps a registry of nodes. Clients connect by
  TCP and send length-prefixed frames: REGISTER, QUERY_NODE, LIST_NODES and HEARTBEAT.

  \<^bold>\<open>The parts and how they interact.\<close> \<^verbatim>\<open>main\<close> reads the configuration, opens the listening socket and
  runs the acceptor. The acceptor hands each accepted descriptor, counted in \<^verbatim>\<open>activeConnections\<close>,
  to the work queue. The workers of the thread pool take descriptors from the queue, send a
  welcome, and let the connection worker read frames until the stream ends, dispatching each to
  the handler of its type. The handlers read and change the registry and answer. Every step is
  traced, logged and counted. The heartbeat monitor marks nodes offline that were not heard of.

  \<^bold>\<open>How code becomes definitions.\<close> A struct is a record, an enumeration a datatype, a fixed-width
  integer a word, a \<^verbatim>\<open>std::string\<close> a list of bytes (\<open>char\<close>). A method is a function on the state it
  changes. The result \<^term>\<open>None\<close> means that the code does not go on: an exception escapes, or memory outside a
  buffer is written, or SIGPIPE ends the process, or a wait does not end. System calls take their answers from explicit scripts: \<open>io\<close> of
  theory \<open>Posix\<close> holds, for one socket, the chunks, interrupts, failures and partial writes to
  come; \<open>host\<close> holds the clocks and the random numbers. What is outside the repository is an
  argument: \<open>json_lib\<close> is \<^verbatim>\<open>parse\<close> and \<^verbatim>\<open>dump\<close> of the JSON library, of which the hypothesis \<open>json_laws\<close>
  asks what its documentation says (the parser yields only UTF-8 strings; dumping fails exactly on
  strings that are not UTF-8; a dump is not longer than a bound); the outcome of starting the metrics endpoint is an argument
  of \<open>metrics_start\<close>; allocation failures are arguments of the client's functions.

  \<^bold>\<open>Contracts.\<close> What the code is compared with is written without the definitions that model the code. The contracts of the
  handlers (\<open>registration\<close>, \<open>register_spec\<close>, \<open>node_fields\<close>, \<open>query_spec\<close>, \<open>list_spec\<close>, \<open>named_node\<close>) read and give the JSON fields and the
  error numbers literally; the wire layout is given by quotients and remainders (\<open>big_endian\<close>, \<open>type_code\<close>), the
  configuration by the decimal number that a text is (\<open>decimal_text\<close>), the sanitising by the positions at which words occur
  (\<open>sensitive\<close>), and timestamps by what their reader computes from them (\<open>read_utc\<close>).

  \<^bold>\<open>The theories.\<close>
  \<^item> \<open>Prelude\<close>, \<open>Json\<close>, \<open>Posix\<close>, \<open>Codec\<close>: shared vocabulary and lemmas; JSON values and the
    library's laws, with an instance that satisfies them; sockets; the locale \<open>stream_codec\<close>, in which it is proved
    once that a decoder with the prefix law reads back any sequence of encoded messages.
  \<^item> \<open>MessageSerializer\<close> (\<^verbatim>\<open>src/messageSerializer.cpp\<close>): frames, \<^verbatim>\<open>readFrame\<close>, \<^verbatim>\<open>sendAll\<close>, payloads. The
    lemmas show the round trip, that chunking does not matter, the byte layout, and where the
    32-bit arithmetic wraps. It interprets \<open>stream_codec\<close>.
  \<^item> \<open>NodeRegistry\<close> (\<^verbatim>\<open>src/nodeRegistry.cpp\<close>): the map as an association list in iteration order.
    The locale \<open>registry_laws\<close> states what the operations promise, the interpretation proves it.
  \<^item> \<open>SessionManager\<close>, \<open>WorkQueue\<close>, \<open>ServerConfig\<close> (the sources of the same names): identifiers are unique
    up to wrap-around; the queue loses and duplicates nothing (locale \<open>handoff_queue\<close>); every configuration
    is in range and follows the environment variable by variable.
  \<^item> \<open>Host\<close>, \<open>OtelScope\<close>, \<open>Logger\<close>, \<open>PrometheusMetrics\<close>: clocks and timestamps (\<^verbatim>\<open>gmtime_r\<close> of the C library as the
    Gregorian calendar defines it), spans and their
    exporter (\<^verbatim>\<open>src/otelScope.cpp\<close>), log lines (\<^verbatim>\<open>src/logger.cpp\<close>), the registered series
    and what is recorded in them (\<^verbatim>\<open>src/prometheusMetrics.cpp\<close>). The state records extend one
    another, so that a log call is known to leave registry and socket alone.
  \<^item> \<open>World\<close>: the state that a worker sees. Between two frames the other threads may do anything that the
    registry's operations allow: the field \<open>w_interference\<close> is an arbitrary script of it.
  \<^item> \<open>RegisterHandler\<close>, \<open>QueryHandler\<close>, \<open>HeartbeatHandler\<close>, \<open>HeartbeatMonitor\<close>: one theory per
    handler. Each handler has an effect lemma: what it does to the part of the state that
    others see. For the monitor, what other threads do between its snapshot and its marking is part of the effect.
  \<^item> \<open>ConnectionWorker\<close> (\<^verbatim>\<open>src/connectionWorker.cpp\<close>): the loop over frames, teardown included. The
    relations \<open>request\<close> and \<open>serves\<close> specify what serving a sequence of messages means;
    the loop implements them.
  \<^item> \<open>Tracing\<close>: the spans that a connection exports. They form one tree, and its last two spans
    tell how the connection ended.
  \<^item> \<open>SessionSafety\<close>: which sessions cannot bring the server down (\<open>session_ok\<close>), and that for
    them every function returns.
  \<^item> \<open>SocketAcceptor\<close>, \<open>ThreadPool\<close>, \<open>ServerMain\<close> (\<^verbatim>\<open>src/socketAcceptor.cpp\<close>, \<^verbatim>\<open>src/threadPool.cpp\<close>,
    \<^verbatim>\<open>src/app/main.cpp\<close>, \<^verbatim>\<open>src/exodusBanner.cpp\<close>): opening the port and accepting, the loop of a worker,
    signals and the banner.
  \<^item> \<open>ServerSteps\<close>: acceptor, workers and shutdown interleaved, as the relation \<open>pool_step\<close>
    on the shared state; invariants through the locale \<open>step_invariant\<close>; the sequential
    definitions refine it. \<open>run_server\<close> executes whole operations one after the other; how they overlap is what \<open>pool_step\<close> covers.
  \<^item> \<open>Lifecycle\<close> (\<^verbatim>\<open>include/socketAcceptor.hpp\<close>, \<^verbatim>\<open>src/socketAcceptor.cpp\<close>, \<^verbatim>\<open>src/threadPool.cpp\<close>,
    \<^verbatim>\<open>src/heartbeatMonitor.cpp\<close>): construction, start, stop and destruction of what owns threads and
    descriptors. \<open>acceptor_releases\<close> covers every sequence of calls on an acceptor.
  \<^item> \<open>ServerProcess\<close> (\<^verbatim>\<open>src/app/main.cpp\<close>): the whole of \<^verbatim>\<open>main\<close> with its destructors, composed from
    \<open>Lifecycle\<close> and the operations of \<open>ServerSteps\<close>. It returns after a signal, and everything is released then.
  \<^item> \<open>SpanExporter\<close> (\<^verbatim>\<open>BatchExporter\<close> in \<^verbatim>\<open>src/otelScope.cpp\<close>): the flusher thread, the enqueuing threads and the
    destructor as the relation \<open>exporter_step\<close>; no span is lost inside the exporter, its
    destructor ends, and \<open>flush\<close> of \<open>OtelScope\<close> is a run of it.
  \<^item> \<open>EopEnvelope\<close>, \<open>EopClient\<close> (\<^verbatim>\<open>client/src/eop_envelope.c\<close>, \<^verbatim>\<open>client/src/eop_client.c\<close>): the C client. It
    builds the same bytes as the server; it gets the frames in the order they were sent.
  \<^item> \<open>ClientExamples\<close> (\<^verbatim>\<open>client/examples/connect_basic.c\<close>, \<^verbatim>\<open>client/examples/eop_demo.c\<close>): the two programs that
    use the client, with their input, output and resources.
  \<^item> \<open>Interop\<close>: \<^verbatim>\<open>connect_basic\<close> on one end of a connection and a worker of the server on the other.
  \<^item> This theory: the properties that span components. They are numbered together with those of the other
    theories, by importance.

  \<^bold>\<open>Bounds.\<close> Payload lengths are bounded by the protocol's own limits (\<open>wf_message\<close>); the replies of a
    session are bounded below \<open>2^32\<close> bytes by bounding the registry and the fields of a node in \<open>session_ok\<close>. No
    fuel limits a loop over sockets: its recursion follows the script of the kernel's answers, and
    a script that ends stands for a stream that ends.

  \<^bold>\<open>Not modelled.\<close> The scheduler, and mutexes and condition variables as such: each operation under a lock
  is one step, and a wait may end at any time. How long a worker takes to leave its loop is an
  argument of the shutdown, which the watchdog compares with its limit. The lengths of the other timeouts and
  intervals (receive, flush, HTTP, rejection): when a wait gives up is part of the script. Constructors
  that only store references, and deleted copy operations. The libraries for JSON,
  Prometheus and sockets beyond what is said above, the tests, and the deployment files.
\<close>

section \<open>Serving a connection\<close>

text \<open>A sample connection, on which the properties below are instantiated.\<close>

definition sample_ctx :: ConnectionContext where
  "sample_ctx = \<lparr>cc_nodeId = [], cc_sessionId = ''00000001'', cc_clientIp = ''10.0.0.1''\<rparr>"

definition sample_rx :: "message list \<Rightarrow> rx_event list" where
  "sample_rx ms = [RxData (encode_many encode_message ms), RxEof]"

definition sample_json :: json where
  "sample_json = JObject [(''node_id'', JString ''n1''), (''bunker_name'', JString ''b''),
     (''ip_address'', JString ''10.0.0.1''), (''capacity'', JUInt 4)]"

definition sample_entry :: NodeEntry where
  "sample_entry = \<lparr>ne_node_id = ''n1'', ne_bunker_name = ''b'', ne_ip_address = ''10.0.0.1'',
     ne_capacity = 4, ne_status = ONLINE, ne_last_seen_at = 0\<rparr>"

lemma sample_ctx_ok [simp]: "context_ok sample_ctx" "cc_nodeId sample_ctx = []"
  by (simp_all add: sample_ctx_def context_ok_def safe_literal)

lemma sample_rx_bytes [simp]: "rx_bytes (sample_rx ms) = encode_many encode_message ms"
  by (simp add: sample_rx_def)

lemma sample_laws [simp]: "json_laws (sample_lib ''registration'' sample_json)"
  by (rule sample_lib_laws) (auto simp: sample_json_def utf8_literal split: if_splits)

lemma sample_register [simp]: "\<not> register_invalid sample_json" "register_entry sample_json = sample_entry"
  by (simp_all add: register_invalid_def register_entry_def sample_json_def sample_entry_def contains_def json_at_def
      FIELD_NODE_ID_def FIELD_BUNKER_NAME_def FIELD_IP_ADDRESS_def FIELD_CAPACITY_def)

lemma sample_fields: "node_fields sample_entry = [(''node_id'', JString ''n1''), (''bunker_name'', JString ''b''),
    (''ip_address'', JString ''10.0.0.1''), (''capacity'', JUInt 4), (''status'', JString ''ONLINE'')]"
  by (simp add: node_fields_def sample_entry_def)

lemma sample_node_id [simp]: "json_get ''node_id'' sample_json = Some (JString ''n1'')" "ne_node_id sample_entry = ''n1''"
  by (simp_all add: sample_json_def sample_entry_def)

lemma sample_session_ok:
  "reg_ok r \<Longrightarrow> length r + k \<le> 3000 \<Longrightarrow> session_ok k [] (sample_world r rx)"
  by (simp add: session_ok_def stack_ok_def clock_ok_def safe_literal)

lemma sample_safe [simp]: "length pl \<le> 65536 \<Longrightarrow> message_safe (sample_lib ''registration'' sample_json) (t, i, pl)"
  by (auto simp: message_safe_def name_safe_def sample_lib_def sample_json_def safe_literal)

lemma sample_reg_ok [simp]: "reg_ok [(''n1'', sample_entry)]" "wf_registry [(''n1'', sample_entry)]"
  by (simp_all add: reg_ok_def entry_ok_def sample_entry_def utf8_literal wf_registry_def)

lemma sample_returns:
  assumes "\<forall>m \<in> set ms. wf_message m" "reg_ok r" "length r + length ms \<le> 3000"
  obtains w' where "handleConnection (sample_lib ''registration'' sample_json) None 5 sample_ctx (sample_world r (sample_rx ms)) = Some w'"
proof -
  have "list_all (message_safe (sample_lib ''registration'' sample_json)) ms" using assms(1) by (auto simp: list_all_iff)
  then have "returns (handleConnection (sample_lib ''registration'' sample_json) None 5 sample_ctx (sample_world r (sample_rx ms)))"
    using assms decode_encoded_messages [OF assms(1)]
    by (intro handleConnection_ok [where ms = ms and rest = "[]"]) (simp_all add: sample_session_ok)
  then show thesis using that unfolding returns_def by blast
qed

text \<open>
  C1. Total correctness of a connection. Let the bytes that a client sends encode the messages
  \<open>ms\<close>, in any chunks. If their node identifiers survive sanitising, the JSON library keeps its documented
  laws and the registry stays within 3000 nodes, then \<^verbatim>\<open>handleConnection\<close> returns; it has served
  exactly \<open>ms\<close> in order, each request against the registry as the other threads left it, has
  sent the frames of the replies and nothing else, and has left the connection's node offline.
\<close>

theorem connection_correct:
  assumes "json_laws J" "context_ok ctx" "0 \<le> fd" "tx_ok (w_io w)"
    and "decode_all decode_message (rx_bytes (io_rx (w_io w))) = (ms, rest)"
    and "list_all (message_safe J) ms" "session_ok (length ms) (cc_nodeId ctx) w"
  shows "\<exists>w' reps n r bs. handleConnection J None fd ctx w = Some w'
    \<and> serves J (w_interference w) (cc_nodeId ctx) (w_registry w) ms reps n r \<and> left_offline n r (w_registry w')
    \<and> reply_frames J reps = Some bs \<and> io_sent (w_io w') = io_sent (w_io w) @ bs"
proof -
  obtain w' where w': "handleConnection J None fd ctx w = Some w'"
    using handleConnection_ok [OF assms(1,2,5-7)] unfolding returns_def by blast
  then show ?thesis using handleConnection_effect(1) [OF w' assms(3,5)] assms(4) by blast
qed

lemma connection_correct_witness:
  "\<exists>w' reps n r bs. handleConnection (sample_lib ''registration'' sample_json) None 5 sample_ctx
      (sample_world [] (sample_rx [(REGISTER, 7, ''registration'')])) = Some w'
    \<and> serves (sample_lib ''registration'' sample_json) [] [] [] [(REGISTER, 7, ''registration'')] reps n r
    \<and> left_offline n r (w_registry w') \<and> reply_frames (sample_lib ''registration'' sample_json) reps = Some bs
    \<and> io_sent (w_io w') = bs"
  using connection_correct [of "sample_lib ''registration'' sample_json" sample_ctx 5
      "sample_world [] (sample_rx [(REGISTER, 7, ''registration'')])" "[(REGISTER, 7, ''registration'')]" "[]"]
    decode_encoded_messages [of "[(REGISTER, 7, ''registration'')]"]
  by (simp add: sample_session_ok reg_ok_def tx_ok_def) (simp add: sample_world_def)

text \<open>
  C2. A connection cleans up after itself, whatever the client sends: if the process is not
  brought down, its descriptor has been closed exactly once, the number of active connections
  has gone down by one, the span stack of the thread is as before, and each request has been
  recorded in the metrics once: the counter of every operation has grown by the number of requests of
  that operation. The same holds if the receive timeout cannot be set on the socket; then nothing is read, sent or recorded.
\<close>

theorem connection_balanced:
  assumes "handleConnection J sockopt fd ctx w = Some w'" "0 \<le> fd"
    and "decode_all decode_message (rx_bytes (io_rx (w_io w))) = (ms, rest)"
  shows "w_closed w' = w_closed w @ [fd] \<and> w_active w' = w_active w - 1 \<and> ot_stack w' = ot_stack w
    \<and> counter_value [(''operation'', op)] w' = counter_value [(''operation'', op)] w
        + (if sockopt = None then length (filter (\<lambda>m. operation_label (fst m) = op) ms) else 0)
    \<and> (sockopt \<noteq> None \<longrightarrow> w_io w' = w_io w)"
proof (cases sockopt)
  case None
  note e = handleConnection_effect [OF assms(1) [unfolded None] assms(2,3)]
  obtain es where "mt_calls w' = mt_calls w @ es" "map fst es = map messageTypeIndex (map fst ms)" using e(5) by auto
  note counter_value_calls [OF this, of op]
  then show ?thesis using e(2-4) None by (simp add: filter_map comp_def)
next
  case (Some err)
  then show ?thesis using handleConnection_unconfigured(2-) [of J err fd ctx w w'] assms by (simp add: counter_value_def)
qed

lemma connection_balanced_witness:
  "\<exists>w'. handleConnection (sample_lib ''registration'' sample_json) None 5 sample_ctx
      (sample_world [] (sample_rx [(HEARTBEAT, 7, [])])) = Some w' \<and> w_closed w' = [5] \<and> w_active w' = 0
    \<and> counter_value [(''operation'', ''HEARTBEAT'')] w' = 1"
proof -
  obtain w' where "handleConnection (sample_lib ''registration'' sample_json) None 5 sample_ctx
      (sample_world [] (sample_rx [(HEARTBEAT, 7, [])])) = Some w'"
    by (rule sample_returns [of "[(HEARTBEAT, 7, [])]" "[]"]) (simp_all add: reg_ok_def)
  then show ?thesis
    using connection_balanced [of _ None 5 sample_ctx "sample_world [] (sample_rx [(HEARTBEAT, 7, [])])" w' "[(HEARTBEAT, 7, [])]" "[]" "''HEARTBEAT''"]
      decode_encoded_messages [of "[(HEARTBEAT, 7, [])]"]
    by (simp add: sample_world_def counter_value_def operation_label_def)
qed

text \<open>
  C7. The spans of a connection form one trace. A connection on which no message arrives exports
  nothing. Otherwise its span is the root of a new trace; each known request and the disconnection have one
  span below the root, exported in this order before the root; the span of the disconnection names the reason, which follows from how
  the byte stream ends; it has failed unless the peer closed the connection cleanly, and the root has
  failed if also a REGISTER could not be parsed.
\<close>

theorem connection_trace:
  assumes "handleConnection J None fd ctx w = Some w'" "0 \<le> fd" "ot_stack w = []"
    and "decode_all decode_message (rx_bytes (io_rx (w_io w))) = (ms, rest)"
  shows "\<exists>spans. ot_pending w' = ot_pending w @ spans
    \<and> connection_spans J ms (end_reason (fr_status (stream_frame rest (rx_end (io_rx (w_io w))))) (io_errno (w_io w'))) spans"
  using assms by (rule connection_traced)

lemma connection_trace_witness:
  "\<exists>w'. handleConnection (sample_lib ''registration'' sample_json) None 5 sample_ctx
      (sample_world [] (sample_rx [(HEARTBEAT, 7, [])])) = Some w'
    \<and> map fs_name (ot_pending w') = [''heartbeat'', ''client_disconnection'', ''client_connection'']"
proof -
  let ?w = "sample_world [] (sample_rx [(HEARTBEAT, 7, [])])"
  obtain w' where w': "handleConnection (sample_lib ''registration'' sample_json) None 5 sample_ctx ?w = Some w'"
    by (rule sample_returns [of "[(HEARTBEAT, 7, [])]" "[]"]) (simp_all add: reg_ok_def)
  have "ot_pending ?w = []" by (simp add: sample_world_def)
  then show ?thesis
    using connection_trace [OF w', of "[(HEARTBEAT, 7, [])]" "[]"] decode_encoded_messages [of "[(HEARTBEAT, 7, [])]"] w'
    by (auto simp: connection_spans_def simp del: append.simps)
qed

text \<open>
  C3. Every request except HEARTBEAT gets exactly one reply, in the order of the requests and
  under the identifier of its request; HEARTBEAT gets none.
\<close>

theorem replies_match_requests:
  assumes "handleConnection J None fd ctx w = Some w'" "0 \<le> fd" "tx_ok (w_io w)"
    and "decode_all decode_message (rx_bytes (io_rx (w_io w))) = (ms, rest)"
  shows "\<exists>reps bs. map fst reps = map (\<lambda>(t, i, pl). i) (filter wants_reply ms)
    \<and> reply_frames J reps = Some bs \<and> io_sent (w_io w') = io_sent (w_io w) @ bs"
  using handleConnection_effect(1) [OF assms(1,2,4)] assms(3) serves_ids
  by (fastforce simp: case_prod_beta)

lemma replies_match_requests_witness:
  "\<exists>w' reps bs. handleConnection (sample_lib ''registration'' sample_json) None 5 sample_ctx
      (sample_world [] (sample_rx [(HEARTBEAT, 7, []), (LIST_NODES, 8, [])])) = Some w'
    \<and> map fst reps = [8] \<and> reply_frames (sample_lib ''registration'' sample_json) reps = Some bs \<and> io_sent (w_io w') = bs"
proof -
  let ?ms = "[(HEARTBEAT, 7, []), (LIST_NODES, 8, [])]"
  obtain w' where w': "handleConnection (sample_lib ''registration'' sample_json) None 5 sample_ctx
      (sample_world [] (sample_rx ?ms)) = Some w'"
    by (rule sample_returns [of ?ms "[]"]) (simp_all add: reg_ok_def)
  have "\<exists>reps bs. map fst reps = map (\<lambda>(t, i, pl). i) (filter wants_reply ?ms)
    \<and> reply_frames (sample_lib ''registration'' sample_json) reps = Some bs
    \<and> io_sent (w_io w') = io_sent (w_io (sample_world [] (sample_rx ?ms))) @ bs"
    using w' decode_encoded_messages [of ?ms]
    by (intro replies_match_requests [where fd = 5 and rest = "[]"]) (simp_all add: tx_ok_def)
  then show ?thesis using w' by (simp add: wants_reply_def sample_world_def)
qed

text \<open>
  C4. A connection takes its node down with it. Let a REGISTER on a connection name a node, and no later one on the same connection.
  When the connection has ended, the node is not ONLINE: if the registry knows it, its status is OFFLINE. If the
  REGISTER was valid, the registry does know it. This covers a refused REGISTER as well as an accepted one: the worker
  takes note of the name before the handler decides.
\<close>

theorem node_offline_after_disconnect:
  assumes "handleConnection J None fd ctx w = Some w'" "0 \<le> fd" "wf_registry (w_registry w)"
    and "decode_all decode_message (rx_bytes (io_rx (w_io w))) = (pre @ (REGISTER, i, pl) # post, rest)"
    and "parse J pl = Some j" "json_get ''node_id'' j = Some (JString k)"
    and "\<forall>(t, i', pl') \<in> set post. t = REGISTER \<longrightarrow> named_node J pl' = None"
  shows "(\<forall>e. queryNode k (w_registry w') = Some e \<longrightarrow> ne_status e = OFFLINE)
    \<and> (registration j \<noteq> None \<longrightarrow> queryNode k (w_registry w') \<noteq> None)"
proof -
  obtain reps n r where s: "serves J (w_interference w) (cc_nodeId ctx) (w_registry w) (pre @ (REGISTER, i, pl) # post) reps n r"
      "left_offline n r (w_registry w')"
    using handleConnection_effect(1) [OF assms(1,2,4)] by blast
  have "named_node J pl = Some k" using assms(5,6) by (simp add: named_node_def)
  then have n: "n = k" using serves_node [OF s(1)] session_node_named [OF _ assms(7)] by simp
  have "queryNode k (w_registry w') \<noteq> None" if e: "registration j = Some e" for e
  proof -
    have "ne_node_id e = k" using e assms(6) by (auto simp: registration_def split: option.splits json.splits if_splits)
    then show ?thesis
      using left_offline_keeps [OF s(2) serves_wf [OF s(1) assms(3)] serves_known [OF assms(5) e s(1) assms(3)]] by simp
  qed
  then show ?thesis using left_offline_found [OF s(2) serves_wf [OF s(1) assms(3)]] n by auto
qed

lemma node_offline_after_disconnect_witness:
  "\<exists>w' e. handleConnection (sample_lib ''registration'' sample_json) None 5 sample_ctx
      (sample_world [] (sample_rx [(REGISTER, 7, ''registration''), (LIST_NODES, 8, ''{}'')])) = Some w'
    \<and> queryNode ''n1'' (w_registry w') = Some e \<and> ne_status e = OFFLINE"
proof -
  let ?J = "sample_lib ''registration'' sample_json"
  let ?ms = "[] @ (REGISTER, 7, ''registration'') # [(LIST_NODES, 8, ''{}'')]"
  obtain w' where w': "handleConnection ?J None 5 sample_ctx (sample_world [] (sample_rx ?ms)) = Some w'"
    by (rule sample_returns [of ?ms "[]"]) (simp_all add: reg_ok_def)
  have "registration sample_json = Some sample_entry" by (simp add: registration_code)
  then show ?thesis
    using w' node_offline_after_disconnect [OF w', of "[]" 7 "''registration''" "[(LIST_NODES, 8, ''{}'')]" "[]" sample_json "''n1''"]
      decode_encoded_messages [of ?ms]
    by (auto simp: wf_registry_def)
qed

text \<open>
  C37. A refused registration still takes the node down. When a connection sends one REGISTER for a
  node that is ONLINE, the registry refuses it, but the worker has noted the node as its own
  before the refusal, and marks it OFFLINE when the connection ends.
\<close>

theorem refused_register_takes_node_offline:
  assumes "handleConnection J None fd ctx w = Some w'" "0 \<le> fd" "wf_registry (w_registry w)"
    and "decode_all decode_message (rx_bytes (io_rx (w_io w))) = ([(REGISTER, i, pl)], rest)"
    and "parse J pl = Some j" "\<not> register_invalid j"
    and "queryNode (ne_node_id (register_entry j)) (w_registry w) = Some e" "ne_status e = ONLINE"
  shows "fst (registerNode (register_entry j) (w_registry w)) = REG_ERR_DUPLICATE
    \<and> (\<exists>e'. queryNode (ne_node_id (register_entry j)) (w_registry w') = Some e' \<and> ne_status e' = OFFLINE)"
proof
  have "fst (registerNode (register_entry j) (w_registry w)) \<noteq> REG_OK" using nreg.reg_result [OF assms(3)] assms(7,8) by auto
  then show "fst (registerNode (register_entry j) (w_registry w)) = REG_ERR_DUPLICATE"
    by (cases "fst (registerNode (register_entry j) (w_registry w))") simp_all
  obtain reps n r where s: "serves J (w_interference w) (cc_nodeId ctx) (w_registry w) [(REGISTER, i, pl)] reps n r" "left_offline n r (w_registry w')"
    using handleConnection_effect(1) [OF assms(1,2,4)] by blast
  have "named_node J pl = Some (ne_node_id (register_entry j))"
    using assms(5,6) string_field_cases(2) [of j "''node_id''"]
    by (simp add: named_node_def register_invalid_def register_entry_def FIELD_NODE_ID_def)
  then have "session_node J (cc_nodeId ctx) [(REGISTER, i, pl)] = ne_node_id (register_entry j)" by simp
  then have "n = ne_node_id (register_entry j)" using serves_node [OF s(1)] by simp
  then show "\<exists>e'. queryNode (ne_node_id (register_entry j)) (w_registry w') = Some e' \<and> ne_status e' = OFFLINE"
    using left_offline_status [OF s(2) serves_wf [OF s(1) assms(3)]] serves_keeps [OF s(1) assms(3), of n] assms(7) by auto
qed

lemma refused_register_takes_node_offline_witness:
  "\<exists>w' e'. handleConnection (sample_lib ''registration'' sample_json) None 5 sample_ctx
      (sample_world [(''n1'', sample_entry)] (sample_rx [(REGISTER, 7, ''registration'')])) = Some w'
    \<and> queryNode ''n1'' (w_registry w') = Some e' \<and> ne_status e' = OFFLINE"
proof -
  let ?ms = "[(REGISTER, 7, ''registration'')]" and ?r = "[(''n1'', sample_entry)]"
  obtain w' where w': "handleConnection (sample_lib ''registration'' sample_json) None 5 sample_ctx
      (sample_world ?r (sample_rx ?ms)) = Some w'"
    by (rule sample_returns [of ?ms ?r]) simp_all
  show ?thesis
    using refused_register_takes_node_offline [OF w', of 7 "''registration''" "[]" sample_json sample_entry]
      decode_encoded_messages [of ?ms] w' sample_reg_ok
    by (auto simp: queryNode_def sample_entry_def)
qed

text \<open>
  C38. One request can end the process. If the first message of a connection is a valid REGISTER whose
  node identifier is cut by the logger in the middle of a UTF-8 character, serialising the log line
  throws an exception that nobody catches: the connection does not return.
\<close>

theorem cut_identifier_crashes:
  assumes "dump_law J" "decode_message (rx_bytes (io_rx (w_io w))) = Some ((REGISTER, i, pl), rest)" "0 \<le> fd"
    and "parse J pl = Some j" "\<not> register_invalid j" "lg_minLevel w \<le> INFO"
    and "\<not> utf8 (sanitizeText (ne_node_id (register_entry j)))"
  shows "handleConnection J None fd ctx w = None"
proof (rule ccontr)
  assume "\<not> ?thesis"
  then obtain res where l: "worker_loop J ctx (cc_nodeId ctx) None (w\<lparr>h_reads := Suc (h_reads w)\<rparr>) = Some res"
    using assms(3) by (auto simp: handleConnection_def connection_body_def steady_now_def Let_def split: bind_splits)
  obtain f s where rf: "readFrame (w_io (w\<lparr>h_reads := Suc (h_reads w)\<rparr>)) = (f, s)" by fastforce
  have ok: "fr_status f = OK" using readFrame_decode(4) [OF rf] assms(2) by auto
  have f: "fr_messageType f = REGISTER" "fr_payload f = pl" using readFrame_decode(3) [OF rf ok] assms(2) by auto
  show False
    using rf ok l
  proof (rule worker_loop_step)
    fix n' sc w1
    assume "handle_frame J ctx \<lparr>fr_status = OK, fr_messageType = fr_messageType f, fr_messageId = fr_messageId f,
      fr_payload = fr_payload f\<rparr> (cc_nodeId ctx) None (w\<lparr>h_reads := Suc (h_reads w), w_io := s\<rparr>) = Some (n', sc, w1)"
    then show False
      using handle_frame_crash [OF assms(1,4,5), of "w\<lparr>h_reads := Suc (h_reads w), w_io := s\<rparr>"] assms(6,7) f
      by (simp add: safe_text_def)
  qed
qed

text \<open>Such an identifier: 511 letters and the two bytes of an accented letter.\<close>

definition cut_name :: string where
  "cut_name = replicate 511 CHR ''a'' @ [CHR 0xC3, CHR 0xA9]"

definition cut_json :: json where
  "cut_json = JObject [(''node_id'', JString cut_name), (''bunker_name'', JString ''b''),
     (''ip_address'', JString ''10.0.0.1''), (''capacity'', JUInt 4)]"

lemma cut_name_facts: "utf8 cut_name" "\<not> utf8 (sanitizeText cut_name)" "length cut_name = 513"
proof -
  show l: "length cut_name = 513" by (simp add: cut_name_def)
  have "utf8 (replicate n CHR ''a'')" for n by (rule utf8_ascii) simp
  then show "utf8 cut_name" unfolding cut_name_def by (intro utf8_append) (simp_all add: utf8_def utf8_tail_def)
  have "\<not> set m \<subseteq> {CHR ''a'', CHR 0xC3, CHR 0xA9}" if "m \<in> set BLOCKED" for m
    using that by (auto simp: BLOCKED_def)
  moreover have "set (toLowerCopy cut_name) \<subseteq> {CHR ''a'', CHR 0xC3, CHR 0xA9}"
    by (auto simp: toLowerCopy_def cut_name_def tolower_def)
  ultimately have "\<not> containsSensitiveMarker cut_name"
    unfolding containsSensitiveMarker_def Let_def list_ex_iff str_find_iff by fastforce
  then have "sanitizeText cut_name = replicate 511 CHR ''a'' @ [CHR 0xC3]"
    using l by (simp add: sanitizeText_def MAX_LOG_FIELD_LENGTH_def) (simp add: cut_name_def)
  moreover have "\<not> utf8_run [] (replicate n 97 @ [195])" for n by (induction n) (simp_all add: utf8_tail_def)
  ultimately show "\<not> utf8 (sanitizeText cut_name)" by (simp add: utf8_def)
qed

lemma cut_identifier_crashes_witness:
  "json_laws (sample_lib cut_name cut_json) \<and> utf8 cut_name
   \<and> handleConnection (sample_lib cut_name cut_json) None 5 sample_ctx (sample_world [] (sample_rx [(REGISTER, 7, cut_name)])) = None"
proof -
  note u = cut_name_facts
  have laws: "json_laws (sample_lib cut_name cut_json)"
    by (rule sample_lib_laws) (auto simp: cut_json_def u utf8_literal split: if_splits)
  have d: "decode_message (encode_many encode_message [(REGISTER, 7, cut_name)]) = Some ((REGISTER, 7, cut_name), [])"
    using frames.decode_encode [of "(REGISTER, 7, cut_name)" "[]"] u(3) by (simp add: encode_many_def)
  have j: "\<not> register_invalid cut_json" "ne_node_id (register_entry cut_json) = cut_name"
    using u(3) by (auto simp: register_invalid_def register_entry_def cut_json_def contains_def json_at_def
      FIELD_NODE_ID_def FIELD_BUNKER_NAME_def FIELD_IP_ADDRESS_def FIELD_CAPACITY_def)
  show ?thesis
    using laws u(1) j u(2) d
    by (auto intro!: cut_identifier_crashes [of _ _ 7 cut_name "[]" _ cut_json] simp: json_laws_def)
qed

section \<open>The handlers\<close>

text \<open>
  C9. REGISTER. The handler returns, changes the registry as \<open>register_spec\<close> says and sends exactly the
  reply that it says: error 3 for a payload that is not JSON, or in which \<^verbatim>\<open>node_id\<close> is not a non-empty string,
  \<^verbatim>\<open>bunker_name\<close> or \<^verbatim>\<open>ip_address\<close> not a string, or \<^verbatim>\<open>capacity\<close> not an unsigned number; error 1 for a node that is
  ONLINE; and otherwise an ACK for the node, which is then stored with these fields as ONLINE. Errors leave the registry as it is.
\<close>

theorem register_contract:
  assumes "json_laws J" "safe_text sid" "stack_ok w" "length pl \<le> 65536" "name_safe J pl"
  shows "\<exists>w'. RegisterHandler_handle J i pl sid w = Some w'
    \<and> answered J i (fst (register_spec J i pl (w_registry w))) (snd (register_spec J i pl (w_registry w))) w w'"
  using RegisterHandler_total [OF assms] RegisterHandler_effect unfolding returns_def by blast

lemma register_contract_witness:
  "\<exists>w'. RegisterHandler_handle (sample_lib ''registration'' sample_json) 7 ''registration'' ''1'' (sample_world [] []) = Some w'
    \<and> answered (sample_lib ''registration'' sample_json) 7 (ack_reply 7 ''n1'') [(''n1'', sample_entry)] (sample_world [] []) w'"
  using register_contract [of "sample_lib ''registration'' sample_json" "''1''" "sample_world [] []" "''registration''" 7]
    sample_safe [of "''registration''"]
  by (simp add: safe_literal stack_ok_def message_safe_def register_spec_def registration_code)

text \<open>
  C10. QUERY\_NODE and LIST\_NODES. The handler returns, leaves the registry alone and sends exactly the
  reply of the contract. A query is answered with error 3 if it names no node, error 2 if the node is not known, and else with the
  fields of the node under their names, its status as the word ONLINE or OFFLINE, and for an OFFLINE node the time it was last
  seen; a listing with one such object per registered node.
\<close>

theorem query_contract:
  assumes "json_laws J" "safe_text sid" "stack_ok w" "length pl \<le> 65536" "name_safe J pl"
    and "reg_ok (w_registry w)" "length (w_registry w) \<le> 3000"
  shows "\<exists>w'. QueryHandler_handle J t i pl sid w = Some w'
    \<and> answered J i (if t = QUERY_NODE then query_spec J i pl (w_registry w) else list_spec i (w_registry w))
        (w_registry w) w w'"
proof (cases "t = QUERY_NODE")
  case True
  then show ?thesis
    using handleQueryNode_total [OF assms(1-6), of i] handleQueryNode_effect
    unfolding returns_def QueryHandler_handle_def by fastforce
next
  case False
  then show ?thesis
    using handleListNodes_total [OF assms(1-3,6,7), of i] handleListNodes_effect
    unfolding returns_def QueryHandler_handle_def by fastforce
qed

lemma query_contract_witness:
  "\<exists>w'. QueryHandler_handle (sample_lib ''registration'' sample_json) QUERY_NODE 7 ''registration'' ''1''
      (sample_world [(''n1'', sample_entry)] []) = Some w'
    \<and> answered (sample_lib ''registration'' sample_json) 7 (ACK, json_fields [(''ref_message_id'', JUInt 7), (''node_id'', JString ''n1''),
          (''bunker_name'', JString ''b''), (''ip_address'', JString ''10.0.0.1''), (''capacity'', JUInt 4), (''status'', JString ''ONLINE'')])
        [(''n1'', sample_entry)] (sample_world [(''n1'', sample_entry)] []) w'"
  using query_contract [of "sample_lib ''registration'' sample_json" "''1''" "sample_world [(''n1'', sample_entry)] []"
      "''registration''" QUERY_NODE 7] sample_safe [of "''registration''"]
  by (simp add: safe_literal stack_ok_def message_safe_def query_spec_def sample_fields)

text \<open>
  C11. HEARTBEAT. The handler returns and sends nothing. A node that is ONLINE gets a reading of
  the clock as the time it was last seen; for any other node the registry is unchanged.
\<close>

theorem heartbeat_contract:
  assumes "json_laws J" "safe_text sid" "safe_text k" "stack_ok w" "wf_registry (w_registry w)"
  shows "\<exists>w' j. HeartbeatHandler_handle J k sid w = Some w' \<and> w_io w' = w_io w \<and> ot_stack w' = ot_stack w
    \<and> (\<forall>m. queryNode m (w_registry w') = map_option
          (\<lambda>e. if m = k \<and> ne_status e = ONLINE then e\<lparr>ne_last_seen_at := h_system w j\<rparr> else e) (queryNode m (w_registry w)))"
proof -
  obtain w' where w': "HeartbeatHandler_handle J k sid w = Some w'"
    using HeartbeatHandler_total [OF assms(1-4)] unfolding returns_def by blast
  obtain j where c: "core w' = core w\<lparr>w_registry := snd (updateLastSeen (h_system w j) k (w_registry w))\<rparr>"
    and st: "ot_stack w' = ot_stack w" using HeartbeatHandler_effect [OF w'] by blast
  have "w_registry w' = snd (updateLastSeen (h_system w j) k (w_registry w))" "w_io w' = w_io w"
    using arg_cong [OF c, of w_registry] arg_cong [OF c, of w_io] by simp_all
  moreover have "queryNode m (snd (updateLastSeen (h_system w j) k (w_registry w))) = map_option
          (\<lambda>e. if m = k \<and> ne_status e = ONLINE then e\<lparr>ne_last_seen_at := h_system w j\<rparr> else e) (queryNode m (w_registry w))" for m
    using nreg.query_seen [OF assms(5), of m "h_system w j" k] nreg.seen_result [OF assms(5), of "h_system w j" k]
    by (cases "queryNode m (w_registry w)") auto
  ultimately show ?thesis using w' st by (intro exI [of _ w'] exI [of _ j]) simp
qed

lemma heartbeat_contract_witness:
  "\<exists>w'. HeartbeatHandler_handle (sample_lib ''registration'' sample_json) ''n1'' ''1''
      (sample_world [(''n1'', sample_entry)] []) = Some w'
    \<and> queryNode ''n1'' (w_registry w') = Some (sample_entry\<lparr>ne_last_seen_at := 0\<rparr>)"
proof -
  have q: "queryNode ''n1'' [(''n1'', sample_entry)] = Some sample_entry" "ne_status sample_entry = ONLINE"
    by (simp_all add: queryNode_def sample_entry_def)
  show ?thesis
    using heartbeat_contract [of "sample_lib ''registration'' sample_json" "''1''" "''n1''" "sample_world [(''n1'', sample_entry)] []"]
      sample_reg_ok q
    by (auto simp: safe_literal stack_ok_def)
qed

text \<open>
  C12. What is registered can be queried. A REGISTER for a node that is unknown or OFFLINE is
  acknowledged with the name of the node, and a QUERY\_NODE for the node right after it is answered with the very name, bunker, address and
  capacity that were sent, each under its own field, and the status ONLINE.
\<close>

theorem register_query_roundtrip:
  assumes "RegisterHandler_handle J i pl sid w = Some w1" "handleQueryNode J i' pl' sid w1 = Some w2"
    and "parse J pl = Some j" "json_get ''node_id'' j = Some (JString k)" "k \<noteq> []"
    and "json_get ''bunker_name'' j = Some (JString b)" "json_get ''ip_address'' j = Some (JString ip)"
    and "json_get ''capacity'' j = Some (JUInt c)"
    and "\<forall>e. queryNode k (w_registry w) = Some e \<longrightarrow> ne_status e = OFFLINE"
    and "parse J pl' = Some j'" "json_get ''node_id'' j' = Some (JString k)"
  shows "answered J i (ACK, json_fields [(''ref_message_id'', JUInt (ucast i)), (''node_id'', JString k)]) (w_registry w1) w w1
    \<and> answered J i' (ACK, json_fields [(''ref_message_id'', JUInt (ucast i')), (''node_id'', JString k), (''bunker_name'', JString b),
        (''ip_address'', JString ip), (''capacity'', JUInt c), (''status'', JString ''ONLINE'')]) (w_registry w1) w1 w2"
proof -
  define e where "e = \<lparr>ne_node_id = k, ne_bunker_name = b, ne_ip_address = ip, ne_capacity = c, ne_status = ONLINE, ne_last_seen_at = 0\<rparr>"
  have "registration j = Some e" using assms(4-8) by (simp add: registration_def e_def)
  then have s: "register_spec J i pl (w_registry w) = (ack_reply i k, AList.update k e (w_registry w))"
    using assms(3,9) by (auto simp: register_spec_def queryNode_def e_def)
  have a: "answered J i (ack_reply i k) (AList.update k e (w_registry w)) w w1"
    using RegisterHandler_effect [OF assms(1)] by (simp add: s)
  then have r: "w_registry w1 = AList.update k e (w_registry w)" using answered_request by blast
  then have "query_spec J i' pl' (w_registry w1) = (ACK, json_fields [(''ref_message_id'', JUInt (ucast i')), (''node_id'', JString k),
      (''bunker_name'', JString b), (''ip_address'', JString ip), (''capacity'', JUInt c), (''status'', JString ''ONLINE'')])"
    using assms(10,11) by (simp add: query_spec_def update_conv' node_fields_def e_def)
  then show ?thesis using a r handleQueryNode_effect [OF assms(2)] by (simp add: ack_reply_def)
qed

lemma register_query_roundtrip_witness:
  "\<exists>w1 w2. RegisterHandler_handle (sample_lib ''registration'' sample_json) 7 ''registration'' ''1'' (sample_world [] []) = Some w1
    \<and> handleQueryNode (sample_lib ''registration'' sample_json) 8 ''registration'' ''1'' w1 = Some w2
    \<and> answered (sample_lib ''registration'' sample_json) 8 (ACK, json_fields [(''ref_message_id'', JUInt 8), (''node_id'', JString ''n1''),
        (''bunker_name'', JString ''b''), (''ip_address'', JString ''10.0.0.1''), (''capacity'', JUInt 4), (''status'', JString ''ONLINE'')])
        (w_registry w1) w1 w2"
proof -
  let ?J = "sample_lib ''registration'' sample_json" and ?w = "sample_world [] []"
  have n: "name_safe ?J ''registration''" "safe_text ''1''" using sample_safe [of "''registration''"] by (simp_all add: message_safe_def safe_literal)
  obtain w1 where w1: "RegisterHandler_handle ?J 7 ''registration'' ''1'' ?w = Some w1"
    using RegisterHandler_total [of ?J "''1''" ?w "''registration''" 7] n by (auto simp: stack_ok_def returns_def)
  have "answered ?J 7 (ack_reply 7 ''n1'') [(''n1'', sample_entry)] ?w w1"
    using RegisterHandler_effect [OF w1] by (simp add: register_spec_def registration_code)
  then have "w_registry w1 = [(''n1'', sample_entry)]" "stack_ok w1"
    using answered_request [of ?J 7 "ack_reply 7 ''n1''" "[(''n1'', sample_entry)]" ?w w1] by (auto simp: stack_ok_def)
  then obtain w2 where w2: "handleQueryNode ?J 8 ''registration'' ''1'' w1 = Some w2"
    using handleQueryNode_total [of ?J "''1''" w1 "''registration''" 8] n by (auto simp: returns_def)
  have "json_get ''bunker_name'' sample_json = Some (JString ''b'')" "json_get ''ip_address'' sample_json = Some (JString ''10.0.0.1'')"
    "json_get ''capacity'' sample_json = Some (JUInt 4)" by (simp_all add: sample_json_def)
  then show ?thesis
    using w1 w2 register_query_roundtrip [OF w1 w2, of sample_json "''n1''" "''b''" "''10.0.0.1''" 4 sample_json] by (simp add: queryNode_def)
qed

text \<open>
  C36. Timestamps tell the time. For a clock between the epoch and the end of the year 9999, the texts of \<^verbatim>\<open>toIso8601\<close>, of the
  log lines and of the welcome, read as \<^verbatim>\<open>YYYY-MM-DDThh:mm:ssZ\<close> in the Gregorian calendar, denote exactly the second of the clock.
\<close>

theorem timestamps_denote_time:
  assumes "h_system w (h_reads w) = t" "0 \<le> t" "t < 253402300800 * 10 ^ 9"
  shows "read_utc (toIso8601 t) = Some (t div 10 ^ 9) \<and> read_utc (fst (nowIso8601Utc w)) = Some (t div 10 ^ 9)
    \<and> read_utc (fst (getIso8601Timestamp w)) = Some (t div 10 ^ 9)"
  using assms(1) read_iso8601 [OF assms(2,3)] by (simp add: toIso8601_def nowIso8601Utc_def getIso8601Timestamp_def system_now_def)

lemma timestamps_denote_time_witness:
  "read_utc (toIso8601 951782400000000000) = Some 951782400 \<and> read_utc ''2000-02-29T00:00:00Z'' = Some 951782400"
proof
  show "read_utc (toIso8601 951782400000000000) = Some 951782400"
    using timestamps_denote_time [of "(sample_world [] [])\<lparr>h_system := \<lambda>_. 951782400000000000\<rparr>" 951782400000000000] by simp
  show "read_utc ''2000-02-29T00:00:00Z'' = Some 951782400" by code_simp
qed

section \<open>Nodes that stop sending heartbeats\<close>

definition late_world :: world where
  "late_world = (sample_world [(''n1'', sample_entry)] [])\<lparr>h_system := \<lambda>_. 10 ^ 12\<rparr>"

text \<open>
  C13. A round of the heartbeat monitor with no other thread in between returns, and marks offline
  exactly the nodes that are ONLINE and were last seen before the deadline: twice the interval in seconds, a 32-bit product, before
  the time that the round reads from the clock.
\<close>

theorem tick_marks_stale_nodes:
  assumes "json_laws J" "list_all (safe_text \<circ> ne_node_id) (listNodes (w_registry w))" "stack_ok w"
    and "wf_registry (w_registry w)" "w_interference w = []"
  shows "\<exists>w'. tick J n w = Some w' \<and> (\<forall>k. \<exists>tm. queryNode k (w_registry w') =
     map_option (\<lambda>e. if ne_status e = ONLINE \<and> ne_last_seen_at e < (h_system w (h_reads w) - int (2 * unat n mod 2 ^ 32) * 10 ^ 9)
       then e\<lparr>ne_status := OFFLINE, ne_last_seen_at := tm\<rparr> else e) (queryNode k (w_registry w)))"
proof -
  obtain w' where "tick J n w = Some w'" using tick_total [OF assms(1-3)] unfolding returns_def by blast
  then show ?thesis using tick_quiet [OF _ assms(4,5)] by (auto simp: is_stale_def tick_deadline_eq)
qed

lemma tick_marks_stale_nodes_witness:
  "\<exists>w' tm. tick (sample_lib ''registration'' sample_json) 30 late_world = Some w'
    \<and> queryNode ''n1'' (w_registry w') = Some (sample_entry\<lparr>ne_status := OFFLINE, ne_last_seen_at := tm\<rparr>)"
proof -
  obtain w' where w': "tick (sample_lib ''registration'' sample_json) 30 late_world = Some w'" "\<forall>k. \<exists>tm. queryNode k (w_registry w') =
     map_option (\<lambda>e. if ne_status e = ONLINE \<and> ne_last_seen_at e < (h_system late_world (h_reads late_world) - int (2 * unat (30 :: u32) mod 2 ^ 32) * 10 ^ 9)
       then e\<lparr>ne_status := OFFLINE, ne_last_seen_at := tm\<rparr> else e) (queryNode k (w_registry late_world))"
    using tick_marks_stale_nodes [of "sample_lib ''registration'' sample_json" late_world 30]
    by (auto simp: late_world_def listNodes_def stack_ok_def safe_literal)
  moreover have "queryNode ''n1'' (w_registry late_world) = Some sample_entry"
    "h_system late_world (h_reads late_world) - int (2 * unat (30 :: u32) mod 2 ^ 32) * 10 ^ 9 = 940000000000"
    "ne_status sample_entry = ONLINE" "ne_last_seen_at sample_entry = 0"
    by (simp_all add: late_world_def queryNode_def sample_entry_def)
  ultimately show ?thesis using w'(1) spec [OF w'(2), of "''n1''"] by auto
qed

text \<open>
  C40. A node that has just registered is taken for dead. Registration leaves the time it was last
  seen at the epoch, so the next round of the monitor marks the node OFFLINE unless a heartbeat
  came first, however recent the registration is.
\<close>

theorem fresh_node_marked_offline:
  assumes "tick J n w = Some w'" "wf_registry r" "w_interference w = []"
    and "parse J pl = Some j" "\<not> register_invalid j" "fst (registerNode (register_entry j) r) = REG_OK"
    and "w_registry w = snd (register_spec J i pl r)" "int (2 * unat n mod 2 ^ 32) * 10 ^ 9 < h_system w (h_reads w)"
  shows "\<exists>e. queryNode (ne_node_id (register_entry j)) (w_registry w') = Some e \<and> ne_status e = OFFLINE"
proof -
  have s: "w_registry w = snd (registerNode (register_entry j) r)"
    using assms(4-7) by (simp add: register_spec_code Let_def case_prod_beta)
  have "queryNode (ne_node_id (register_entry j)) (w_registry w) = Some (register_entry j)"
    using nreg.reg_ok_query [OF assms(2,6)] by (simp add: s register_entry_def)
  moreover have "is_stale (tick_deadline n (h_system w (h_reads w))) (register_entry j)"
    using assms(8) by (simp add: is_stale_def register_entry_def tick_deadline_eq)
  moreover have "wf_registry (w_registry w)" using assms(2) by (simp add: s inv_intros)
  ultimately show ?thesis using tick_quiet [OF assms(1) _ assms(3), of "ne_node_id (register_entry j)"] by auto
qed

lemma fresh_node_marked_offline_witness:
  "\<exists>w' e. tick (sample_lib ''registration'' sample_json) 30 late_world = Some w'
    \<and> queryNode ''n1'' (w_registry w') = Some e \<and> ne_status e = OFFLINE"
proof -
  obtain w' where w': "tick (sample_lib ''registration'' sample_json) 30 late_world = Some w'"
    using tick_total [of "sample_lib ''registration'' sample_json" late_world 30]
    by (auto simp: late_world_def listNodes_def stack_ok_def safe_literal returns_def)
  have r: "registerNode sample_entry [] = (REG_OK, [(''n1'', sample_entry)])"
    by (simp add: registerNode_def) (simp add: sample_entry_def)
  show ?thesis
    using w' fresh_node_marked_offline [OF w', of "[]" "''registration''" sample_json 7] r
    by (simp add: late_world_def register_spec_code Let_def)
qed

text \<open>
  C39. The snapshot decides, not the registry at the time of the marking. While a round of the
  monitor marks the nodes it found silent, other threads may record heartbeats. They change nothing: a node
  that was silent in the snapshot is OFFLINE after the round even if its heartbeat was recorded before
  it was marked, and every other node keeps its status.
\<close>

theorem late_heartbeat_is_lost:
  assumes "tick J n w = Some w'" "wf_registry (w_registry w)" "list_all (list_all is_heartbeat_op) (w_interference w)"
  shows "map_option ne_status (queryNode k (w_registry w')) =
    map_option (\<lambda>e. if ne_status e = ONLINE \<and> ne_last_seen_at e < (h_system w (h_reads w) - int (2 * unat n mod 2 ^ 32) * 10 ^ 9)
      then OFFLINE else ne_status e) (queryNode k (w_registry w))"
  using tick_heartbeats [OF assms, of k] by (simp add: status_of_def is_stale_def tick_deadline_eq)

text \<open>A heartbeat at the very time of the round, recorded before the node is marked.\<close>

lemma late_heartbeat_is_lost_witness:
  "\<exists>w' e. tick (sample_lib ''registration'' sample_json) 30 (late_world\<lparr>w_interference := [[Op_updateLastSeen (10 ^ 12) ''n1'']]\<rparr>) = Some w'
    \<and> queryNode ''n1'' (run_registry [Op_updateLastSeen (10 ^ 12) ''n1''] (w_registry late_world)) = Some (sample_entry\<lparr>ne_last_seen_at := 10 ^ 12\<rparr>)
    \<and> queryNode ''n1'' (w_registry w') = Some e \<and> ne_status e = OFFLINE"
proof -
  let ?w = "late_world\<lparr>w_interference := [[Op_updateLastSeen (10 ^ 12) ''n1'']]\<rparr>"
  obtain w' where w': "tick (sample_lib ''registration'' sample_json) 30 ?w = Some w'"
    using tick_total [of "sample_lib ''registration'' sample_json" ?w 30]
    by (auto simp: late_world_def listNodes_def stack_ok_def safe_literal returns_def)
  have "map_option ne_status (queryNode ''n1'' (w_registry w')) = Some OFFLINE"
    using late_heartbeat_is_lost [OF w', of "''n1''"]
    by (simp add: late_world_def queryNode_def) (simp add: sample_entry_def)
  moreover have "queryNode ''n1'' (run_registry [Op_updateLastSeen (10 ^ 12) ''n1''] (w_registry late_world)) = Some (sample_entry\<lparr>ne_last_seen_at := 10 ^ 12\<rparr>)"
    by (simp add: late_world_def queryNode_def updateLastSeen_def) (simp add: sample_entry_def)
  ultimately show ?thesis using w' by auto
qed

section \<open>Client and server\<close>

text \<open>
  C5. The example client and the server understand each other. Let \<^verbatim>\<open>connect_basic\<close> talk to a
  worker of the server, each receiving what the other sends, in any chunks, and let other threads
  change the registry meanwhile. Then the client exits with success exactly if the registry, as the
  REGISTER met it, accepted the node, and with failure otherwise. After the session the server knows the node as OFFLINE.
\<close>

theorem client_server_session:
  assumes "json_laws J" "demo_parses J" "wf_registry (w_registry (sv_world st))" "session_ok 3 [] (sv_world st)"
    and "0 \<le> fd" "tx_ok (sv_sockets st fd)" "serve_socket J None \<lparr>as_fd = fd, as_ip = ip\<rparr> st = Some st'"
    and "basic_port args = Some port" "fst (eop_connect (Some (basic_host args)) port DEFAULT_TIMEOUT_MS env) \<noteq> None"
    and "\<forall>e. TxErr e \<notin> set (io_tx (snd (pr_io p)))" "pr_allocs p = []" "connect_basic args env p = Some (code, p')"
    and "wired p p' (sv_sockets st fd) (sv_sockets st' fd)"
  shows "code = (if fst (registerNode demo_entry (demo_registry (w_interference (sv_world st)) (w_registry (sv_world st)))) = REG_OK
      then EXIT_SUCCESS else EXIT_FAILURE)
    \<and> (\<exists>e. queryNode DEMO_NODE_ID (w_registry (sv_world st')) = Some e \<and> ne_status e = OFFLINE)"
  using assms by (rule demo_conversation)

text \<open>
  C6. What a user types is what the server serves. Once the console knows where to connect, from its
  arguments or from the first answers of the user, and on a connection that takes the data, it returns with success
  whatever it receives, having read just the choices of the user. A worker that receives what the console has sent, in
  any chunks, returns too, and has served the opening HEARTBEAT and then exactly one request per
  choice, in order and with consecutive identifiers; so the registry is what these requests and the other
  threads make of it.
\<close>

theorem console_drives_server:
  assumes "demo_params args p = Some (Some (host, port, t), q)" "fst (eop_connect (Some host) port t env) \<noteq> None"
    and "\<forall>e. TxErr e \<notin> set (io_tx (snd (pr_io p)))" "list_all ca_send (pr_allocs p)" "prog_sent p = []"
    and "\<forall>c \<in> set cs. list_all good_line (choice_lines c)" "pr_in q = typed (concat (map choice_lines cs) @ [''0'']) @ rest"
    and "json_laws J" "0 \<le> fd" "safe_text ip" "list_all (message_safe J) (console_messages cs)"
  shows "\<exists>p'. eop_demo args env p = Some (EXIT_SUCCESS, p') \<and> pr_in p' = rest
    \<and> (\<forall>st. session_ok (Suc (length cs)) [] (sv_world st) \<and> tx_ok (sv_sockets st fd) \<and> rx_bytes (io_rx (sv_sockets st fd)) = prog_sent p' \<longrightarrow>
        (\<exists>st' reps n r. serve_socket J None \<lparr>as_fd = fd, as_ip = ip\<rparr> st = Some st'
          \<and> serves J (w_interference (sv_world st)) [] (w_registry (sv_world st)) (console_messages cs) reps n r
          \<and> left_offline n r (w_registry (sv_world st'))))"
proof -
  obtain p' where p': "eop_demo args env p = Some (EXIT_SUCCESS, p')" "prog_sent p' = frame_bytes HEARTBEAT 0 [] @ script_frames 1 cs" "pr_in p' = rest"
    using demo_sends_script [OF assms(1-4,6,7)] assms(5) by auto
  have d: "decode_all decode_message (prog_sent p') = (console_messages cs, [])" using console_decode [OF assms(6)] by (simp add: p'(2))
  have "\<exists>st' reps n r. serve_socket J None \<lparr>as_fd = fd, as_ip = ip\<rparr> st = Some st'
      \<and> serves J (w_interference (sv_world st)) [] (w_registry (sv_world st)) (console_messages cs) reps n r
      \<and> left_offline n r (w_registry (sv_world st'))"
    if "session_ok (Suc (length cs)) [] (sv_world st)" "tx_ok (sv_sockets st fd)" "rx_bytes (io_rx (sv_sockets st fd)) = prog_sent p'" for st
    using serve_socket_serves [of J "console_messages cs" st ip fd "[]"] assms(8-11) that d by (metis length_console)
  then show ?thesis using p' by blast
qed

text \<open>The user lists the nodes; the server has just accepted the console.\<close>

lemma console_drives_server_witness:
  "\<exists>p' st' reps n r. eop_demo [] sample_env (sample_prog (typed [[], [], [], ''3'', ''0''])) = Some (EXIT_SUCCESS, p')
    \<and> serve_socket (sample_lib ''registration'' sample_json) None \<lparr>as_fd = 4, as_ip = ''10.0.0.1''\<rparr>
        \<lparr>sv_world = sample_world [] [], sv_queue = new_WorkQueue, sv_session = new_SessionManager,
         sv_sockets = (\<lambda>_. \<lparr>io_rx = [RxData (prog_sent p'), RxEof], io_tx = [], io_sent = [], io_errno = E_NONE\<rparr>)\<rparr> = Some st'
    \<and> serves (sample_lib ''registration'' sample_json) [] [] [] [(HEARTBEAT, 0, []), (LIST_NODES, 1, [])] reps n r
    \<and> left_offline n r (w_registry (sv_world st'))"
proof -
  let ?p = "sample_prog (typed [[], [], [], ''3'', ''0''])"
  let ?st = "\<lambda>p'. \<lparr>sv_world = sample_world [] [], sv_queue = new_WorkQueue, sv_session = new_SessionManager,
    sv_sockets = (\<lambda>_. \<lparr>io_rx = [RxData (prog_sent p'), RxEof], io_tx = [], io_sent = [], io_errno = E_NONE\<rparr>)\<rparr>"
  obtain q where q: "demo_params [] ?p = Some (Some (DEFAULT_HOST, DEFAULT_CLIENT_PORT, CONNECT_TIMEOUT_MS), q)" "pr_in q = typed [''3'', ''0'']"
    by (rule demo_params_default)
  have c: "fst (eop_connect (Some DEFAULT_HOST) DEFAULT_CLIENT_PORT CONNECT_TIMEOUT_MS sample_env) \<noteq> None" by (rule sample_connects)
  have m: "console_messages [Choose_list] = [(HEARTBEAT, 0, []), (LIST_NODES, 1, [])]" by (simp add: console_messages_def)
  obtain p' where p': "eop_demo [] sample_env ?p = Some (EXIT_SUCCESS, p')"
    and f: "\<forall>st. session_ok (Suc (length [Choose_list])) [] (sv_world st) \<and> tx_ok (sv_sockets st 4) \<and> rx_bytes (io_rx (sv_sockets st 4)) = prog_sent p' \<longrightarrow>
        (\<exists>st' reps n r. serve_socket (sample_lib ''registration'' sample_json) None \<lparr>as_fd = 4, as_ip = ''10.0.0.1''\<rparr> st = Some st'
          \<and> serves (sample_lib ''registration'' sample_json) (w_interference (sv_world st)) [] (w_registry (sv_world st)) (console_messages [Choose_list]) reps n r
          \<and> left_offline n r (w_registry (sv_world st')))"
    using console_drives_server [OF q(1) c, of "[Choose_list]" "[]" "sample_lib ''registration'' sample_json" 4 "''10.0.0.1''"] q(2)
    by (auto simp: m sample_prog_def prog_sent_def good_line_def safe_literal)
  have "session_ok (Suc (length [Choose_list])) [] (sv_world (?st p')) \<and> tx_ok (sv_sockets (?st p') 4) \<and> rx_bytes (io_rx (sv_sockets (?st p') 4)) = prog_sent p'"
    by (simp add: sample_session_ok reg_ok_def tx_ok_def)
  then show ?thesis using p' f [THEN spec, of "?st p'"] by (simp add: m)
qed

text \<open>A library that knows the two documents of the client, and a server that has just accepted it.\<close>

definition demo_lib :: json_lib where
  "demo_lib = \<lparr>parse = (\<lambda>s. if s = reg_payload then Some (JObject [(''bunker_name'', JString DEMO_BUNKER_NAME),
         (''capacity'', JUInt (word_of_nat DEMO_CAPACITY)), (''ip_address'', JString DEMO_IP_ADDRESS), (''node_id'', JString DEMO_NODE_ID)])
       else if s = query_payload then Some (JObject [(''node_id'', JString DEMO_NODE_ID)]) else None),
     dump = (\<lambda>v. if json_utf8 v then Some [] else None), parse_what = (\<lambda>_. [])\<rparr>"

definition demo_server :: server where
  "demo_server = \<lparr>sv_world = sample_world [] [], sv_queue = new_WorkQueue, sv_session = new_SessionManager,
     sv_sockets = (\<lambda>_. \<lparr>io_rx = [RxData (encode_many encode_message (demo_messages True)), RxEof], io_tx = [], io_sent = [], io_errno = E_NONE\<rparr>)\<rparr>"

lemma demo_payloads: "reg_payload \<noteq> query_payload" "30 \<le> length reg_payload" "20 \<le> length query_payload"
proof -
  have q: "query_payload = query_json DEMO_NODE_ID"
    by (simp add: query_payload_def snprintf_def query_json_def quote_def DEMO_NODE_ID_def QUERY_PAYLOAD_SIZE_def)
  have "length query_payload = 27" by (simp add: q query_json_def quote_def DEMO_NODE_ID_def)
  moreover have "59 \<le> length reg_payload" by (simp add: reg_payload_eq register_json_length)
  ultimately show "reg_payload \<noteq> query_payload" "30 \<le> length reg_payload" "20 \<le> length query_payload" by auto
qed

lemma demo_lib_laws: "json_laws demo_lib" "demo_parses demo_lib"
proof -
  have "utf8 DEMO_BUNKER_NAME" "utf8 DEMO_IP_ADDRESS" "utf8 DEMO_NODE_ID"
    "length DEMO_BUNKER_NAME \<le> 20" "length DEMO_IP_ADDRESS \<le> 20" "length DEMO_NODE_ID \<le> 20"
    by (simp_all add: DEMO_BUNKER_NAME_def DEMO_IP_ADDRESS_def DEMO_NODE_ID_def utf8_literal)
  then show "json_laws demo_lib"
    using demo_payloads
    by (auto simp: json_laws_def parse_law_def dump_law_def size_law_def demo_lib_def utf8_literal split: if_splits)
  have "reg_payload \<noteq> []" "query_payload \<noteq> []" using demo_payloads(2,3) by force+
  then show "demo_parses demo_lib" using demo_payloads(1) by (auto simp: demo_parses_def demo_lib_def)
qed

lemma client_server_session_witness:
  "\<exists>st' p code p'. serve_socket demo_lib None \<lparr>as_fd = 5, as_ip = ''10.0.0.2''\<rparr> demo_server = Some st'
    \<and> connect_basic [] sample_env p = Some (code, p') \<and> wired p p' (sv_sockets demo_server 5) (sv_sockets st' 5)
    \<and> code = EXIT_SUCCESS \<and> (\<exists>e. queryNode DEMO_NODE_ID (w_registry (sv_world st')) = Some e \<and> ne_status e = OFFLINE)"
proof -
  let ?bytes = "encode_many encode_message (demo_messages True)"
  have ne: "?bytes \<noteq> []" using frame_bytes_nonempty by (simp add: demo_messages_encode basic_opening_def)
  have st: "wf_registry (w_registry (sv_world demo_server))" "session_ok 3 [] (sv_world demo_server)"
      "tx_ok (sv_sockets demo_server 5)" "io_sent (sv_sockets demo_server 5) = []" "rx_bytes (io_rx (sv_sockets demo_server 5)) = ?bytes"
    using ne by (simp_all add: demo_server_def sample_session_ok reg_ok_def tx_ok_def)
  have ok: "fst (registerNode demo_entry (demo_registry (w_interference (sv_world demo_server)) (w_registry (sv_world demo_server)))) = REG_OK"
    by (simp add: demo_server_def demo_registry_def next_batch_def registerNode_def)
  obtain st' where s: "serve_socket demo_lib None \<lparr>as_fd = 5, as_ip = ''10.0.0.2''\<rparr> demo_server = Some st'"
      "\<And>q. aligned (io_sent (sv_sockets st' 5)) q \<Longrightarrow> next_id q = 0 \<Longrightarrow>
        \<exists>p'. basic_exchanges q = Some (EXIT_SUCCESS, p') \<and> prog_sent p' = prog_sent q @ ?bytes"
    using demo_conversation_exists [OF demo_lib_laws st(1,2) _ _ st(3-5) ok, of "''10.0.0.2''"] by (auto simp: safe_literal)
  define p where "p = (sample_prog [])\<lparr>pr_io := ([], \<lparr>io_rx = map RxData (filter (\<lambda>c. c \<noteq> []) [io_sent (sv_sockets st' 5)]),
    io_tx = [], io_sent = [], io_errno = E_NONE\<rparr>)\<rparr>"
  have rx: "plain_rx (io_sent (sv_sockets st' 5)) (pr_io p)" unfolding p_def plain_rx_def
    by (auto intro!: exI [of _ "filter (\<lambda>c. c \<noteq> []) [io_sent (sv_sockets st' 5)]"])
  have p: "\<forall>e. TxErr e \<notin> set (io_tx (snd (pr_io p)))" "pr_allocs p = []" "prog_sent p = []"
    by (simp_all add: p_def sample_prog_def prog_sent_def)
  have c: "basic_port [] = Some 9026" "fst (eop_connect (Some (basic_host [])) 9026 DEFAULT_TIMEOUT_MS sample_env) \<noteq> None"
    by (simp_all add: basic_port_def basic_host_def DEFAULT_CLIENT_PORT_def sample_env_def eop_connect_def finish_connect_def
        TCP_PORT_MIN_VALUE_def TCP_PORT_MAX_VALUE_def)
  obtain q where "connect_basic [] sample_env p = basic_exchanges q" "aligned (io_sent (sv_sockets st' 5)) q" "next_id q = 0" "prog_sent q = []"
    using connect_basic_connected [OF c p(1,2) rx] p(3) by metis
  then obtain p' where p': "connect_basic [] sample_env p = Some (EXIT_SUCCESS, p')" "prog_sent p' = ?bytes"
    using s(2) [of q] by auto
  have w: "wired p p' (sv_sockets demo_server 5) (sv_sockets st' 5)" using p(3) p'(2) st(4,5) rx by (simp add: wired_def)
  show ?thesis
    using client_server_session [OF demo_lib_laws st(1,2) _ st(3) s(1) c p(1,2) p'(1) w] s(1) p'(1) w by auto
qed

end
